(* ===== verification/Prelude.thy ===== *)
theory Prelude
  imports Complex_Main "HOL-Library.List_Lexorder" "HOL-Library.Char_ord"
    "HOL-Library.Product_Lexorder" "HOL-Library.Multiset"
begin

text \<open>
  Shared vocabulary of the development: the JavaScript library operations the modelled code
  uses (strings, \<open>Array.prototype.sort\<close>, \<open>Set\<close>, \<open>Map\<close>), each with the
  facts the components need, and the collections of rewrite rules the component proofs share.

  Strings are lists of code units below 256 (\<open>char\<close>), compared lexicographically as the
  ECMAScript \<open><\<close> compares code units. Numbers the code computes with are exact rationals
  (\<open>js_num\<close>); counts, indices and lengths are \<open>nat\<close>.
\<close>

type_synonym js_num = rat

named_theorems js_simps \<open>rewrite rules for the JavaScript library operations\<close>

section \<open>Truthiness and optional values\<close>

text \<open>An optional string property is truthy when it is present and not empty.\<close>

definition truthy :: "string option \<Rightarrow> bool" where
  "truthy s = (case s of None \<Rightarrow> False | Some t \<Rightarrow> t \<noteq> [])"

lemma truthy_simps [simp]: "truthy None = False" "truthy (Some t) = (t \<noteq> [])"
  by (simp_all add: truthy_def)

text \<open>\<open>x ?? d\<close>.\<close>

definition orelse :: "'a option \<Rightarrow> 'a \<Rightarrow> 'a" where
  "orelse x d = (case x of None \<Rightarrow> d | Some y \<Rightarrow> y)"

lemma orelse_simps [simp]: "orelse None d = d" "orelse (Some y) d = y"
  by (simp_all add: orelse_def)

text \<open>\<open>Array.prototype.find\<close> is the library's \<open>List.find\<close>.\<close>

lemma find_SomeD: "List.find P xs = Some x \<Longrightarrow> x \<in> set xs \<and> P x"
  by (auto simp: find_Some_iff)

lemma find_None_filter: "List.find P xs = None \<longleftrightarrow> filter P xs = []"
  by (induction xs) auto

section \<open>Mapping with the index\<close>

text \<open>\<open>xs.map((x, i) => ...)\<close>.\<close>

definition mapi :: "(nat \<Rightarrow> 'a \<Rightarrow> 'b) \<Rightarrow> 'a list \<Rightarrow> 'b list" where
  "mapi f xs = map (\<lambda>(i, x). f i x) (enumerate 0 xs)"

lemma length_mapi [simp]: "length (mapi f xs) = length xs"
  by (simp add: mapi_def)

lemma mapi_eq_Nil [simp]: "mapi f xs = [] \<longleftrightarrow> xs = []"
  by (metis length_0_conv length_mapi)

lemma nth_mapi [simp]: "i < length xs \<Longrightarrow> mapi f xs ! i = f i (xs ! i)"
  by (simp add: mapi_def nth_enumerate_eq)

lemma set_mapi: "set (mapi f xs) = {f i (xs ! i) | i. i < length xs}"
  by (auto simp: set_conv_nth) (metis nth_mapi)+

lemma map_mapi: "map g (mapi f xs) = mapi (\<lambda>i x. g (f i x)) xs"
  by (simp add: mapi_def case_prod_unfold comp_def)

lemma mapi_const: "mapi (\<lambda>i x. g x) xs = map g xs"
  by (intro nth_equalityI) simp_all

section \<open>Sets and maps built from arrays\<close>

text \<open>\<open>[...new Set(xs)]\<close> keeps the first occurrence of every element, in order.\<close>

definition uniq :: "'a list \<Rightarrow> 'a list" where
  "uniq xs = rev (remdups (rev xs))"

lemma set_uniq [simp]: "set (uniq xs) = set xs"
  by (simp add: uniq_def)

lemma distinct_uniq [simp]: "distinct (uniq xs)"
  by (simp add: uniq_def)

lemma uniq_Nil [simp]: "uniq [] = []"
  by (simp add: uniq_def)

lemma uniq_eq_Nil [simp]: "uniq xs = [] \<longleftrightarrow> xs = []"
  by (simp add: uniq_def)

lemma uniq_distinct: "distinct xs \<Longrightarrow> uniq xs = xs"
  by (simp add: uniq_def distinct_remdups_id)

text \<open>\<open>new Map(entries).get(k)\<close>: the last entry of a key wins.\<close>

definition js_map_get :: "('k \<times> 'v) list \<Rightarrow> 'k \<Rightarrow> 'v option" where
  "js_map_get es k = map_of (rev es) k"

lemma js_map_get_Some: "js_map_get es k = Some v \<Longrightarrow> (k, v) \<in> set es"
  by (auto simp: js_map_get_def dest: map_of_SomeD)

lemma js_map_get_None: "js_map_get es k = None \<longleftrightarrow> k \<notin> fst ` set es"
  by (auto simp: js_map_get_def map_of_eq_None_iff)

lemma js_map_get_distinct:
  "distinct (map fst es) \<Longrightarrow> (k, v) \<in> set es \<Longrightarrow> js_map_get es k = Some v"
  unfolding js_map_get_def
  by (rule map_of_is_SomeI) (simp_all flip: rev_map)

text \<open>A map from a property of each element to the element, as the code builds its indexes.\<close>

definition index_by :: "('a \<Rightarrow> 'k) \<Rightarrow> 'a list \<Rightarrow> 'k \<Rightarrow> 'a option" where
  "index_by f xs k = js_map_get (map (\<lambda>x. (f x, x)) xs) k"

lemma index_by_Some: "index_by f xs k = Some x \<Longrightarrow> x \<in> set xs \<and> f x = k"
  by (auto simp: index_by_def dest: js_map_get_Some)

lemma index_by_None: "index_by f xs k = None \<longleftrightarrow> k \<notin> f ` set xs"
  by (force simp: index_by_def js_map_get_None)

lemma index_by_distinct:
  "distinct (map f xs) \<Longrightarrow> x \<in> set xs \<Longrightarrow> index_by f xs (f x) = Some x"
  unfolding index_by_def by (rule js_map_get_distinct) (auto simp: comp_def)

section \<open>Sorting with a comparator\<close>

text \<open>
  \<open>Array.prototype.sort\<close> is stable. The model inserts the elements from the left, each
  one before the first element the comparator puts strictly after it; for a consistent
  comparator every stable sort computes this list.
\<close>

fun js_insert :: "('a \<Rightarrow> 'a \<Rightarrow> int) \<Rightarrow> 'a \<Rightarrow> 'a list \<Rightarrow> 'a list" where
  "js_insert cmp x [] = [x]"
| "js_insert cmp x (y # ys) = (if cmp x y < 0 then x # y # ys else y # js_insert cmp x ys)"

definition js_sort :: "('a \<Rightarrow> 'a \<Rightarrow> int) \<Rightarrow> 'a list \<Rightarrow> 'a list" where
  "js_sort cmp xs = fold (js_insert cmp) xs []"

lemma mset_js_insert [simp]: "mset (js_insert cmp x xs) = add_mset x (mset xs)"
  by (induction xs) auto

lemma mset_fold_js_insert: "mset (fold (js_insert cmp) xs ys) = mset xs + mset ys"
  by (induction xs arbitrary: ys) auto

lemma mset_js_sort [simp]: "mset (js_sort cmp xs) = mset xs"
  by (simp add: js_sort_def mset_fold_js_insert)

lemma set_js_sort [simp]: "set (js_sort cmp xs) = set xs"
  by (metis mset_js_sort set_mset_mset)

lemma length_js_sort [simp]: "length (js_sort cmp xs) = length xs"
  by (metis mset_js_sort size_mset)

lemma distinct_js_sort [simp]: "distinct (js_sort cmp xs) = distinct xs"
  by (metis mset_js_sort mset_eq_imp_distinct_iff)

lemma length_filter_js_sort [simp]: "length (filter P (js_sort cmp xs)) = length (filter P xs)"
  by (metis mset_filter mset_js_sort size_mset)

lemma js_sort_eq_Nil [simp]: "js_sort cmp xs = [] \<longleftrightarrow> xs = []"
  by (metis length_0_conv length_js_sort)

lemma js_sort_Nil [simp]: "js_sort cmp [] = []"
  by simp

lemma distinct_map_js_sort [simp]: "distinct (map f (js_sort cmp xs)) = distinct (map f xs)"
  by (metis mset_js_sort mset_map mset_eq_imp_distinct_iff)

lemma js_insert_map:
  "(\<And>y. y \<in> set ys \<Longrightarrow> cmp' (f x) (f y) = cmp x y) \<Longrightarrow> js_insert cmp' (f x) (map f ys) = map f (js_insert cmp x ys)"
  by (induction ys) auto

lemma js_sort_map:
  assumes "\<And>x y. x \<in> set xs \<Longrightarrow> y \<in> set xs \<Longrightarrow> cmp' (f x) (f y) = cmp x y"
  shows "js_sort cmp' (map f xs) = map f (js_sort cmp xs)"
proof -
  have "fold (js_insert cmp') (map f as) (map f bs) = map f (fold (js_insert cmp) as bs)"
    if "set as \<subseteq> set xs" "set bs \<subseteq> set xs" for as bs
    using that
  proof (induction as arbitrary: bs)
    case (Cons a as)
    have "js_insert cmp' (f a) (map f bs) = map f (js_insert cmp a bs)"
      using Cons.prems assms by (intro js_insert_map) auto
    moreover have "set (js_insert cmp a bs) \<subseteq> set xs" using Cons.prems by (simp flip: set_mset_mset)
    ultimately show ?case using Cons by simp
  qed simp
  from this [of xs "[]"] show ?thesis by (simp add: js_sort_def)
qed

text \<open>
  The contract a comparator must satisfy: it compares by a key of a linear order. Under it the
  sort is the library's stable \<open>sort_key\<close>, its result is ordered by the key, and when the
  key identifies the elements the result does not depend on the input's order.
\<close>

locale keyed_comparator =
  fixes cmp :: "'a \<Rightarrow> 'a \<Rightarrow> int"
    and key :: "'a \<Rightarrow> 'k::linorder"
  assumes cmp_less: "cmp x y < 0 \<longleftrightarrow> key x < key y"
    and cmp_sym: "0 < cmp x y \<longleftrightarrow> cmp y x < 0"
begin

lemma cmp_zero: "cmp x y = 0 \<longleftrightarrow> key x = key y"
  using cmp_less [of x y] cmp_sym [of x y] cmp_less [of y x] by auto

lemma sorted_insert:
  "sorted (map key ys) \<Longrightarrow> sorted (map key (js_insert cmp x ys))"
proof (induction ys)
  case (Cons y ys)
  have "key z \<le> key w" if "z = y" "w = x" "\<not> cmp x y < 0" for z w
    using that cmp_less [of x y] by auto
  moreover have "set (js_insert cmp x ys) = insert x (set ys)"
    by (metis mset_js_insert set_mset_add_mset_insert set_mset_mset)
  ultimately show ?case
    using Cons cmp_less [of x y] by (auto intro: order.trans less_imp_le)
qed simp

lemma sorted_fold:
  "sorted (map key ys) \<Longrightarrow> sorted (map key (fold (js_insert cmp) xs ys))"
  by (induction xs arbitrary: ys) (simp_all add: sorted_insert)

lemma sorted_js_sort: "sorted (map key (js_sort cmp xs))"
  by (simp add: js_sort_def sorted_fold)

lemma filter_insert:
  assumes "sorted (map key ys)"
  shows "filter (\<lambda>z. key z = k) (js_insert cmp x ys) =
         filter (\<lambda>z. key z = k) ys @ (if key x = k then [x] else [])"
  using assms
proof (induction ys)
  case (Cons y ys)
  have none: "filter (\<lambda>z. key z = k) (y # ys) = []" if "key x = k" "cmp x y < 0"
    using that Cons.prems cmp_less [of x y] by (fastforce simp: filter_empty_conv)
  show ?case
    using Cons none by auto
qed simp

lemma stable_fold:
  "sorted (map key ys) \<Longrightarrow>
   filter (\<lambda>z. key z = k) (fold (js_insert cmp) xs ys) =
   filter (\<lambda>z. key z = k) ys @ filter (\<lambda>z. key z = k) xs"
  by (induction xs arbitrary: ys) (simp_all add: filter_insert sorted_insert)

lemma js_sort_sort_key: "js_sort cmp xs = sort_key key xs"
proof (rule properties_for_sort_key [symmetric])
  fix k assume "k \<in> set (js_sort cmp xs)"
  show "filter (\<lambda>x. key k = key x) (js_sort cmp xs) = filter (\<lambda>x. key k = key x) xs"
    using stable_fold [of "[]" "key k" xs] by (simp add: js_sort_def eq_commute)
qed (simp_all add: sorted_js_sort)

lemma js_sort_unique:
  assumes "mset xs = mset ys" and "inj_on key (set xs)"
  shows "js_sort cmp xs = js_sort cmp ys"
proof -
  have "sort_key key xs = sort_key key ys"
    using assms(1) assms(2) sorted_sort_key [of key ys]
    by (intro sort_key_inj_key_eq) simp_all
  then show ?thesis by (simp only: js_sort_sort_key)
qed

end

text \<open>
  \<open>String.prototype.localeCompare\<close>: a comparator that orders strings by a collation key
  which tells different strings apart.
\<close>

locale collation = keyed_comparator lc key
  for lc :: "string \<Rightarrow> string \<Rightarrow> int" and key :: "string \<Rightarrow> 'k::linorder" +
  assumes key_inj: "inj key"
begin

lemma lc_zero: "lc a b = 0 \<longleftrightarrow> a = b"
  using cmp_zero inj_eq [OF key_inj] by simp

lemma keyed_inj: "inj_on f A \<Longrightarrow> inj_on (\<lambda>x. key (f x)) A"
  using key_inj by (auto simp: inj_on_def)

lemma keyed_by: "keyed_comparator (\<lambda>x y. lc (f x) (f y)) (\<lambda>x. key (f x))"
  by unfold_locales (simp_all add: cmp_less cmp_sym)

end

text \<open>The comparator the code writes for strings: \<open>a < b ? -1 : a > b ? 1 : 0\<close>.\<close>

definition cmp_asc :: "'a::linorder \<Rightarrow> 'a \<Rightarrow> int" where
  "cmp_asc a b = (if a < b then -1 else if a > b then 1 else 0)"

interpretation asc: keyed_comparator cmp_asc "\<lambda>x. x"
  by unfold_locales (auto simp: cmp_asc_def)

interpretation code_units: collation cmp_asc "\<lambda>s::string. s"
  by unfold_locales simp

text \<open>\<open>Array.prototype.sort\<close> without a comparator orders strings by code units.\<close>

definition js_sort_str :: "string list \<Rightarrow> string list" where
  "js_sort_str xs = js_sort cmp_asc xs"

lemma js_sort_str_sort [simp]: "js_sort_str xs = sort xs"
  by (simp add: js_sort_str_def asc.js_sort_sort_key)

section \<open>Operations that may throw\<close>

text \<open>Sequencing of operations that may throw.\<close>

definition and_then :: "'e + 'a \<Rightarrow> ('a \<Rightarrow> 'e + 'b) \<Rightarrow> 'e + 'b" where
  "and_then r f = (case r of Inl e \<Rightarrow> Inl e | Inr x \<Rightarrow> f x)"

lemma and_then_simps [simp]: "and_then (Inl e) f = Inl e" "and_then (Inr x) f = f x"
  by (simp_all add: and_then_def)

lemma and_then_Inr: "and_then r f = Inr y \<longleftrightarrow> (\<exists>x. r = Inr x \<and> f x = Inr y)"
  by (cases r) simp_all

lemma and_then_Inl: "and_then r f = Inl e \<longleftrightarrow> r = Inl e \<or> (\<exists>x. r = Inr x \<and> f x = Inl e)"
  by (cases r) simp_all

text \<open>\<open>xs.map(f)\<close> for an \<open>f\<close> that may throw: the first error wins.\<close>

fun map_throw :: "('a \<Rightarrow> 'e + 'b) \<Rightarrow> 'a list \<Rightarrow> 'e + 'b list" where
  "map_throw f [] = Inr []"
| "map_throw f (x # xs) = and_then (f x) (\<lambda>y. and_then (map_throw f xs) (\<lambda>ys. Inr (y # ys)))"

lemma map_throw_Inr: "map_throw f xs = Inr ys \<longleftrightarrow> map f xs = map Inr ys"
proof (induction xs arbitrary: ys)
  case (Cons x xs)
  then show ?case by (cases ys) (auto simp: and_then_Inr)
qed auto

end
