(* ===== verification/Text_Ops.thy ===== *)
theory Text_Ops
  imports Prelude
begin

text \<open>
  String operations: number rendering (\<open>String(n)\<close>, \<open>toString(16)\<close>,
  \<open>padStart\<close>), character classes of the anchored regular expressions, splitting, and the
  word counting and padding of \<open>packages/pattern-engine/src/words.ts\<close>.
\<close>

section \<open>Rendering numbers\<close>

definition digit_char :: "nat \<Rightarrow> char" where
  "digit_char d = (if d < 10 then char_of (48 + d) else char_of (87 + d))"

text \<open>\<open>n.toString(base)\<close> for a non-negative integer, bases 2 to 16.\<close>

function nat_radix :: "nat \<Rightarrow> nat \<Rightarrow> string" where
  "nat_radix base n =
     (if base < 2 \<or> n < base then [digit_char n]
      else nat_radix base (n div base) @ [digit_char (n mod base)])"
  by pat_completeness auto
termination
  by (relation "measure snd") (auto intro: div_less_dividend)

declare nat_radix.simps [simp del]

definition nat_str :: "nat \<Rightarrow> string" where
  "nat_str n = nat_radix 10 n"

definition hex_str :: "nat \<Rightarrow> string" where
  "hex_str n = nat_radix 16 n"

text \<open>The same over \<open>int\<close>, whose arithmetic evaluates on numerals.\<close>

function int_radix :: "int \<Rightarrow> int \<Rightarrow> string" where
  "int_radix base n =
     (if base < 2 \<or> n < base then [digit_char (nat n)]
      else int_radix base (n div base) @ [digit_char (nat (n mod base))])"
  by pat_completeness auto
termination
proof (relation "measure (\<lambda>(base, n). nat n)", goal_cases)
  case (2 base n)
  then have "n div base < n" by (intro int_div_less_self) simp_all
  with 2 show ?case by simp
qed simp

declare int_radix.simps [simp del]

lemma nat_radix_int: "nat_radix base n = int_radix (int base) (int n)"
proof (induction base n rule: nat_radix.induct)
  case (1 base n)
  have digits: "nat (int n mod int base) = n mod base"
    by (simp flip: zmod_int)
  show ?case
  proof (cases "base < 2 \<or> n < base")
    case True
    then show ?thesis by (simp add: nat_radix.simps [of base n] int_radix.simps [of "int base" "int n"])
  next
    case False
    with "1.IH" [OF False] digits show ?thesis
      by (simp add: nat_radix.simps [of base n] int_radix.simps [of "int base" "int n"] zdiv_int)
  qed
qed

text \<open>\<open>s.padStart(n, c)\<close> for a one-character filler.\<close>

definition pad_start :: "nat \<Rightarrow> char \<Rightarrow> string \<Rightarrow> string" where
  "pad_start n c s = replicate (n - length s) c @ s"

lemma length_pad_start: "length (pad_start n c s) = max n (length s)"
  by (simp add: pad_start_def)

text \<open>Reading a digit string back, to show that rendering is injective.\<close>

definition digit_val :: "char \<Rightarrow> nat" where
  "digit_val c = (if of_char c < (58::nat) then of_char c - 48 else of_char c - 87)"

definition read_radix :: "nat \<Rightarrow> string \<Rightarrow> nat" where
  "read_radix base s = foldl (\<lambda>acc c. acc * base + digit_val c) 0 s"

lemma digit_val_char [simp]: "d < 16 \<Longrightarrow> digit_val (digit_char d) = d"
  by (simp add: digit_val_def digit_char_def)

lemma read_nat_radix: "2 \<le> base \<Longrightarrow> base \<le> 16 \<Longrightarrow> read_radix base (nat_radix base n) = n"
proof (induction base n rule: nat_radix.induct)
  case (1 base n)
  show ?case
  proof (cases "n < base")
    case True
    with 1 show ?thesis by (simp add: nat_radix.simps [of base n] read_radix_def)
  next
    case False
    with 1 have "read_radix base (nat_radix base (n div base)) = n div base" by simp
    moreover have "n mod base < 16"
      using 1(2,3) by (meson dual_order.strict_trans1 less_le_trans mod_less_divisor pos2)
    ultimately show ?thesis
      using False 1(2) by (simp add: nat_radix.simps [of base n] read_radix_def)
  qed
qed

lemma read_pad_start: "read_radix base (pad_start n (CHR ''0'') s) = read_radix base s"
proof -
  have "foldl (\<lambda>acc c. acc * base + digit_val c) 0 (replicate k (CHR ''0'')) = 0" for k
    by (induction k) (simp_all add: digit_val_def)
  then show ?thesis by (simp add: pad_start_def read_radix_def)
qed

lemma inj_pad_nat_str: "pad_start n (CHR ''0'') (nat_str i) = pad_start n (CHR ''0'') (nat_str j) \<Longrightarrow> i = j"
  by (drule arg_cong [where f = "read_radix 10"]) (simp add: read_pad_start nat_str_def read_nat_radix)

definition is_digit :: "char \<Rightarrow> bool" where
  "is_digit c = (CHR ''0'' \<le> c \<and> c \<le> CHR ''9'')"

lemma is_digit_char: "d < 10 \<Longrightarrow> is_digit (digit_char d)"
  by (simp add: is_digit_def digit_char_def less_eq_char_def)

lemma nat_str_digits: "list_all is_digit (nat_radix 10 k)"
proof (induction "10 :: nat" k rule: nat_radix.induct)
  case (1 n)
  then show ?case by (simp add: nat_radix.simps [of 10 n] is_digit_char)
qed

lemma read_append: "read_radix b (s @ t) = read_radix b s * b ^ length t + read_radix b t"
proof (induction t rule: rev_induct)
  case (snoc c t)
  then show ?case by (simp add: read_radix_def algebra_simps flip: append_assoc)
qed (simp add: read_radix_def)

lemma read_zeros: "read_radix b (replicate m (CHR ''0'')) = 0"
  by (induction m) (simp_all add: read_radix_def digit_val_def)

section \<open>Character classes\<close>

definition is_lower_hex :: "char \<Rightarrow> bool" where
  "is_lower_hex c = (CHR ''0'' \<le> c \<and> c \<le> CHR ''9'' \<or> CHR ''a'' \<le> c \<and> c \<le> CHR ''f'')"

definition is_alpha :: "char \<Rightarrow> bool" where
  "is_alpha c = (CHR ''A'' \<le> c \<and> c \<le> CHR ''Z'' \<or> CHR ''a'' \<le> c \<and> c \<le> CHR ''z'')"

definition is_alnum :: "char \<Rightarrow> bool" where
  "is_alnum c = (is_alpha c \<or> CHR ''0'' \<le> c \<and> c \<le> CHR ''9'')"

definition starts_with :: "string \<Rightarrow> string \<Rightarrow> bool" where
  "starts_with p s = (take (length p) s = p)"

lemma starts_with_append [simp]: "starts_with p (p @ s)"
  by (simp add: starts_with_def)

text \<open>A match of \<open>^prefix[0-9a-f]{n}$\<close>.\<close>

definition prefixed_hex :: "string \<Rightarrow> nat \<Rightarrow> string \<Rightarrow> bool" where
  "prefixed_hex p n s =
     (starts_with p s \<and> length s = length p + n \<and> list_all is_lower_hex (drop (length p) s))"

text \<open>\<open>s.split(c)\<close> for a one-character separator: never empty.\<close>

fun split_on :: "char \<Rightarrow> string \<Rightarrow> string list" where
  "split_on sep [] = [[]]"
| "split_on sep (c # cs) =
     (if c = sep then [] # split_on sep cs
      else (case split_on sep cs of [] \<Rightarrow> [[c]] | w # ws \<Rightarrow> (c # w) # ws))"

text \<open>\<open>xs.join(sep)\<close>.\<close>

fun join :: "string \<Rightarrow> string list \<Rightarrow> string" where
  "join sep [] = []"
| "join sep [x] = x"
| "join sep (x # xs) = x @ sep @ join sep xs"

text \<open>A case-insensitive search for a lower-case substring (an unanchored literal with flag i).\<close>

definition to_lower :: "char \<Rightarrow> char" where
  "to_lower c = (if CHR ''A'' \<le> c \<and> c \<le> CHR ''Z'' then char_of (of_char c + 32 :: nat) else c)"

fun contains_at :: "string \<Rightarrow> string \<Rightarrow> bool" where
  "contains_at p [] = (p = [])"
| "contains_at p (c # cs) = (starts_with p (c # cs) \<or> contains_at p cs)"

definition contains_ci :: "string \<Rightarrow> string \<Rightarrow> bool" where
  "contains_ci p s = contains_at p (map to_lower s)"

section \<open>Words\<close>

text \<open>The white space of \<open>\s\<close> and \<open>trim\<close> among the code units below 256.\<close>

definition is_ws :: "char \<Rightarrow> bool" where
  "is_ws c = ((of_char c :: nat) \<in> {9, 10, 11, 12, 13, 32, 160})"

definition js_trim :: "string \<Rightarrow> string" where
  "js_trim s = rev (dropWhile is_ws (rev (dropWhile is_ws s)))"

text \<open>\<open>s.split(/\s+/)\<close>: a run of white space separates two fields, either of which may be empty.\<close>

function split_ws :: "string \<Rightarrow> string list" where
  "split_ws [] = [[]]"
| "split_ws (c # cs) =
     (if is_ws c then [] # split_ws (dropWhile is_ws cs)
      else (case split_ws cs of [] \<Rightarrow> [[c]] | w # ws \<Rightarrow> (c # w) # ws))"
  by pat_completeness auto
termination
  by (relation "measure length") (auto simp: length_dropWhile_le le_imp_less_Suc)

definition word_count :: "string \<Rightarrow> nat" where
  "word_count text = (let trimmed = js_trim text in if trimmed = [] then 0 else length (split_ws trimmed))"

text \<open>
  The reference: one pass over the text that counts the positions where a word begins.
  The flag says whether the previous character belongs to a word.
\<close>

fun word_starts :: "bool \<Rightarrow> string \<Rightarrow> nat" where
  "word_starts inw [] = 0"
| "word_starts inw (c # cs) =
     (if is_ws c then word_starts False cs
      else (if inw then 0 else 1) + word_starts True cs)"

lemma split_ws_not_Nil [simp]: "split_ws s \<noteq> []"
  by (cases s) (auto split: list.splits)

lemma word_starts_dropWhile: "word_starts False (dropWhile is_ws s) = word_starts False s"
  by (induction s) auto

lemma word_starts_trailing: "list_all is_ws ys \<Longrightarrow> word_starts b (xs @ ys) = word_starts b xs"
proof -
  assume ws: "list_all is_ws ys"
  have "word_starts b ys = 0" for b using ws by (induction ys arbitrary: b) auto
  then show ?thesis by (induction xs arbitrary: b) auto
qed

lemma word_starts_sep:
  "is_ws sp \<Longrightarrow> word_starts b (xs @ sp # ys) = word_starts b xs + word_starts False ys"
  by (induction xs arbitrary: b) auto

lemma word_starts_trim: "word_starts False (js_trim s) = word_starts False s"
proof -
  let ?d = "dropWhile is_ws s"
  have "?d = js_trim s @ rev (takeWhile is_ws (rev ?d))"
    unfolding js_trim_def by (metis rev_append rev_rev_ident takeWhile_dropWhile_id)
  moreover have "list_all is_ws (rev (takeWhile is_ws (rev ?d)))"
    by (simp add: list_all_iff) (metis set_takeWhileD)
  ultimately have "word_starts False ?d = word_starts False (js_trim s)"
    by (metis word_starts_trailing)
  then show ?thesis by (simp add: word_starts_dropWhile)
qed

lemma last_dropWhile_ws: "cs \<noteq> [] \<Longrightarrow> \<not> is_ws (last cs) \<Longrightarrow>
    dropWhile is_ws cs \<noteq> [] \<and> last (dropWhile is_ws cs) = last cs"
  by (induction cs) auto

lemma length_split_ws:
  "s = [] \<or> \<not> is_ws (last s) \<Longrightarrow> length (split_ws s) = Suc (word_starts True s)"
proof (induction s rule: split_ws.induct)
  case (2 c cs)
  show ?case
  proof (cases "is_ws c")
    case True
    with "2.prems" have "cs \<noteq> []" "\<not> is_ws (last cs)" by (auto split: if_splits)
    then have d: "dropWhile is_ws cs \<noteq> []" "\<not> is_ws (last (dropWhile is_ws cs))"
      using last_dropWhile_ws by metis+
    then obtain x xs where x: "dropWhile is_ws cs = x # xs" "\<not> is_ws x"
      by (metis hd_dropWhile list.sel(1) neq_Nil_conv)
    have "length (split_ws (x # xs)) = Suc (word_starts True (x # xs))"
      using "2.IH"(1) [OF True] d x by simp
    moreover have "word_starts False cs = word_starts False (x # xs)"
      by (metis word_starts_dropWhile x(1))
    ultimately show ?thesis using True x by simp
  next
    case False
    with 2 have "length (split_ws cs) = Suc (word_starts True cs)" by (auto split: if_splits)
    with False show ?thesis by (auto split: list.splits)
  qed
qed simp

lemma hd_js_trim: "js_trim s \<noteq> [] \<Longrightarrow> \<not> is_ws (hd (js_trim s))"
proof -
  let ?d = "dropWhile is_ws s"
  assume ne: "js_trim s \<noteq> []"
  have "?d = js_trim s @ rev (takeWhile is_ws (rev ?d))"
    unfolding js_trim_def by (metis rev_append rev_rev_ident takeWhile_dropWhile_id)
  with ne have "hd (js_trim s) = hd ?d" "?d \<noteq> []" by (metis hd_append2, metis append_is_Nil_conv)
  then show ?thesis by (metis hd_dropWhile)
qed

lemma last_js_trim: "js_trim s \<noteq> [] \<Longrightarrow> \<not> is_ws (last (js_trim s))"
  unfolding js_trim_def by (simp add: last_rev hd_dropWhile)

lemma word_count_starts: "word_count s = word_starts False s"
proof (cases "js_trim s = []")
  case True
  then show ?thesis using word_starts_trim [of s] by (simp add: word_count_def)
next
  case False
  then obtain c cs where c: "js_trim s = c # cs" "\<not> is_ws c"
    using hd_js_trim [of s] by (cases "js_trim s") auto
  then show ?thesis
    using length_split_ws [of "js_trim s"] last_js_trim [OF False] word_starts_trim [of s]
    by (simp add: word_count_def)
qed

lemma word_count_space: "word_count (a @ CHR '' '' # b) = word_count a + word_count b"
  by (simp add: word_count_starts word_starts_sep is_ws_def)

lemma word_count_js_trim [simp]: "word_count (js_trim s) = word_count s"
  by (simp add: word_count_starts word_starts_trim)

section \<open>Padding to a minimum\<close>

text \<open>
  The loop of \<open>padToMinWords\<close>. It does not return for a filler without words, so the model
  is an option: \<open>None\<close> is the loop that never ends.
\<close>

partial_function (option) pad_loop :: "string \<Rightarrow> nat \<Rightarrow> string \<Rightarrow> string option" where
  "pad_loop out least piece =
     (if word_count out < least then pad_loop (out @ CHR '' '' # piece) least piece else Some out)"

definition pad_to_min_words :: "string \<Rightarrow> nat \<Rightarrow> string \<Rightarrow> string option" where
  "pad_to_min_words text least filler = pad_loop (js_trim text) least (js_trim filler)"

lemma pad_loop_returns:
  assumes "0 < word_count piece"
  shows "\<exists>r. pad_loop out least piece = Some r \<and> least \<le> word_count r \<and>
    word_count r < max (Suc (word_count out)) (least + word_count piece) \<and> word_count out \<le> word_count r"
  using assms
proof (induction "least - word_count out" arbitrary: out rule: less_induct)
  case less
  show ?case
  proof (cases "word_count out < least")
    case False
    then show ?thesis by (simp add: pad_loop.simps [of out])
  next
    case True
    let ?next = "out @ CHR '' '' # piece"
    have "least - word_count ?next < least - word_count out"
      using True less.prems by (simp add: word_count_space)
    from less.hyps [OF this less.prems] True show ?thesis
      by (auto simp: pad_loop.simps [of out] word_count_space)
  qed
qed

lemma pad_loop_wordless:
  assumes "pad_loop out least piece = Some r"
  shows "word_count piece = 0 \<longrightarrow> least \<le> word_count r \<and> word_count r = word_count out"
  by (rule pad_loop.raw_induct [OF _ assms])
    (fastforce split: if_splits simp: word_count_space)

text \<open>
  C34: padding returns unless the text is short and the filler has no words (then the loop never
  ends); what it returns has at least the wanted words, never loses any, and overshoots by less
  than one filler.
\<close>
theorem padding_returns_within_bounds:
  "case pad_to_min_words body least filler of
     None \<Rightarrow> word_count body < least \<and> word_count filler = 0
   | Some r \<Rightarrow> least \<le> word_count r \<and> word_count body \<le> word_count r \<and>
       word_count r < max (Suc (word_count body)) (least + word_count filler)"
proof (cases "word_count filler = 0")
  case False
  then show ?thesis
    using pad_loop_returns [of "js_trim filler" "js_trim body" least]
    by (auto simp: pad_to_min_words_def)
next
  case True
  show ?thesis
  proof (cases "pad_to_min_words body least filler")
    case None
    with True show ?thesis
      by (auto simp: pad_to_min_words_def pad_loop.simps [of "js_trim body"] split: if_splits)
  next
    case (Some r)
    with True pad_loop_wordless [of "js_trim body" least "js_trim filler" r] show ?thesis
      by (simp add: pad_to_min_words_def)
  qed
qed

text \<open>
  \<open>wordCount\<close>, which trims and splits on white space, counts the places where a word starts.
\<close>
theorem word_count_counts_words: "word_count s = word_starts False s"
  by (rule word_count_starts)

end
