(* ===== verification/Pattern_Types.thy ===== *)
theory Pattern_Types
  imports Text_Ops
begin

text \<open>
  The wire types of \<open>packages/shared/src/m4-types.ts\<close> and \<open>m7-types.ts\<close> that the
  Pattern engine reads and writes, the body order of \<open>packages/shared/src/index.ts\<close>, and
  the policy constants of \<open>packages/pattern-engine/src/policy.ts\<close>.

  A TypeScript interface is a record whose fields carry a prefix for the interface, a string-literal
  union the code branches on is a datatype, and one the code only compares is a string, as it is
  at run time. An optional or nullable property is an option.
\<close>

section \<open>JSON values and failures\<close>

datatype json =
    JNull
  | JBool bool
  | JNum js_num
  | JStr string
  | JArr "json list"
  | JObj "(string \<times> json) list"

text \<open>Property access on a parsed object: \<open>None\<close> is \<open>undefined\<close>, a repeated key keeps its last value.\<close>

fun jfield :: "json \<Rightarrow> string \<Rightarrow> json option" where
  "jfield (JObj fields) k = js_map_get fields k"
| "jfield _ k = None"

datatype failure = Failure (fl_code: string) (fl_message: string)

text \<open>\<open>if (c) failures.push({code, message})\<close>.\<close>

definition fail_if :: "bool \<Rightarrow> string \<Rightarrow> string \<Rightarrow> failure list" where
  "fail_if c code message = (if c then [Failure code message] else [])"

lemma fail_if_Nil [simp]: "fail_if c code message = [] \<longleftrightarrow> \<not> c"
  by (simp add: fail_if_def)

text \<open>The \<open>{ ok, failures }\<close> result of every validator: \<open>ok\<close> is \<open>failures.length === 0\<close>.\<close>

record validation_result =
  vr_ok :: bool
  vr_failures :: "failure list"

definition validation_result :: "failure list \<Rightarrow> validation_result" where
  "validation_result fs = \<lparr>vr_ok = (fs = []), vr_failures = fs\<rparr>"

lemma validation_result_sel [simp]:
  "vr_ok (validation_result fs) = (fs = [])"
  "vr_failures (validation_result fs) = fs"
  by (simp_all add: validation_result_def)

section \<open>Natal features\<close>

datatype birth_time_accuracy = Unknown | Approximate | Exact

fun accuracy_str :: "birth_time_accuracy \<Rightarrow> string" where
  "accuracy_str Unknown = ''unknown''"
| "accuracy_str Approximate = ''approximate''"
| "accuracy_str Exact = ''exact''"

datatype feature_class =
  FC_Position | FC_Aspect | FC_Pattern | FC_Angle | FC_HouseCusp | FC_Uncertainty

fun feature_class_str :: "feature_class \<Rightarrow> string" where
  "feature_class_str FC_Position = ''position''"
| "feature_class_str FC_Aspect = ''aspect''"
| "feature_class_str FC_Pattern = ''pattern''"
| "feature_class_str FC_Angle = ''angle''"
| "feature_class_str FC_HouseCusp = ''house_cusp''"
| "feature_class_str FC_Uncertainty = ''uncertainty''"

text \<open>The discriminated union \<open>NatalFeature\<close>: one constructor per \<open>feature_class\<close>.\<close>

datatype natal_data =
    PositionFeature (nd_body: string) (nd_longitude: js_num) (nd_sign: nat) (nd_house: "nat option")
  | AspectFeature (nd_body_a: string) (nd_body_b: string) (nd_aspect: string) (nd_orb: js_num)
  | PatternFeature (nd_pattern: string) (nd_members: "string list")
  | AngleFeature (nd_angle: string) (nd_longitude: js_num) (nd_sign: nat)
  | HouseCuspFeature (nd_cusp: nat) (nd_longitude: js_num) (nd_sign: nat)
  | UncertaintyFeature (nd_accuracy: birth_time_accuracy) (nd_suppressed: "string list")

record natal_feature =
  nf_id :: string
  nf_data :: natal_data

fun feature_class_of :: "natal_data \<Rightarrow> feature_class" where
  "feature_class_of (PositionFeature _ _ _ _) = FC_Position"
| "feature_class_of (AspectFeature _ _ _ _) = FC_Aspect"
| "feature_class_of (PatternFeature _ _) = FC_Pattern"
| "feature_class_of (AngleFeature _ _ _) = FC_Angle"
| "feature_class_of (HouseCuspFeature _ _ _) = FC_HouseCusp"
| "feature_class_of (UncertaintyFeature _ _) = FC_Uncertainty"

definition nf_class :: "natal_feature \<Rightarrow> feature_class" where
  "nf_class f = feature_class_of (nf_data f)"

section \<open>The body order\<close>

definition launch_bodies :: "string list" where
  "launch_bodies = [''sun'', ''moon'', ''mercury'', ''venus'', ''mars'', ''jupiter'', ''saturn'',
    ''uranus'', ''neptune'', ''pluto'', ''true_node'', ''ascendant'', ''midheaven'']"

text \<open>\<open>indexOf\<close>: the position of the first occurrence.\<close>

fun index_of :: "'a list \<Rightarrow> 'a \<Rightarrow> nat option" where
  "index_of [] x = None"
| "index_of (y # ys) x = (if y = x then Some 0 else map_option Suc (index_of ys x))"

definition max_safe_integer :: nat where
  "max_safe_integer = 9007199254740991"

definition body_rank :: "string \<Rightarrow> nat" where
  "body_rank b = orelse (index_of launch_bodies b) max_safe_integer"

definition canonical_aspect_pair :: "string \<Rightarrow> string \<Rightarrow> string \<times> string" where
  "canonical_aspect_pair a b = (if body_rank a \<le> body_rank b then (a, b) else (b, a))"

definition is_canonical_aspect_pair :: "string \<Rightarrow> string \<Rightarrow> bool" where
  "is_canonical_aspect_pair a b = (body_rank a < body_rank b)"

lemma index_of_Some: "index_of xs x = Some i \<Longrightarrow> i < length xs \<and> xs ! i = x"
  by (induction xs arbitrary: i) (auto split: if_splits)

lemma body_rank_inj:
  assumes "body_rank a = body_rank b" "a \<in> set launch_bodies" "b \<in> set launch_bodies"
  shows "a = b"
proof -
  have known: "\<exists>i. index_of xs x = Some i" if "x \<in> set xs" for x :: string and xs
    using that by (induction xs) auto
  obtain i j where "index_of launch_bodies a = Some i" "index_of launch_bodies b = Some j"
    using known assms(2,3) by metis
  with assms(1) show ?thesis
    by (metis body_rank_def index_of_Some orelse_simps(2))
qed

section \<open>Ontology records\<close>

datatype meaning_class = SourceSupported | DerivedSynthesis | ExpressionGuidance

datatype salience_band = SalienceLow | SalienceMedium | SalienceHigh

record feature_predicate =
  pr_type :: feature_class
  pr_body :: "string option"
  pr_body_a :: "string option"
  pr_body_b :: "string option"
  pr_aspect :: "string option"
  pr_pattern :: "string option"
  pr_angle :: "string option"
  pr_house :: "nat option"
  pr_accuracy :: "string option"

record ontology_record =
  or_id :: string
  or_meaning_class :: meaning_class
  or_locale :: string
  or_predicate :: feature_predicate
  or_proposition :: string
  or_source_fragment_ids :: "string list"
  or_input_meaning_ids :: "string list"
  or_transformation_class :: "string option"
  or_tensions :: "string list"
  or_counter_expressions :: "string list"
  or_prohibited_claims :: "string list"
  or_salience_band :: salience_band
  or_presentation_priority :: js_num
  or_cluster_tags :: "string list"

record ontology_evaluation =
  ev_verdict :: string
  ev_unevaluated_fixture_count :: js_num

record ontology_release =
  rl_schema_version :: string
  rl_ontology_version :: string
  rl_locale :: string
  rl_status :: string
  rl_records :: "ontology_record list"
  rl_evaluation :: ontology_evaluation

section \<open>The fact packet and the selection manifest\<close>

datatype packet_coverage = MandatoryCore | MandatoryAny | Eligible

datatype coverage_class = CoveredAs packet_coverage | OntologyUnsupported | CapacityOmitted

record packet_feature =
  pf_alias :: string
  pf_class :: feature_class
  pf_fact :: "(string \<times> json) list"
  pf_coverage :: packet_coverage
  pf_rule_ids :: "string list"
  pf_cluster_ids :: "string list"

record packet_cluster =
  pc_id :: string
  pc_aliases :: "string list"
  pc_compatible_with :: "string list"

record selection_constraints =
  sc_chapters_min :: nat
  sc_chapters_max :: nat
  sc_signatures_max :: nat
  sc_sparse :: bool

record fact_packet =
  fp_schema_version :: string
  fp_locale :: string
  fp_effective_accuracy :: birth_time_accuracy
  fp_suppressed_classes :: "string list"
  fp_required_language_rule_ids :: "string list"
  fp_features :: "packet_feature list"
  fp_clusters :: "packet_cluster list option"
  fp_constraints :: selection_constraints

record feature_accounting =
  fa_feature_id :: string
  fa_alias :: "string option"
  fa_coverage :: coverage_class
  fa_reason :: "string option"

record selection_manifest =
  sm_schema_version :: string
  sm_policy_id :: string
  sm_policy_version :: string
  sm_feature_set_hash :: string
  sm_sparse_pattern :: bool
  sm_accounting :: "feature_accounting list"

section \<open>Planner and writer output\<close>

record planner_chapter =
  ch_key :: string
  ch_title :: string
  ch_purpose :: string
  ch_aliases :: "string list"
  ch_rule_ids :: "string list"
  ch_derived_ids :: "string list"
  ch_tension_ids :: "string list"
  ch_resource_ids :: "string list"
  ch_counter_ids :: "string list"

record planner_signature =
  sg_key :: string
  sg_title :: string
  sg_aliases :: "string list"
  sg_rule_ids :: "string list"

record planner_omission =
  om_alias :: string
  om_reason :: string
  om_covered_by :: "string option"

text \<open>
  A frozen plan is a planner output with its hash and the engine's sparse flag: the record
  extension of \<open>PatternPlan extends PatternPlannerOutput\<close>.
\<close>

record planner_output =
  po_schema_version :: string
  po_chapters :: "planner_chapter list"
  po_signatures :: "planner_signature list"
  po_omissions :: "planner_omission list"

record pattern_plan = planner_output +
  pl_plan_hash :: string
  pl_sparse_pattern :: bool

record prose_unit =
  pu_text :: string
  pu_claim_class :: string
  pu_aliases :: "string list"
  pu_rule_ids :: "string list"
  pu_derived_ids :: "string list"

record writer_section =
  ws_key :: string
  ws_text :: string
  ws_claim_class :: string
  ws_aliases :: "string list"
  ws_rule_ids :: "string list"
  ws_derived_ids :: "string list"

record writer_chapter =
  wc_key :: string
  wc_title :: string
  wc_summary :: string
  wc_sections :: "writer_section list"
  wc_tensions :: "prose_unit list"
  wc_resources :: "prose_unit list"
  wc_counter :: prose_unit

record writer_signature =
  wg_key :: string
  wg_title :: string
  wg_text :: string
  wg_aliases :: "string list"
  wg_rule_ids :: "string list"

record writer_output =
  wo_schema_version :: string
  wo_title :: string
  wo_chapters :: "writer_chapter list"
  wo_signatures :: "writer_signature list"
  wo_uncertainty_note :: "prose_unit option"

section \<open>Policy constants\<close>

definition m7_schema_version :: string where "m7_schema_version = ''0.7.0''"
definition max_eligible_aliases :: nat where "max_eligible_aliases = 40"
definition max_mandatory_aliases :: nat where "max_mandatory_aliases = 12"
definition max_cluster_size :: nat where "max_cluster_size = 8"
definition core_chapters_min :: nat where "core_chapters_min = 4"
definition core_chapters_max :: nat where "core_chapters_max = 6"
definition sparse_chapters :: nat where "sparse_chapters = 3"
definition additional_signatures_max :: nat where "additional_signatures_max = 8"
definition chapter_word_min :: nat where "chapter_word_min = 250"
definition chapter_word_max :: nat where "chapter_word_max = 550"
definition sparse_chapter_word_min :: nat where "sparse_chapter_word_min = 150"
definition signature_word_min :: nat where "signature_word_min = 70"
definition signature_word_max :: nat where "signature_word_max = 160"
definition uncertainty_word_min :: nat where "uncertainty_word_min = 40"
definition uncertainty_word_max :: nat where "uncertainty_word_max = 140"
definition total_word_min :: nat where "total_word_min = 1500"
definition sparse_total_word_min :: nat where "sparse_total_word_min = 800"
definition total_word_max :: nat where "total_word_max = 4500"
definition paragraph_word_max :: nat where "paragraph_word_max = 180"
definition title_char_max :: nat where "title_char_max = 90"
definition list_item_max :: nat where "list_item_max = 5"
definition sections_min :: nat where "sections_min = 2"
definition sections_max :: nat where "sections_max = 6"

lemmas policy_defs =
  m7_schema_version_def max_eligible_aliases_def max_mandatory_aliases_def max_cluster_size_def
  core_chapters_min_def core_chapters_max_def sparse_chapters_def additional_signatures_max_def
  chapter_word_min_def chapter_word_max_def sparse_chapter_word_min_def signature_word_min_def
  signature_word_max_def uncertainty_word_min_def uncertainty_word_max_def total_word_min_def
  sparse_total_word_min_def total_word_max_def paragraph_word_max_def title_char_max_def
  list_item_max_def sections_min_def sections_max_def

end
