(* ===== verification/Ontology.thy ===== *)
theory Ontology
  imports Pattern_Types
begin

text \<open>
  \<open>packages/pattern-engine/src/ontology.ts\<close>: matching an ontology record against a natal
  feature, the structural gate over an arbitrary JSON body, the depth-first cycle check, and the
  compilation of a release or of an offline candidate.

  Facts: matching does not depend on the order an author names an aspect's bodies in; the cycle
  check accepts exactly the acyclic derivation graphs; a release compiles exactly when it is
  well formed, so every rule's inputs exist and terminate in source-supported meanings.
\<close>

section \<open>Matching\<close>

fun predicate_bodies :: "ontology_record \<Rightarrow> string list" where
  "predicate_bodies r =
     (let pred = or_predicate r in
      concat (map (\<lambda>b. if truthy b then [the b] else [])
        [pr_body pred, pr_body_a pred, pr_body_b pred, pr_angle pred]))"

definition ontology_record_matches_feature :: "ontology_record \<Rightarrow> natal_feature \<Rightarrow> bool" where
  "ontology_record_matches_feature r f =
     (let pred = or_predicate r in
      if pr_type pred \<noteq> nf_class f then False
      else (case nf_data f of
        PositionFeature body _ _ _ \<Rightarrow> \<not> truthy (pr_body pred) \<or> Some body = pr_body pred
      | AspectFeature a b aspect _ \<Rightarrow>
          if truthy (pr_aspect pred) \<and> Some aspect \<noteq> pr_aspect pred then False
          else if truthy (pr_body_a pred) \<and> truthy (pr_body_b pred) then
            (case canonical_aspect_pair (the (pr_body_a pred)) (the (pr_body_b pred)) of
               (ca, cb) \<Rightarrow> a = ca \<and> b = cb)
          else if truthy (pr_body_a pred) \<and> Some a \<noteq> pr_body_a pred \<and> Some b \<noteq> pr_body_a pred
            then False
          else if truthy (pr_body_b pred) \<and> Some a \<noteq> pr_body_b pred \<and> Some b \<noteq> pr_body_b pred
            then False
          else True
      | PatternFeature pattern _ \<Rightarrow> \<not> truthy (pr_pattern pred) \<or> Some pattern = pr_pattern pred
      | AngleFeature angle _ _ \<Rightarrow> \<not> truthy (pr_angle pred) \<or> Some angle = pr_angle pred
      | HouseCuspFeature house _ _ \<Rightarrow> pr_house pred = None \<or> Some house = pr_house pred
      | UncertaintyFeature accuracy _ \<Rightarrow>
          \<not> truthy (pr_accuracy pred) \<or> Some (accuracy_str accuracy) = pr_accuracy pred))"

text \<open>The same predicate with its two bodies named in the other order.\<close>

definition swap_predicate_bodies :: "ontology_record \<Rightarrow> ontology_record" where
  "swap_predicate_bodies r =
     r\<lparr>or_predicate := (or_predicate r)
        \<lparr>pr_body_a := pr_body_b (or_predicate r), pr_body_b := pr_body_a (or_predicate r)\<rparr>\<rparr>"

lemma canonical_pair_comm:
  "a \<in> set launch_bodies \<Longrightarrow> b \<in> set launch_bodies \<Longrightarrow>
   canonical_aspect_pair a b = canonical_aspect_pair b a"
  using body_rank_inj [of a b] by (auto simp: canonical_aspect_pair_def)

section \<open>The cycle check\<close>

text \<open>
  \<open>acyclic\<close>: \<open>dfs\<close> is the loop over a list of ids that \<open>visit\<close> runs for the inputs of
  one record, and the outer loop runs for all records. \<open>visiting\<close> is the current path (the
  code adds an id on entry and removes it on exit, so it is the same before and after a call that
  succeeds), \<open>visited\<close> the ids already finished, which the calls thread through.
  \<open>None\<close> is the answer \<open>false\<close>, which every caller passes on at once.
\<close>

function dfs :: "ontology_record list \<Rightarrow> string set \<Rightarrow> string set \<Rightarrow> string list \<Rightarrow> string set option" where
  "dfs records visiting visited [] = Some visited"
| "dfs records visiting visited (i # is) =
     (if i \<in> visited then dfs records visiting visited is
      else if i \<in> visiting then None
      else (case index_by or_id records i of
          None \<Rightarrow> dfs records visiting (insert i visited) is
        | Some r \<Rightarrow>
            (case dfs records (insert i visiting) visited (or_input_meaning_ids r) of
               None \<Rightarrow> None
             | Some visited' \<Rightarrow> dfs records visiting (insert i visited') is)))"
  by pat_completeness auto
termination
proof (relation "measures [\<lambda>(records, visiting, _, _). card (or_id ` set records - visiting),
                            \<lambda>(_, _, _, is). length is]", goal_cases)
  case (4 records visiting visited i "is" r)
  then have "i \<in> or_id ` set records - visiting"
    by (auto dest!: index_by_Some)
  then have "or_id ` set records - insert i visiting \<subset> or_id ` set records - visiting"
    by blast
  then show ?case
    by (simp add: psubset_card_mono)
qed auto

fun acyclic_from :: "ontology_record list \<Rightarrow> string set \<Rightarrow> ontology_record list \<Rightarrow> failure option" where
  "acyclic_from records visited [] = None"
| "acyclic_from records visited (r # rs) =
     (case dfs records {} visited [or_id r] of
        None \<Rightarrow> Some (Failure ''ontology_cycle''
                        (''derived_synthesis graph cycles at '' @ or_id r))
      | Some visited' \<Rightarrow> acyclic_from records visited' rs)"

definition acyclic_failure :: "ontology_record list \<Rightarrow> failure option" where
  "acyclic_failure records = acyclic_from records {} records"

text \<open>The derivation graph: an edge from a record's id to each of its input meanings.\<close>

definition derivation_graph :: "ontology_record list \<Rightarrow> (string \<times> string) set" where
  "derivation_graph records =
     {(i, p). \<exists>r. index_by or_id records i = Some r \<and> p \<in> set (or_input_meaning_ids r)}"

declare dfs.simps(2) [simp del]

text \<open>The three ways a call over a non-empty list succeeds.\<close>

lemma dfs_Cons_cases:
  assumes "dfs records visiting visited (i # is) = Some visited'"
  obtains (seen) "i \<in> visited" "dfs records visiting visited is = Some visited'"
  | (leaf) "i \<notin> visited" "i \<notin> visiting" "index_by or_id records i = None"
      "dfs records visiting (insert i visited) is = Some visited'"
  | (node) r v where "i \<notin> visited" "i \<notin> visiting" "index_by or_id records i = Some r"
      "dfs records (insert i visiting) visited (or_input_meaning_ids r) = Some v"
      "dfs records visiting (insert i v) is = Some visited'"
  using assms unfolding dfs.simps(2) by (simp split: if_splits option.splits)

lemma dfs_visited:
  "dfs records visiting visited is = Some visited' \<Longrightarrow> visited \<subseteq> visited' \<and> set is \<subseteq> visited'"
proof (induction records visiting visited "is" arbitrary: visited' rule: dfs.induct)
  case (2 records visiting visited i "is")
  from "2.prems" show ?case
  proof (cases rule: dfs_Cons_cases)
    case seen
    with "2.IH"(1) show ?thesis by auto
  next
    case leaf
    with "2.IH"(2) show ?thesis by auto
  next
    case (node r v)
    have "visited \<subseteq> v" using "2.IH"(3) [OF node(1-4)] by simp
    moreover have "insert i v \<subseteq> visited' \<and> set is \<subseteq> visited'"
      using "2.IH"(4) [OF node(1-5)] by simp
    ultimately show ?thesis by auto
  qed
qed simp

text \<open>Finished ids are grounded: no infinite path of derivations starts at one.\<close>

abbreviation grounded :: "ontology_record list \<Rightarrow> string set" where
  "grounded records \<equiv> Wellfounded.acc ((derivation_graph records)\<inverse>)"

lemma dfs_grounded:
  "dfs records visiting visited is = Some visited' \<Longrightarrow> visited \<subseteq> grounded records \<Longrightarrow>
   visited' \<subseteq> grounded records"
proof (induction records visiting visited "is" arbitrary: visited' rule: dfs.induct)
  case (2 records visiting visited i "is")
  from "2.prems"(1) show ?case
  proof (cases rule: dfs_Cons_cases)
    case seen
    with "2.IH"(1) "2.prems"(2) show ?thesis by simp
  next
    case leaf
    have "i \<in> grounded records"
      by (rule accI) (simp add: derivation_graph_def leaf(3))
    with "2.IH"(2) [OF leaf] "2.prems"(2) show ?thesis by simp
  next
    case (node r v)
    have v: "v \<subseteq> grounded records" using "2.IH"(3) [OF node(1-4) "2.prems"(2)] .
    have "set (or_input_meaning_ids r) \<subseteq> v"
      using dfs_visited [OF node(4)] by simp
    then have inputs: "set (or_input_meaning_ids r) \<subseteq> grounded records"
      using v by blast
    have "i \<in> grounded records"
      by (rule accI) (use inputs in \<open>auto simp: derivation_graph_def node(3)\<close>)
    with v "2.IH"(4) [OF node(1-5)] show ?thesis by simp
  qed
qed simp

lemma dfs_None_cycle:
  assumes "dfs records visiting visited is = None"
    and "\<And>v i. v \<in> visiting \<Longrightarrow> i \<in> set is \<Longrightarrow> (v, i) \<in> (derivation_graph records)\<^sup>+"
  shows "\<not> acyclic (derivation_graph records)"
  using assms
proof (induction records visiting visited "is" rule: dfs.induct)
  case (2 records visiting visited i "is")
  let ?g = "derivation_graph records"
  show ?case
  proof (cases "i \<in> visited \<or> i \<in> visiting")
    case True
    show ?thesis
    proof (cases "i \<in> visited")
      case True
      with "2.prems" "2.IH"(1) show ?thesis by (simp add: dfs.simps(2))
    next
      case False
      with True "2.prems"(2) [of i i] show ?thesis by (auto simp: acyclic_def)
    qed
  next
    case False
    show ?thesis
    proof (cases "index_by or_id records i")
      case None
      with "2.prems" "2.IH"(2) False show ?thesis by (simp add: dfs.simps(2))
    next
      case (Some r)
      have edge: "(i, p) \<in> ?g" if "p \<in> set (or_input_meaning_ids r)" for p
        using Some that by (auto simp: derivation_graph_def)
      have path: "(v, p) \<in> ?g\<^sup>+" if "v \<in> insert i visiting" "p \<in> set (or_input_meaning_ids r)" for v p
        using that edge "2.prems"(2) [of v i] by (auto intro: trancl_into_trancl)
      show ?thesis
      proof (cases "dfs records (insert i visiting) visited (or_input_meaning_ids r)")
        case None
        then show ?thesis using "2.IH"(3) [OF _ _ Some] False path by blast
      next
        case (Some v)
        with \<open>index_by or_id records i = Some r\<close> False "2.prems"(1)
        have "dfs records visiting (insert i v) is = None" by (simp add: dfs.simps(2))
        moreover have "(w, j) \<in> ?g\<^sup>+" if "w \<in> visiting" "j \<in> set is" for w j
          using "2.prems"(2) that by simp
        ultimately show ?thesis
          using "2.IH"(4) [OF _ _ \<open>index_by or_id records i = Some r\<close> Some] False by blast
      qed
    qed
  qed
qed simp

lemma acyclic_from_None:
  "acyclic_from records visited rs = None \<Longrightarrow> visited \<subseteq> grounded records \<Longrightarrow>
   or_id ` set rs \<subseteq> grounded records"
proof (induction rs arbitrary: visited)
  case (Cons r rs)
  then obtain v where v: "dfs records {} visited [or_id r] = Some v" "acyclic_from records v rs = None"
    by (simp del: dfs.simps split: option.splits)
  have "v \<subseteq> grounded records" using dfs_grounded [OF v(1) Cons.prems(2)] .
  moreover have "or_id r \<in> v" using dfs_visited [OF v(1)] by simp
  ultimately show ?case using Cons.IH [OF v(2)] by auto
qed simp

lemma acyclic_from_Some:
  "acyclic_from records visited rs = Some f \<Longrightarrow> \<not> acyclic (derivation_graph records)"
proof (induction rs arbitrary: visited)
  case (Cons r rs)
  show ?case
  proof (cases "dfs records {} visited [or_id r]")
    case None
    then show ?thesis by (rule dfs_None_cycle) simp
  next
    case (Some v)
    with Cons show ?thesis by (simp del: dfs.simps)
  qed
qed simp

lemma grounded_no_cycle:
  "x \<in> grounded records \<Longrightarrow> (x, x) \<notin> (derivation_graph records)\<^sup>+"
proof (erule acc_induct)
  fix x
  assume "x \<in> grounded records"
    and IH: "\<forall>y. (y, x) \<in> (derivation_graph records)\<inverse> \<longrightarrow> (y, y) \<notin> (derivation_graph records)\<^sup>+"
  show "(x, x) \<notin> (derivation_graph records)\<^sup>+"
  proof
    assume cyc: "(x, x) \<in> (derivation_graph records)\<^sup>+"
    then obtain y where y: "(x, y) \<in> derivation_graph records" "(y, x) \<in> (derivation_graph records)\<^sup>*"
      by (meson tranclD)
    then have "(y, y) \<in> (derivation_graph records)\<^sup>+" by (meson rtrancl_into_trancl1)
    with IH y(1) show False by blast
  qed
qed

lemma grounded_acyclic:
  assumes "or_id ` set records \<subseteq> grounded records"
  shows "acyclic (derivation_graph records)"
proof (rule acyclicI, rule allI, rule notI)
  fix x assume cyc: "(x, x) \<in> (derivation_graph records)\<^sup>+"
  then obtain y where "(x, y) \<in> derivation_graph records" by (meson tranclD)
  then have "x \<in> or_id ` set records"
    by (auto simp: derivation_graph_def dest!: index_by_Some)
  with assms cyc grounded_no_cycle show False by blast
qed

lemma acyclic_failure_iff: "acyclic_failure records = None \<longleftrightarrow> acyclic (derivation_graph records)"
proof
  assume "acyclic_failure records = None"
  then show "acyclic (derivation_graph records)"
    unfolding acyclic_failure_def using acyclic_from_None by (intro grounded_acyclic) blast
next
  assume "acyclic (derivation_graph records)"
  then show "acyclic_failure records = None"
    unfolding acyclic_failure_def using acyclic_from_Some by fastforce
qed

section \<open>The structural gate\<close>

definition ontology_rule_id :: "string \<Rightarrow> bool" where
  "ontology_rule_id s = prefixed_hex ''ont_'' 32 s"

definition source_fragment_id :: "string \<Rightarrow> bool" where
  "source_fragment_id s = prefixed_hex ''srcf_'' 32 s"

definition content_hash :: "string \<Rightarrow> bool" where
  "content_hash s = prefixed_hex ''sha256:'' 64 s"

text \<open>\<open>^[A-Za-z]{2,3}(-[A-Za-z0-9]+)*$\<close>.\<close>

definition locale_tag :: "string \<Rightarrow> bool" where
  "locale_tag s =
     (case split_on (CHR ''-'') s of
        [] \<Rightarrow> False
      | lang # subtags \<Rightarrow>
          length lang \<in> {2, 3} \<and> list_all is_alpha lang \<and>
          list_all (\<lambda>t. t \<noteq> [] \<and> list_all is_alnum t) subtags)"

definition meaning_classes :: "string list" where
  "meaning_classes = [''source_supported'', ''derived_synthesis'', ''expression_guidance'']"

definition release_statuses :: "string list" where
  "release_statuses = [''candidate'', ''active'', ''superseded'', ''recalled'']"

definition predicate_types :: "string list" where
  "predicate_types = [''position'', ''aspect'', ''pattern'', ''angle'', ''house_cusp'', ''uncertainty'']"

fun is_record :: "json option \<Rightarrow> bool" where
  "is_record (Some (JObj _)) = True"
| "is_record _ = False"

fun is_string_where :: "(string \<Rightarrow> bool) \<Rightarrow> json option \<Rightarrow> bool" where
  "is_string_where p (Some (JStr s)) = p s"
| "is_string_where p _ = False"

fun is_number :: "json option \<Rightarrow> bool" where
  "is_number (Some (JNum _)) = True"
| "is_number _ = False"

fun json_array :: "json option \<Rightarrow> json list option" where
  "json_array (Some (JArr xs)) = Some xs"
| "json_array _ = None"

abbreviation any_string :: "string \<Rightarrow> bool" where
  "any_string \<equiv> \<lambda>_. True"

text \<open>The checks on one id list of a record.\<close>

definition id_list_failures :: "string \<Rightarrow> json \<Rightarrow> string \<Rightarrow> (string \<Rightarrow> bool) \<Rightarrow> failure list" where
  "id_list_failures whr entry field grammar =
     (case json_array (jfield entry field) of
        None \<Rightarrow> [Failure ''record_malformed'' (whr @ '' '' @ field @ '' must be an array'')]
      | Some ids \<Rightarrow>
          fail_if (\<not> list_all (\<lambda>v. is_string_where grammar (Some v)) ids)
            ''record_malformed'' (whr @ '' '' @ field @ '' holds a malformed id''))"

definition record_structural_failures :: "nat \<Rightarrow> json \<Rightarrow> failure list" where
  "record_structural_failures index entry =
     (let whr = ''record '' @ nat_str index in
      if \<not> is_record (Some entry) then [Failure ''record_malformed'' (whr @ '' is not an object'')]
      else
        fail_if (\<not> is_string_where ontology_rule_id (jfield entry ''id''))
          ''record_id_invalid'' (whr @ '' id is not an ont_ rule id'') @
        fail_if (\<not> is_string_where locale_tag (jfield entry ''locale''))
          ''record_locale_invalid'' (whr @ '' locale is not a BCP 47 tag'') @
        fail_if (\<not> is_string_where (\<lambda>s. s \<in> set meaning_classes) (jfield entry ''meaning_class''))
          ''record_meaning_class_invalid'' (whr @ '' meaning_class is not a known value'') @
        fail_if (\<not> is_string_where (\<lambda>s. s \<noteq> []) (jfield entry ''normalized_proposition''))
          ''record_malformed'' (whr @ '' normalized_proposition must be non-empty'') @
        fail_if (\<not> is_record (jfield entry ''feature_predicate'') \<or>
            \<not> is_string_where (\<lambda>s. s \<in> set predicate_types)
                (jfield (the (jfield entry ''feature_predicate'')) ''type''))
          ''record_predicate_invalid'' (whr @ '' feature_predicate.type is not a known value'') @
        id_list_failures whr entry ''source_fragment_ids'' source_fragment_id @
        id_list_failures whr entry ''input_meaning_ids'' ontology_rule_id @
        concat (map (\<lambda>field. fail_if (json_array (jfield entry field) = None)
            ''record_malformed'' (whr @ '' '' @ field @ '' must be an array''))
          [''tensions'', ''counter_expressions'', ''prohibited_claims'', ''cluster_tags'']))"

definition structural_failures :: "json \<Rightarrow> failure list" where
  "structural_failures value =
     (if \<not> is_record (Some value) then
        [Failure ''release_malformed'' ''ontology release must be a JSON object'']
      else
        fail_if (\<not> is_string_where any_string (jfield value ''schema_version''))
          ''release_malformed'' ''schema_version must be a string'' @
        fail_if (\<not> is_string_where (\<lambda>s. s \<noteq> []) (jfield value ''ontology_version''))
          ''release_malformed'' ''ontology_version must be a non-empty string'' @
        concat (map (\<lambda>field. fail_if (\<not> is_string_where content_hash (jfield value field))
            ''release_malformed'' (field @ '' must be a sha256 content hash''))
          [''bundle_hash'', ''corpus_release_hash'']) @
        fail_if (\<not> is_string_where locale_tag (jfield value ''locale''))
          ''release_malformed'' ''release locale must be a BCP 47 tag'' @
        fail_if (\<not> is_string_where (\<lambda>s. s \<in> set release_statuses) (jfield value ''status''))
          ''release_malformed'' ''release status is not a known value'' @
        (if \<not> is_record (jfield value ''evaluation'') then
           [Failure ''release_malformed'' ''evaluation must be an object'']
         else
           (let evaluation = the (jfield value ''evaluation'') in
            fail_if (\<not> is_number (jfield evaluation ''unevaluated_fixture_count''))
              ''release_malformed'' ''evaluation.unevaluated_fixture_count must be a number'' @
            fail_if (\<not> is_string_where any_string (jfield evaluation ''verdict''))
              ''release_malformed'' ''evaluation.verdict must be a string'')) @
        (case json_array (jfield value ''records'') of
           None \<Rightarrow> [Failure ''release_malformed'' ''records must be an array'']
         | Some records \<Rightarrow>
             concat (map (\<lambda>(index, entry). record_structural_failures index entry)
               (enumerate 0 records))))"

section \<open>The typed view of a gated body\<close>

text \<open>
  \<open>release as PatternOntologyRelease\<close>: after the gate the code reads the same object at its
  declared type. A property the gate has not checked and that is not a string keeps its
  truthiness: absent, \<open>null\<close>, \<open>false\<close> and \<open>0\<close> are falsy, any other value is a
  string that names no body. The gate leaves \<open>salience_band\<close> and
  \<open>presentation_priority\<close> unchecked; compilation does not read them.
\<close>

fun opt_string :: "json option \<Rightarrow> string option" where
  "opt_string None = None"
| "opt_string (Some JNull) = None"
| "opt_string (Some (JBool b)) = (if b then Some ''[value]'' else None)"
| "opt_string (Some (JNum n)) = (if n = 0 then None else Some ''[value]'')"
| "opt_string (Some (JStr s)) = Some s"
| "opt_string (Some (JArr _)) = Some ''[value]''"
| "opt_string (Some (JObj _)) = Some ''[value]''"

fun string_of :: "json option \<Rightarrow> string" where
  "string_of (Some (JStr s)) = s"
| "string_of _ = []"

fun number_of :: "json option \<Rightarrow> js_num" where
  "number_of (Some (JNum n)) = n"
| "number_of _ = 0"

definition strings_of :: "json option \<Rightarrow> string list" where
  "strings_of v = map (\<lambda>x. string_of (Some x)) (orelse (json_array v) [])"

definition feature_class_of_str :: "string \<Rightarrow> feature_class" where
  "feature_class_of_str s =
     (if s = ''position'' then FC_Position else if s = ''aspect'' then FC_Aspect
      else if s = ''pattern'' then FC_Pattern else if s = ''angle'' then FC_Angle
      else if s = ''house_cusp'' then FC_HouseCusp else FC_Uncertainty)"

definition predicate_of_json :: "json \<Rightarrow> feature_predicate" where
  "predicate_of_json v =
     \<lparr>pr_type = feature_class_of_str (string_of (jfield v ''type'')),
      pr_body = opt_string (jfield v ''body''),
      pr_body_a = opt_string (jfield v ''body_a''),
      pr_body_b = opt_string (jfield v ''body_b''),
      pr_aspect = opt_string (jfield v ''aspect''),
      pr_pattern = opt_string (jfield v ''pattern''),
      pr_angle = opt_string (jfield v ''angle''),
      pr_house = map_option (\<lambda>h. nat \<lfloor>number_of (Some h)\<rfloor>) (jfield v ''house''),
      pr_accuracy = opt_string (jfield v ''accuracy'')\<rparr>"

definition record_of_json :: "json \<Rightarrow> ontology_record" where
  "record_of_json v =
     \<lparr>or_id = string_of (jfield v ''id''),
      or_meaning_class =
        (let c = string_of (jfield v ''meaning_class'') in
         if c = ''source_supported'' then SourceSupported
         else if c = ''derived_synthesis'' then DerivedSynthesis else ExpressionGuidance),
      or_locale = string_of (jfield v ''locale''),
      or_predicate = predicate_of_json (orelse (jfield v ''feature_predicate'') JNull),
      or_proposition = string_of (jfield v ''normalized_proposition''),
      or_source_fragment_ids = strings_of (jfield v ''source_fragment_ids''),
      or_input_meaning_ids = strings_of (jfield v ''input_meaning_ids''),
      or_transformation_class = opt_string (jfield v ''transformation_class''),
      or_tensions = strings_of (jfield v ''tensions''),
      or_counter_expressions = strings_of (jfield v ''counter_expressions''),
      or_prohibited_claims = strings_of (jfield v ''prohibited_claims''),
      or_salience_band =
        (let b = string_of (jfield v ''salience_band'') in
         if b = ''high'' then SalienceHigh else if b = ''medium'' then SalienceMedium else SalienceLow),
      or_presentation_priority = number_of (jfield v ''presentation_priority''),
      or_cluster_tags = strings_of (jfield v ''cluster_tags'')\<rparr>"

definition release_of_json :: "json \<Rightarrow> ontology_release" where
  "release_of_json v =
     \<lparr>rl_schema_version = string_of (jfield v ''schema_version''),
      rl_ontology_version = string_of (jfield v ''ontology_version''),
      rl_locale = string_of (jfield v ''locale''),
      rl_status = string_of (jfield v ''status''),
      rl_records = map record_of_json (orelse (json_array (jfield v ''records'')) []),
      rl_evaluation =
        (let e = orelse (jfield v ''evaluation'') JNull in
         \<lparr>ev_verdict = string_of (jfield e ''verdict''),
          ev_unevaluated_fixture_count = number_of (jfield e ''unevaluated_fixture_count'')\<rparr>)\<rparr>"

section \<open>Compilation\<close>

text \<open>The checks on one record that is not a duplicate.\<close>

definition record_rule_failures :: "ontology_record \<Rightarrow> failure list" where
  "record_rule_failures r =
     (let pred = or_predicate r in
      fail_if (pr_type pred = FC_Aspect \<and> truthy (pr_body_a pred) \<and> truthy (pr_body_b pred) \<and>
          \<not> is_canonical_aspect_pair (the (pr_body_a pred)) (the (pr_body_b pred)))
        ''noncanonical_aspect'' (''ontology record '' @ or_id r @ '' names a non-canonical aspect pair'') @
      fail_if (or_meaning_class r = SourceSupported \<and> or_source_fragment_ids r = [])
        ''source_unterminated'' (''source_supported record '' @ or_id r @ '' has no source fragments'') @
      (if or_meaning_class r = DerivedSynthesis then
         fail_if (length (or_input_meaning_ids r) < 2)
           ''derived_inputs'' (''derived_synthesis '' @ or_id r @ '' needs at least two input meanings'') @
         fail_if (\<not> truthy (or_transformation_class r))
           ''derived_transformation''
           (''derived_synthesis '' @ or_id r @ '' is missing transformation_class'')
       else []) @
      fail_if (or_meaning_class r = ExpressionGuidance \<and> or_proposition r = [])
        ''empty_guidance'' (''expression_guidance '' @ or_id r @ '' has an empty proposition''))"

fun record_failures :: "string set \<Rightarrow> ontology_record list \<Rightarrow> failure list" where
  "record_failures ids [] = []"
| "record_failures ids (r # rs) =
     (if or_id r \<in> ids
      then Failure ''duplicate_id'' (''duplicate ontology record '' @ or_id r) # record_failures ids rs
      else record_rule_failures r @ record_failures (insert (or_id r) ids) rs)"

definition missing_input_failures :: "string set \<Rightarrow> ontology_record list \<Rightarrow> failure list" where
  "missing_input_failures ids records =
     concat (map (\<lambda>r. concat (map (\<lambda>parent.
         fail_if (parent \<notin> ids) ''missing_input_meaning''
           (''record '' @ or_id r @ '' cites unknown input '' @ parent))
       (or_input_meaning_ids r))) records)"

definition compile_validated_release :: "ontology_release \<Rightarrow> bool \<Rightarrow> validation_result" where
  "compile_validated_release release require_evaluation =
     validation_result
       (fail_if (rl_schema_version release \<noteq> ''0.7.0'') ''schema_version''
          ''ontology release schema_version must be 0.7.0'' @
        fail_if (rl_records release = []) ''empty_records'' ''ontology release has no records'' @
        fail_if (require_evaluation \<and> ev_unevaluated_fixture_count (rl_evaluation release) \<noteq> 0)
          ''unevaluated_fixtures'' ''ontology release has unevaluated regression fixtures'' @
        fail_if (require_evaluation \<and> ev_verdict (rl_evaluation release) \<noteq> ''pass'')
          ''evaluation_reject'' ''ontology evaluation verdict is not pass'' @
        record_failures {} (rl_records release) @
        (case acyclic_failure (rl_records release) of None \<Rightarrow> [] | Some f \<Rightarrow> [f]) @
        missing_input_failures (or_id ` set (rl_records release)) (rl_records release))"

definition compile_ontology_release :: "json \<Rightarrow> validation_result" where
  "compile_ontology_release release =
     (let structural = structural_failures release in
      if structural \<noteq> [] then validation_result structural
      else compile_validated_release (release_of_json release) True)"

definition compile_ontology_candidate :: "json \<Rightarrow> validation_result" where
  "compile_ontology_candidate release =
     (let structural = structural_failures release in
      if structural \<noteq> [] then validation_result structural
      else compile_validated_release (release_of_json release) False)"

section \<open>What a compiled release satisfies\<close>

text \<open>The rules one record obeys.\<close>

definition record_rules :: "ontology_record \<Rightarrow> bool" where
  "record_rules r \<longleftrightarrow>
     (pr_type (or_predicate r) = FC_Aspect \<and> truthy (pr_body_a (or_predicate r)) \<and>
        truthy (pr_body_b (or_predicate r)) \<longrightarrow>
        body_rank (the (pr_body_a (or_predicate r))) < body_rank (the (pr_body_b (or_predicate r)))) \<and>
     (case or_meaning_class r of
        SourceSupported \<Rightarrow> or_source_fragment_ids r \<noteq> []
      | DerivedSynthesis \<Rightarrow> 2 \<le> length (or_input_meaning_ids r) \<and> truthy (or_transformation_class r)
      | ExpressionGuidance \<Rightarrow> or_proposition r \<noteq> [])"

definition well_formed_records :: "ontology_record list \<Rightarrow> bool" where
  "well_formed_records records \<longleftrightarrow>
     records \<noteq> [] \<and> distinct (map or_id records) \<and> (\<forall>r \<in> set records. record_rules r) \<and>
     acyclic (derivation_graph records) \<and>
     (\<forall>r \<in> set records. set (or_input_meaning_ids r) \<subseteq> or_id ` set records)"

lemma record_rule_failures_Nil: "record_rule_failures r = [] \<longleftrightarrow> record_rules r"
  by (cases "or_meaning_class r")
    (auto simp: record_rule_failures_def record_rules_def is_canonical_aspect_pair_def Let_def)

lemma record_failures_Nil:
  "record_failures ids rs = [] \<longleftrightarrow>
   distinct (map or_id rs) \<and> or_id ` set rs \<inter> ids = {} \<and> (\<forall>r \<in> set rs. record_rules r)"
  by (induction rs arbitrary: ids) (auto simp: record_rule_failures_Nil)

lemma missing_input_failures_Nil:
  "missing_input_failures ids rs = [] \<longleftrightarrow> (\<forall>r \<in> set rs. set (or_input_meaning_ids r) \<subseteq> ids)"
  by (auto simp: missing_input_failures_def)

lemma compile_validated_release_ok:
  "vr_ok (compile_validated_release release ev) \<longleftrightarrow>
   rl_schema_version release = ''0.7.0'' \<and>
   (ev \<longrightarrow> ev_unevaluated_fixture_count (rl_evaluation release) = 0 \<and>
           ev_verdict (rl_evaluation release) = ''pass'') \<and>
   well_formed_records (rl_records release)"
  by (auto simp: compile_validated_release_def record_failures_Nil missing_input_failures_Nil
      well_formed_records_def acyclic_failure_iff split: option.splits
      simp flip: acyclic_failure_iff)

text \<open>
  C23: the depth-first search reports a cycle exactly when the derivation graph has one.
\<close>
theorem cycle_check_iff_acyclic: "acyclic_failure records = None \<longleftrightarrow> acyclic (derivation_graph records)"
  by (rule acyclic_failure_iff)

text \<open>
  C22: an ingested release compiles exactly when it passes the structural gate, carries the
  schema version and a passing evaluation, and its records are non-empty, uniquely named, each
  obeying the rules of its meaning class, acyclic, and closed under their inputs.
\<close>
theorem release_compiles_iff_well_formed:
  "vr_ok (compile_ontology_release body) \<longleftrightarrow>
   structural_failures body = [] \<and>
   rl_schema_version (release_of_json body) = ''0.7.0'' \<and>
   ev_unevaluated_fixture_count (rl_evaluation (release_of_json body)) = 0 \<and>
   ev_verdict (rl_evaluation (release_of_json body)) = ''pass'' \<and>
   well_formed_records (rl_records (release_of_json body))"
  by (auto simp: compile_ontology_release_def Let_def validation_result_def compile_validated_release_ok)

text \<open>
  naming the two bodies of an aspect predicate in the other order matches the same features.
\<close>
theorem aspect_match_ignores_body_order:
  assumes "pr_body_a (or_predicate r) = Some a" and "a \<in> set launch_bodies"
    and "pr_body_b (or_predicate r) = Some b" and "b \<in> set launch_bodies"
  shows "ontology_record_matches_feature (swap_predicate_bodies r) f = ontology_record_matches_feature r f"
proof -
  have "a \<noteq> []" "b \<noteq> []"
    using assms(2,4) by (auto simp: launch_bodies_def)
  then show ?thesis
    using assms canonical_pair_comm [OF assms(2,4)]
    by (auto simp: ontology_record_matches_feature_def swap_predicate_bodies_def Let_def truthy_def
        split: natal_data.splits prod.splits)
qed

end
