(* ===== verification/Pattern_Examples.thy ===== *)
theory Pattern_Examples
  imports Ontology
begin

text \<open>
  Concrete ontology records and natal features on which the properties of the Pattern engine are
  applied: a sun position, a luminary aspect, an uncertainty feature, an angle and a feature no
  record describes.
\<close>

definition any_feature :: "feature_class \<Rightarrow> feature_predicate" where
  "any_feature c = \<lparr>pr_type = c, pr_body = None, pr_body_a = None, pr_body_b = None,
     pr_aspect = None, pr_pattern = None, pr_angle = None, pr_house = None, pr_accuracy = None\<rparr>"

definition example_record ::
  "string \<Rightarrow> feature_predicate \<Rightarrow> salience_band \<Rightarrow> string list \<Rightarrow> ontology_record" where
  "example_record rid predicate band tags =
     \<lparr>or_id = rid, or_meaning_class = SourceSupported, or_locale = ''en-US'', or_predicate = predicate,
      or_proposition = ''A symbolic reading.'', or_source_fragment_ids = [''frag_one''],
      or_input_meaning_ids = [], or_transformation_class = None, or_tensions = [],
      or_counter_expressions = [], or_prohibited_claims = [], or_salience_band = band,
      or_presentation_priority = 1, or_cluster_tags = tags\<rparr>"

definition example_ontology :: "ontology_record list" where
  "example_ontology =
     [example_record ''ont_sun'' ((any_feature FC_Position)\<lparr>pr_body := Some ''sun''\<rparr>) SalienceHigh [''core''],
      example_record ''ont_aspect'' (any_feature FC_Aspect) SalienceMedium [''tone''],
      example_record ''ont_uncertain'' (any_feature FC_Uncertainty) SalienceLow [],
      example_record ''ont_angle'' (any_feature FC_Angle) SalienceLow []]"

definition example_features :: "natal_feature list" where
  "example_features =
     [\<lparr>nf_id = ''nf_e'', nf_data = PositionFeature ''mars'' 100 4 None\<rparr>,
      \<lparr>nf_id = ''nf_b'', nf_data = AspectFeature ''moon'' ''sun'' ''trine'' (1 / 2)\<rparr>,
      \<lparr>nf_id = ''nf_a'', nf_data = PositionFeature ''sun'' 10 1 (Some 3)\<rparr>,
      \<lparr>nf_id = ''nf_d'', nf_data = AngleFeature ''ascendant'' 40 2\<rparr>,
      \<lparr>nf_id = ''nf_c'', nf_data = UncertaintyFeature Unknown [''angle'']\<rparr>]"

text \<open>A square between the moon and the sun, its bodies named against the launch order.\<close>

definition example_square :: ontology_record where
  "example_square = example_record ''ont_square''
     ((any_feature FC_Aspect)\<lparr>pr_body_a := Some ''moon'', pr_body_b := Some ''sun''\<rparr>) SalienceHigh []"

theorem aspect_match_ignores_body_order_witness:
  "ontology_record_matches_feature (swap_predicate_bodies example_square)
     \<lparr>nf_id = ''nf_s'', nf_data = AspectFeature ''sun'' ''moon'' ''square'' 1\<rparr> =
   ontology_record_matches_feature example_square
     \<lparr>nf_id = ''nf_s'', nf_data = AspectFeature ''sun'' ''moon'' ''square'' 1\<rparr>"
  by (rule aspect_match_ignores_body_order [of _ "''moon''" "''sun''"])
    (simp_all add: example_square_def example_record_def launch_bodies_def)

end
