(* ===== verification/Selection.thy ===== *)
theory Selection
  imports Pattern_Examples "HOL-Library.Word"
begin

unbundle bit_operations_syntax

text \<open>
  \<open>packages/pattern-engine/src/selection.ts\<close>: which calculated natal features enter the
  provider packet, under which aliases, in which clusters, and the accounting of every feature.

  \<open>String.prototype.localeCompare\<close> depends on the runtime's collation data, so it is the
  parameter \<open>lc\<close> of the definitions that sort by it. The facts that need it assume the
  \<open>keyed_comparator\<close> contract.
\<close>

section \<open>Ranks and hashes\<close>

fun class_rank :: "feature_class \<Rightarrow> nat" where
  "class_rank FC_Uncertainty = 0"
| "class_rank FC_Position = 1"
| "class_rank FC_Aspect = 2"
| "class_rank FC_Pattern = 3"
| "class_rank FC_Angle = 4"
| "class_rank FC_HouseCusp = 5"

definition aspect_rank :: "string \<Rightarrow> nat option" where
  "aspect_rank = map_of [(''conjunction'', 0), (''opposition'', 1), (''square'', 2),
     (''trine'', 3), (''sextile'', 4)]"

text \<open>32-bit FNV-1a; \<open>Math.imul\<close> and \<open>^=\<close> work modulo \<open>2 ^ 32\<close>.\<close>

definition fnv1a_step :: "32 word \<Rightarrow> char \<Rightarrow> 32 word" where
  "fnv1a_step h c = (h XOR of_nat (of_char c)) * 0x01000193"

definition fnv1a_hex8 :: "string \<Rightarrow> string" where
  "fnv1a_hex8 value =
     take 8 (pad_start 8 (CHR ''0'') (hex_str (unat (foldl fnv1a_step 0x811c9dc5 value))))"

lemma fnv1a_hex8_code [code]:
  "fnv1a_hex8 value =
     take 8 (pad_start 8 (CHR ''0'') (int_radix 16 (uint (foldl fnv1a_step 0x811c9dc5 value))))"
  by (simp add: fnv1a_hex8_def hex_str_def nat_radix_int)

definition alias_for :: "nat \<Rightarrow> string" where
  "alias_for index = ''f'' @ pad_start 3 (CHR ''0'') (nat_str (index + 1))"

section \<open>Facts, coverage and scores of one feature\<close>

fun feature_fact :: "natal_data \<Rightarrow> (string \<times> json) list" where
  "feature_fact (PositionFeature body longitude sign house) =
     [(''body'', JStr body), (''longitude'', JNum longitude), (''sign'', JNum (of_nat sign)),
      (''house'', case house of None \<Rightarrow> JNull | Some h \<Rightarrow> JNum (of_nat h))]"
| "feature_fact (AspectFeature a b aspect orb) =
     [(''body_a'', JStr a), (''body_b'', JStr b), (''aspect'', JStr aspect), (''orb'', JNum orb)]"
| "feature_fact (PatternFeature pattern members) =
     [(''pattern'', JStr pattern), (''member_bodies'', JArr (map JStr members))]"
| "feature_fact (AngleFeature angle longitude sign) =
     [(''angle'', JStr angle), (''longitude'', JNum longitude), (''sign'', JNum (of_nat sign))]"
| "feature_fact (HouseCuspFeature house longitude sign) =
     [(''house'', JNum (of_nat house)), (''longitude'', JNum longitude), (''sign'', JNum (of_nat sign))]"
| "feature_fact (UncertaintyFeature accuracy suppressed) =
     [(''accuracy'', JStr (accuracy_str accuracy)), (''suppressed_features'', JArr (map JStr suppressed))]"

definition matching_records :: "natal_feature \<Rightarrow> ontology_record list \<Rightarrow> ontology_record list" where
  "matching_records f ontology = filter (\<lambda>r. ontology_record_matches_feature r f) ontology"

definition luminary :: "string \<Rightarrow> bool" where
  "luminary b = (b = ''sun'' \<or> b = ''moon'')"

text \<open>\<open>None\<close> is \<open>"ontology_unsupported"\<close>.\<close>

definition coverage_for :: "natal_feature \<Rightarrow> ontology_record list \<Rightarrow> packet_coverage option" where
  "coverage_for f matched =
     (if matched = [] then None
      else (case nf_data f of
        UncertaintyFeature _ _ \<Rightarrow> Some MandatoryAny
      | PositionFeature body _ _ _ \<Rightarrow> Some (if luminary body then MandatoryCore else Eligible)
      | AspectFeature a b _ orb \<Rightarrow>
          Some (if (luminary a \<or> luminary b) \<and> orb \<le> 6 then MandatoryCore else Eligible)
      | _ \<Rightarrow> Some Eligible))"

definition salience_band_score :: "ontology_record \<Rightarrow> js_num" where
  "salience_band_score r =
     (case or_salience_band r of SalienceHigh \<Rightarrow> 300 | SalienceMedium \<Rightarrow> 200 | SalienceLow \<Rightarrow> 100)
       + or_presentation_priority r"

definition salience_score :: "ontology_record list \<Rightarrow> js_num" where
  "salience_score records =
     foldl (\<lambda>best r. if best < salience_band_score r then salience_band_score r else best) 0 records"

definition rank_score :: "natal_feature \<Rightarrow> ontology_record list \<Rightarrow> js_num" where
  "rank_score f records =
     salience_score records + (5 - of_nat (class_rank (nf_class f))) * 20 +
     (case nf_data f of
        AspectFeature _ _ aspect orb \<Rightarrow>
          (5 - of_nat (orelse (aspect_rank aspect) 5)) * 8 + max 0 (12 - orb) * 4
      | AngleFeature _ _ _ \<Rightarrow> 40
      | PositionFeature _ _ _ house \<Rightarrow> (if house \<noteq> None then 10 else 0)
      | _ \<Rightarrow> 0)"

section \<open>Clusters\<close>

fun feature_bodies :: "natal_data \<Rightarrow> string list" where
  "feature_bodies (PositionFeature body _ _ _) = [body]"
| "feature_bodies (AspectFeature a b _ _) = [a, b]"
| "feature_bodies (PatternFeature _ members) = members"
| "feature_bodies (AngleFeature angle _ _) = [angle]"
| "feature_bodies (HouseCuspFeature house _ _) = [''house_'' @ nat_str house]"
| "feature_bodies (UncertaintyFeature _ _) = [''uncertainty'']"

fun same_pattern :: "natal_data \<Rightarrow> natal_data \<Rightarrow> bool" where
  "same_pattern (PatternFeature p _) (PatternFeature q _) = (p = q)"
| "same_pattern _ _ = False"

definition share_edge ::
  "natal_feature \<Rightarrow> ontology_record list \<Rightarrow> natal_feature \<Rightarrow> ontology_record list \<Rightarrow> bool" where
  "share_edge a a_records b b_records =
     (if list_ex (\<lambda>body. body \<in> set (feature_bodies (nf_data a))) (feature_bodies (nf_data b)) then True
      else if same_pattern (nf_data a) (nf_data b) then True
      else (let tags_a = concat (map or_cluster_tags a_records) in
            list_ex (\<lambda>r. list_ex (\<lambda>tag. tag \<in> set tags_a) (or_cluster_tags r)) b_records))"

text \<open>Consecutive slices of \<open>MAX_CLUSTER_SIZE\<close> aliases.\<close>

function slices :: "nat \<Rightarrow> 'a list \<Rightarrow> 'a list list" where
  "slices n xs = (if n = 0 \<or> xs = [] then [] else take n xs # slices n (drop n xs))"
  by pat_completeness auto
termination
  by (relation "measure (\<lambda>(n, xs). length xs)") auto

declare slices.simps [simp del]

definition split_component :: "string list \<Rightarrow> string list list" where
  "split_component aliases =
     (if length aliases \<le> max_cluster_size then [aliases] else slices max_cluster_size aliases)"

text \<open>
  The inner loop of \<open>connectedComponents\<close>: the stack's top is its head, \<open>remaining\<close> the
  aliases no component holds yet, in insertion order. One turn pops an alias and moves every
  remaining neighbour to the stack, the last one on top.
\<close>

function grow_component ::
  "(string \<Rightarrow> string \<Rightarrow> bool) \<Rightarrow> string list \<Rightarrow> string list \<Rightarrow> string list \<Rightarrow> string list \<times> string list"
where
  "grow_component edge remaining [] component = (component, remaining)"
| "grow_component edge remaining (current # stack) component =
     grow_component edge (filter (\<lambda>other. \<not> edge current other) remaining)
       (rev (filter (edge current) remaining) @ stack) (component @ [current])"
  by pat_completeness auto
termination
proof (relation "measure (\<lambda>(edge, remaining, stack, component). 2 * length remaining + length stack)",
    goal_cases)
  case (2 edge remaining current stack component)
  have "length (filter (edge current) remaining) + length (filter (\<lambda>x. \<not> edge current x) remaining)
      = length remaining"
    by (rule sum_length_filter_compl)
  then show ?case by simp
qed simp

fun components_from ::
  "(string \<Rightarrow> string \<Rightarrow> bool) \<Rightarrow> string list \<Rightarrow> string list \<Rightarrow> string list list"
where
  "components_from edge remaining [] = []"
| "components_from edge remaining (start # rest) =
     (if start \<notin> set remaining then components_from edge remaining rest
      else (case grow_component edge (removeAll start remaining) [start] [] of
              (component, remaining') \<Rightarrow>
                js_sort_str component # components_from edge remaining' rest))"

record cluster_node =
  nd_alias :: string
  nd_feature :: natal_feature
  nd_records :: "ontology_record list"

definition node_edge :: "cluster_node list \<Rightarrow> string \<Rightarrow> string \<Rightarrow> bool" where
  "node_edge nodes a b =
     (case (index_by nd_alias nodes a, index_by nd_alias nodes b) of
        (Some n, Some m) \<Rightarrow> share_edge (nd_feature n) (nd_records n) (nd_feature m) (nd_records m)
      | _ \<Rightarrow> False)"

definition connected_components :: "cluster_node list \<Rightarrow> string list list" where
  "connected_components nodes =
     concat (map split_component
       (components_from (node_edge nodes) (map nd_alias nodes) (js_sort_str (map nd_alias nodes))))"

section \<open>Selection\<close>

record selection_input =
  si_locale :: string
  si_effective_accuracy :: birth_time_accuracy
  si_feature_set_hash :: string
  si_features :: "natal_feature list"
  si_ontology :: "ontology_record list"

record selection_row =
  sr_feature :: natal_feature
  sr_records :: "ontology_record list"
  sr_coverage :: packet_coverage
  sr_score :: js_num

record selection_result =
  sel_packet :: fact_packet
  sel_manifest :: selection_manifest
  sel_alias_map :: "(string \<times> string) list"

datatype selection_error = SelectionCapacityExceeded string

definition by_feature_id :: "(string \<Rightarrow> string \<Rightarrow> int) \<Rightarrow> natal_feature \<Rightarrow> natal_feature \<Rightarrow> int" where
  "by_feature_id lc a b = lc (nf_id a) (nf_id b)"

definition unselected :: "natal_feature \<Rightarrow> coverage_class \<Rightarrow> string \<Rightarrow> feature_accounting" where
  "unselected f coverage reason =
     \<lparr>fa_feature_id = nf_id f, fa_alias = None, fa_coverage = coverage, fa_reason = Some reason\<rparr>"

text \<open>The first loop: the features without a record are accounted for, the rest are scored.\<close>

definition supported :: "ontology_record list \<Rightarrow> natal_feature \<Rightarrow> bool" where
  "supported ontology f = (coverage_for f (matching_records f ontology) \<noteq> None)"

definition score_row :: "ontology_record list \<Rightarrow> natal_feature \<Rightarrow> selection_row" where
  "score_row ontology f =
     (let records = matching_records f ontology in
      \<lparr>sr_feature = f, sr_records = records, sr_coverage = the (coverage_for f records),
       sr_score = rank_score f records\<rparr>)"

definition compare_rows :: "(string \<Rightarrow> string \<Rightarrow> int) \<Rightarrow> selection_row \<Rightarrow> selection_row \<Rightarrow> int" where
  "compare_rows lc a b =
     (if sr_score b < sr_score a then -1 else if sr_score a < sr_score b then 1
      else by_feature_id lc (sr_feature a) (sr_feature b))"

definition is_mandatory :: "selection_row \<Rightarrow> bool" where
  "is_mandatory row = (sr_coverage row = MandatoryCore \<or> sr_coverage row = MandatoryAny)"

text \<open>
  The second loop: a mandatory row is always kept, an eligible one while fewer than
  \<open>MAX_ELIGIBLE_ALIASES\<close> rows have been kept before it. The rows left out come second.
\<close>

fun keep_rows :: "selection_row list \<Rightarrow> selection_row list \<Rightarrow> selection_row list \<times> selection_row list" where
  "keep_rows kept [] = (kept, [])"
| "keep_rows kept (row # rows) =
     (if is_mandatory row then keep_rows (kept @ [row]) rows
      else if length kept < max_eligible_aliases then keep_rows (kept @ [row]) rows
      else (case keep_rows kept rows of (k, omitted) \<Rightarrow> (k, row # omitted)))"

definition packet_row :: "nat \<Rightarrow> selection_row \<Rightarrow> packet_feature" where
  "packet_row i row =
     \<lparr>pf_alias = alias_for i, pf_class = nf_class (sr_feature row),
      pf_fact = feature_fact (nf_data (sr_feature row)), pf_coverage = sr_coverage row,
      pf_rule_ids = map or_id (sr_records row), pf_cluster_ids = []\<rparr>"

definition accounting_row :: "nat \<Rightarrow> selection_row \<Rightarrow> feature_accounting" where
  "accounting_row i row =
     \<lparr>fa_feature_id = nf_id (sr_feature row), fa_alias = Some (alias_for i),
      fa_coverage = CoveredAs (sr_coverage row), fa_reason = None\<rparr>"

definition node_row :: "nat \<Rightarrow> selection_row \<Rightarrow> cluster_node" where
  "node_row i row = \<lparr>nd_alias = alias_for i, nd_feature = sr_feature row, nd_records = sr_records row\<rparr>"

definition cluster_of :: "string list \<Rightarrow> packet_cluster" where
  "cluster_of component =
     \<lparr>pc_id = ''clu_'' @ fnv1a_hex8 (join '','' component), pc_aliases = component,
      pc_compatible_with = []\<rparr>"

definition with_compatible :: "packet_cluster list \<Rightarrow> packet_cluster \<Rightarrow> packet_cluster" where
  "with_compatible clusters c =
     c\<lparr>pc_compatible_with :=
        js_sort_str (map pc_id (filter (\<lambda>other. pc_id other \<noteq> pc_id c) clusters))\<rparr>"

definition cluster_ids_of :: "packet_cluster list \<Rightarrow> string \<Rightarrow> string list" where
  "cluster_ids_of clusters a =
     concat (map (\<lambda>c. map (\<lambda>_. pc_id c) (filter (\<lambda>b. b = a) (pc_aliases c))) clusters)"

fun suppressed_of :: "natal_data \<Rightarrow> string list" where
  "suppressed_of (UncertaintyFeature _ suppressed) = suppressed"
| "suppressed_of _ = []"

definition build_packet :: "selection_input \<Rightarrow> selection_row list \<Rightarrow> fact_packet" where
  "build_packet input kept =
     (let packet_features = mapi packet_row kept;
          components = connected_components (mapi node_row kept);
          clusters = map cluster_of components;
          features = map (\<lambda>f. f\<lparr>pf_cluster_ids := cluster_ids_of clusters (pf_alias f)\<rparr>) packet_features;
          sparse = length packet_features < core_chapters_min * 2
      in \<lparr>fp_schema_version = m7_schema_version, fp_locale = si_locale input,
          fp_effective_accuracy = si_effective_accuracy input,
          fp_suppressed_classes =
            js_sort_str (uniq (concat (map (\<lambda>row. suppressed_of (nf_data (sr_feature row))) kept))),
          fp_required_language_rule_ids =
            concat (map pf_rule_ids (filter (\<lambda>f. pf_class f = FC_Uncertainty) features)),
          fp_features = features, fp_clusters = Some (map (with_compatible clusters) clusters),
          fp_constraints =
            \<lparr>sc_chapters_min = (if sparse then sparse_chapters else core_chapters_min),
             sc_chapters_max = (if sparse then sparse_chapters else core_chapters_max),
             sc_signatures_max = additional_signatures_max, sc_sparse = sparse\<rparr>\<rparr>)"

definition compare_accounting ::
  "(string \<Rightarrow> string \<Rightarrow> int) \<Rightarrow> feature_accounting \<Rightarrow> feature_accounting \<Rightarrow> int" where
  "compare_accounting lc a b = lc (fa_feature_id a) (fa_feature_id b)"

definition sorted_features :: "(string \<Rightarrow> string \<Rightarrow> int) \<Rightarrow> selection_input \<Rightarrow> natal_feature list" where
  "sorted_features lc input = js_sort (by_feature_id lc) (si_features input)"

text \<open>The scored rows, best first, ties by feature id.\<close>

definition ranked_rows :: "(string \<Rightarrow> string \<Rightarrow> int) \<Rightarrow> selection_input \<Rightarrow> selection_row list" where
  "ranked_rows lc input =
     js_sort (compare_rows lc)
       (map (score_row (si_ontology input)) (filter (supported (si_ontology input)) (sorted_features lc input)))"

text \<open>The accounting list before its final sort, the guard against unaccounted features last.\<close>

definition account ::
  "natal_feature list \<Rightarrow> ontology_record list \<Rightarrow> selection_row list \<Rightarrow> selection_row list \<Rightarrow>
   feature_accounting list" where
  "account features ontology kept omitted =
     (let accounting =
        map (\<lambda>f. unselected f OntologyUnsupported ''no_activated_ontology_record'')
          (filter (\<lambda>f. \<not> supported ontology f) features) @
        map (\<lambda>row. unselected (sr_feature row) CapacityOmitted ''ranked_below_packet_bound'') omitted @
        mapi accounting_row kept
      in accounting @
        map (\<lambda>f. unselected f OntologyUnsupported ''unaccounted'')
          (filter (\<lambda>f. nf_id f \<notin> fa_feature_id ` set accounting) features))"

definition select_pattern_evidence ::
  "(string \<Rightarrow> string \<Rightarrow> int) \<Rightarrow> selection_input \<Rightarrow> selection_error + selection_result" where
  "select_pattern_evidence lc input =
     (let selected = ranked_rows lc input;
          mandatory = filter is_mandatory selected
      in if max_mandatory_aliases < length mandatory then
           Inl (SelectionCapacityExceeded (''mandatory evidence '' @ nat_str (length mandatory) @
             '' exceeds the '' @ nat_str max_mandatory_aliases @ ''-alias Pattern bound''))
         else
           (case keep_rows [] selected of (kept_by_rank, omitted) \<Rightarrow>
             (let kept = js_sort (\<lambda>a b. by_feature_id lc (sr_feature a) (sr_feature b)) kept_by_rank;
                  packet = build_packet input kept;
                  hash = si_feature_set_hash input
              in Inr \<lparr>sel_packet = packet,
                  sel_manifest =
                    \<lparr>sm_schema_version = m7_schema_version, sm_policy_id = ''pattern-selection-policy'',
                     sm_policy_version = ''1.0.0'',
                     sm_feature_set_hash =
                       (if starts_with ''sha256:'' hash then hash else ''sha256:'' @ hash),
                     sm_sparse_pattern = sc_sparse (fp_constraints packet),
                     sm_accounting = js_sort (compare_accounting lc)
                       (account (sorted_features lc input) (si_ontology input) kept omitted)\<rparr>,
                  sel_alias_map = mapi (\<lambda>i row. (alias_for i, nf_id (sr_feature row))) kept\<rparr>)))"

section \<open>Facts about the parts\<close>

lemma alias_for_inj: "alias_for i = alias_for j \<Longrightarrow> i = j"
  by (auto simp: alias_for_def dest: inj_pad_nat_str)

lemma distinct_mapi_alias: "distinct (mapi (\<lambda>i x. alias_for i) xs)"
  by (auto simp: distinct_conv_nth dest: alias_for_inj)

text \<open>Slicing.\<close>

lemma slices_Nil: "slices n [] = []"
  by (simp add: slices.simps)

lemma concat_slices: "0 < n \<Longrightarrow> concat (slices n xs) = xs"
proof (induction n xs rule: slices.induct)
  case (1 n xs)
  then show ?case by (cases "xs = []") (simp_all add: slices_Nil slices.simps [of n xs])
qed

lemma slices_bounds: "s \<in> set (slices n xs) \<Longrightarrow> 0 < length s \<and> length s \<le> n"
proof (induction n xs rule: slices.induct)
  case (1 n xs)
  show ?case
  proof (cases "n = 0 \<or> xs = []")
    case True
    with "1.prems" show ?thesis by (simp add: slices.simps [of n xs])
  next
    case False
    with "1.prems" have "s = take n xs \<or> s \<in> set (slices n (drop n xs))"
      by (simp add: slices.simps [of n xs])
    with False "1.IH" [OF False] show ?thesis by auto
  qed
qed

lemma concat_split_component: "concat (split_component c) = c"
  by (simp add: split_component_def max_cluster_size_def concat_slices)

lemma split_component_bounds:
  "c \<noteq> [] \<Longrightarrow> s \<in> set (split_component c) \<Longrightarrow> 0 < length s \<and> length s \<le> max_cluster_size"
  by (auto simp: split_component_def dest: slices_bounds split: if_splits)

text \<open>Growing a component moves aliases from \<open>remaining\<close> and loses none.\<close>

lemma grow_component_mset:
  "grow_component edge remaining stack component = (c, r) \<Longrightarrow>
   mset c + mset r = mset component + mset stack + mset remaining"
proof (induction edge remaining stack component rule: grow_component.induct)
  case (2 edge remaining current stack component)
  then show ?case by simp
qed simp

lemma grow_component_subset:
  "grow_component edge remaining stack component = (c, r) \<Longrightarrow>
   set component \<union> set stack \<subseteq> set c \<and> set r \<subseteq> set remaining"
proof (induction edge remaining stack component rule: grow_component.induct)
  case (2 edge remaining current stack component)
  then show ?case by fastforce
qed simp

text \<open>A finished component has no edge to what remains, and is reached from the stack.\<close>

lemma grow_component_closed:
  "grow_component edge remaining stack component = (c, r) \<Longrightarrow>
   \<forall>a \<in> set component. \<forall>b \<in> set remaining. \<not> edge a b \<Longrightarrow>
   \<forall>a \<in> set c. \<forall>b \<in> set r. \<not> edge a b"
proof (induction edge remaining stack component rule: grow_component.induct)
  case (2 edge remaining current stack component)
  have g: "grow_component edge (filter (\<lambda>other. \<not> edge current other) remaining)
      (rev (filter (edge current) remaining) @ stack) (component @ [current]) = (c, r)"
    using "2.prems"(1) by simp
  show ?case
    by (rule "2.IH" [OF g]) (use "2.prems"(2) in auto)
qed simp

lemma grow_component_rest:
  "grow_component edge remaining stack component = (c, r) \<Longrightarrow> \<exists>P. r = filter P remaining"
proof (induction edge remaining stack component rule: grow_component.induct)
  case (1 edge remaining component)
  then show ?case by (auto intro: exI [of _ "\<lambda>_. True"])
next
  case (2 edge remaining current stack component)
  then show ?case by (auto simp: conj_commute)
qed

lemma grow_component_connected:
  "grow_component edge remaining stack component = (c, r) \<Longrightarrow> b \<in> set c \<Longrightarrow>
   b \<in> set component \<or> (\<exists>a \<in> set stack. (a, b) \<in> {(x, y). edge x y}\<^sup>*)"
proof (induction edge remaining stack component arbitrary: b rule: grow_component.induct)
  case (2 edge remaining current stack component)
  from "2.prems" have "grow_component edge (filter (\<lambda>other. \<not> edge current other) remaining)
      (rev (filter (edge current) remaining) @ stack) (component @ [current]) = (c, r)" by simp
  from "2.IH" [OF this "2.prems"(2)] show ?case
  proof
    assume "b \<in> set (component @ [current])"
    then show ?thesis by auto
  next
    assume "\<exists>a \<in> set (rev (filter (edge current) remaining) @ stack). (a, b) \<in> {(x, y). edge x y}\<^sup>*"
    then obtain a where a: "a \<in> set (filter (edge current) remaining) \<union> set stack"
      "(a, b) \<in> {(x, y). edge x y}\<^sup>*" by auto
    then show ?thesis
      by (auto intro: converse_rtrancl_into_rtrancl)
  qed
qed simp

declare grow_component.simps [simp del]

section \<open>The clusters\<close>

lemma components_from_mset:
  "distinct remaining \<Longrightarrow> set remaining \<subseteq> set starts \<Longrightarrow>
   mset (concat (components_from edge remaining starts)) = mset remaining"
proof (induction edge remaining starts rule: components_from.induct)
  case (2 edge remaining start rest)
  show ?case
  proof (cases "start \<in> set remaining")
    case False
    with 2 show ?thesis by auto
  next
    case True
    obtain c r where cr: "grow_component edge (removeAll start remaining) [start] [] = (c, r)"
      by fastforce
    note m = grow_component_mset [OF cr]
    have rm: "mset remaining = add_mset start (mset (removeAll start remaining))"
      using True \<open>distinct remaining\<close> by (simp add: distinct_remove1_removeAll [symmetric])
    have "distinct r"
      using grow_component_rest [OF cr] distinct_filter [OF distinct_removeAll [OF "2.prems"(1)]]
      by blast
    have "set r \<subseteq> set rest"
      using grow_component_subset [OF cr] "2.prems"(2) by auto
    then have "mset (concat (components_from edge r rest)) = mset r"
      using "2.IH"(2) [OF _ cr [symmetric]] True \<open>distinct r\<close> by simp
    then show ?thesis
      using True m rm by (simp add: cr)
  qed
qed simp

lemma components_from_split:
  assumes "start \<in> set remaining" "distinct remaining" "set remaining \<subseteq> set (start # rest)"
    and cr: "grow_component edge (removeAll start remaining) [start] [] = (c, r)"
  shows "start \<in> set c" "set r \<subseteq> set rest" "distinct r" "set remaining = set c \<union> set r"
    "\<forall>a \<in> set c. \<forall>b \<in> set r. \<not> edge a b"
    "\<forall>b \<in> set c. (start, b) \<in> {(x, y). edge x y}\<^sup>*"
proof -
  show "start \<in> set c" using grow_component_subset [OF cr] by auto
  show "set r \<subseteq> set rest" using grow_component_subset [OF cr] assms(3) by auto
  show "distinct r"
    using grow_component_rest [OF cr] distinct_filter [OF distinct_removeAll [OF assms(2)]] by blast
  show "set remaining = set c \<union> set r"
    using arg_cong [OF grow_component_mset [OF cr], of set_mset] assms(1) by auto
  show "\<forall>a \<in> set c. \<forall>b \<in> set r. \<not> edge a b"
    by (rule grow_component_closed [OF cr]) simp
  show "\<forall>b \<in> set c. (start, b) \<in> {(x, y). edge x y}\<^sup>*"
    using grow_component_connected [OF cr] by auto
qed

lemma components_from_connected:
  "distinct remaining \<Longrightarrow> set remaining \<subseteq> set starts \<Longrightarrow>
   c \<in> set (components_from edge remaining starts) \<Longrightarrow>
   \<exists>start \<in> set c. \<forall>b \<in> set c. (start, b) \<in> {(x, y). edge x y}\<^sup>*"
proof (induction edge remaining starts rule: components_from.induct)
  case (2 edge remaining start rest)
  show ?case
  proof (cases "start \<in> set remaining")
    case False
    with 2 show ?thesis by auto
  next
    case True
    obtain c' r where cr: "grow_component edge (removeAll start remaining) [start] [] = (c', r)"
      by fastforce
    note s = components_from_split [OF True "2.prems"(1,2) cr]
    from "2.prems"(3) True cr consider "c = sort c'" | "c \<in> set (components_from edge r rest)"
      by auto
    then show ?thesis
    proof cases
      case 1
      then show ?thesis using s(1,6) by (intro bexI [of _ start]) simp_all
    next
      case c: 2
      show ?thesis
        using "2.IH"(2) [OF _ cr [symmetric] s(3,2) c] True by simp
    qed
  qed
qed simp

lemma components_from_separated:
  "distinct remaining \<Longrightarrow> set remaining \<subseteq> set starts \<Longrightarrow> (\<And>a b. edge a b = edge b a) \<Longrightarrow>
   c \<in> set (components_from edge remaining starts) \<Longrightarrow>
   set c \<subseteq> set remaining \<and> (\<forall>a \<in> set c. \<forall>b \<in> set remaining - set c. \<not> edge a b)"
proof (induction edge remaining starts rule: components_from.induct)
  case (2 edge remaining start rest)
  show ?case
  proof (cases "start \<in> set remaining")
    case False
    with 2 show ?thesis by auto
  next
    case True
    obtain c' r where cr: "grow_component edge (removeAll start remaining) [start] [] = (c', r)"
      by fastforce
    note s = components_from_split [OF True "2.prems"(1,2) cr]
    from "2.prems"(4) True cr consider "c = sort c'" | "c \<in> set (components_from edge r rest)"
      by auto
    then show ?thesis
    proof cases
      case 1
      with s show ?thesis by auto
    next
      case c: 2
      have "set c \<subseteq> set r \<and> (\<forall>a \<in> set c. \<forall>b \<in> set r - set c. \<not> edge a b)"
        using "2.IH"(2) [OF _ cr [symmetric] s(3,2) "2.prems"(3) c] True by simp
      with s(4,5) show ?thesis
        using "2.prems"(3) by blast
    qed
  qed
qed simp

lemma components_from_reach:
  assumes "distinct remaining" "set remaining = set starts" "\<And>a b. edge a b = edge b a"
    and closed: "\<And>a b. edge a b \<Longrightarrow> b \<in> set remaining"
    and c: "c \<in> set (components_from edge remaining starts)" and a: "a \<in> set c"
  shows "b \<in> set c \<longleftrightarrow> (a, b) \<in> {(x, y). edge x y}\<^sup>*"
proof
  let ?E = "{(x, y). edge x y}"
  have "sym ?E" by (rule symI) (simp add: assms(3))
  then have sym: "(x, y) \<in> ?E\<^sup>* \<Longrightarrow> (y, x) \<in> ?E\<^sup>*" for x y
    by (rule symD [OF sym_rtrancl])
  assume "b \<in> set c"
  moreover obtain start where "\<forall>b \<in> set c. (start, b) \<in> ?E\<^sup>*"
    using components_from_connected [OF assms(1) equalityD1 [OF assms(2)] c] by blast
  ultimately have "(start, a) \<in> ?E\<^sup>*" and b: "(start, b) \<in> ?E\<^sup>*"
    using a by simp_all
  then show "(a, b) \<in> ?E\<^sup>*"
    by (intro rtrancl_trans [OF sym b])
next
  assume "(a, b) \<in> {(x, y). edge x y}\<^sup>*"
  then show "b \<in> set c"
  proof (induction rule: rtrancl_induct)
    case (step y z)
    then have "edge y z" by simp
    moreover have "z \<in> set remaining" using closed [OF \<open>edge y z\<close>] .
    ultimately show ?case
      using step(3) components_from_separated [OF assms(1) equalityD1 [OF assms(2)] assms(3) c]
      by blast
  qed (rule a)
qed

lemma share_edge_sym: "share_edge a ra b rb = share_edge b rb a ra"
proof -
  have "same_pattern x y = same_pattern y x" for x y
    by (cases x; cases y) auto
  then show ?thesis
    unfolding share_edge_def list_ex_iff Let_def by auto
qed

lemma node_edge_sym: "node_edge nodes a b = node_edge nodes b a"
  by (auto simp: node_edge_def share_edge_sym split: option.splits)

lemma node_edge_alias: "node_edge nodes a b \<Longrightarrow> b \<in> nd_alias ` set nodes"
  by (auto simp: node_edge_def dest!: index_by_Some split: option.splits)

lemma concat_map_split_component: "concat (concat (map split_component cs)) = concat cs"
  by (induction cs) (simp_all add: concat_split_component)

lemma connected_components_mset:
  "distinct (map nd_alias nodes) \<Longrightarrow>
   mset (concat (connected_components nodes)) = mset (map nd_alias nodes)"
  by (simp only: connected_components_def concat_map_split_component)
    (rule components_from_mset; simp)

lemma connected_components_bounds:
  assumes "distinct (map nd_alias nodes)" "s \<in> set (connected_components nodes)"
  shows "0 < length s \<and> length s \<le> max_cluster_size"
proof -
  let ?cs = "components_from (node_edge nodes) (map nd_alias nodes) (js_sort_str (map nd_alias nodes))"
  obtain c where c: "c \<in> set ?cs" "s \<in> set (split_component c)"
    using assms(2) by (auto simp: connected_components_def)
  have "c \<noteq> []"
    using components_from_connected [OF assms(1) _ c(1)] by auto
  then show ?thesis
    using split_component_bounds c(2) by blast
qed

section \<open>The kept rows\<close>

lemma keep_rows_full:
  "\<not> length kept < max_eligible_aliases \<Longrightarrow>
   keep_rows kept rows = (kept @ filter is_mandatory rows, filter (\<lambda>r. \<not> is_mandatory r) rows)"
  by (induction rows arbitrary: kept) simp_all

lemma keep_rows_spec:
  "keep_rows kept rows = (k, om) \<Longrightarrow>
   \<exists>m. filter (\<lambda>r. \<not> is_mandatory r) k =
          filter (\<lambda>r. \<not> is_mandatory r) kept @ take m (filter (\<lambda>r. \<not> is_mandatory r) rows)
      \<and> filter is_mandatory k = filter is_mandatory kept @ filter is_mandatory rows
      \<and> om = drop m (filter (\<lambda>r. \<not> is_mandatory r) rows)"
proof (induction kept rows arbitrary: k om rule: keep_rows.induct)
  case (2 kept row rows)
  consider "is_mandatory row" | "\<not> is_mandatory row" "length kept < max_eligible_aliases"
    | "\<not> is_mandatory row" "\<not> length kept < max_eligible_aliases" by blast
  then show ?case
  proof cases
    case 1
    with "2.IH"(1) "2.prems" show ?thesis by fastforce
  next
    case 2
    with "2.IH"(2) "2.prems"
    obtain m where "filter (\<lambda>r. \<not> is_mandatory r) k =
          filter (\<lambda>r. \<not> is_mandatory r) kept @ row # take m (filter (\<lambda>r. \<not> is_mandatory r) rows)"
      "filter is_mandatory k = filter is_mandatory kept @ filter is_mandatory rows"
      "om = drop m (filter (\<lambda>r. \<not> is_mandatory r) rows)" by fastforce
    with 2 show ?thesis by (intro exI [of _ "Suc m"]) simp
  next
    case 3
    with "2.prems" show ?thesis
      by (intro exI [of _ 0]) (auto simp: keep_rows_full)
  qed
qed simp

lemma keep_rows_mset:
  assumes "keep_rows [] rows = (k, om)"
  shows "mset k + mset om = mset rows"
proof -
  from keep_rows_spec [OF assms] obtain m where
    m: "filter (\<lambda>r. \<not> is_mandatory r) k = take m (filter (\<lambda>r. \<not> is_mandatory r) rows)"
      "filter is_mandatory k = filter is_mandatory rows"
      "om = drop m (filter (\<lambda>r. \<not> is_mandatory r) rows)" by auto
  have p: "mset xs = mset (filter is_mandatory xs) + mset (filter (\<lambda>r. \<not> is_mandatory r) xs)" for xs
    by simp
  have "mset (filter (\<lambda>r. \<not> is_mandatory r) k) + mset om = mset (filter (\<lambda>r. \<not> is_mandatory r) rows)"
    unfolding m(1,3) by (metis append_take_drop_id mset_append)
  then show ?thesis
    unfolding p [of k] p [of rows] m(2) by (simp only: add.assoc)
qed

lemma keep_rows_eligible_bound:
  "keep_rows kept rows = (k, om) \<Longrightarrow> length (filter (\<lambda>r. \<not> is_mandatory r) kept) \<le> max_eligible_aliases \<Longrightarrow>
   length (filter (\<lambda>r. \<not> is_mandatory r) k) \<le> max_eligible_aliases"
proof (induction kept rows arbitrary: k om rule: keep_rows.induct)
  case (2 kept row rows)
  have "length (filter (\<lambda>r. \<not> is_mandatory r) kept) < max_eligible_aliases"
    if "length kept < max_eligible_aliases"
    using that length_filter_le [of "\<lambda>r. \<not> is_mandatory r" kept] by linarith
  with 2 show ?case by (auto split: if_splits prod.splits)
qed simp

text \<open>When the rows come in order of rank, no row left out outranks an eligible row kept.\<close>

lemma keep_rows_ranked:
  fixes key :: "selection_row \<Rightarrow> 'k::linorder"
  assumes "keep_rows [] rows = (k, om)" "sorted (map key rows)"
    and "x \<in> set k" "\<not> is_mandatory x" "y \<in> set om"
  shows "key x \<le> key y"
proof -
  let ?e = "filter (\<lambda>r. \<not> is_mandatory r)"
  from keep_rows_spec [OF assms(1)] obtain m where
    m: "?e k = take m (?e rows)" "om = drop m (?e rows)" by auto
  have "sorted (map key (?e rows))"
    using assms(2) by (rule sorted_filter)
  then have "sorted (map key (take m (?e rows)) @ map key (drop m (?e rows)))"
    by (metis append_take_drop_id map_append)
  moreover have "x \<in> set (take m (?e rows))" "y \<in> set (drop m (?e rows))"
    using assms(3-5) m(2) by (simp_all add: m(1) [symmetric])
  ultimately show ?thesis
    by (simp add: sorted_append)
qed

section \<open>The result of the selection\<close>

context collation
begin

lemma by_feature_id_keyed: "keyed_comparator (by_feature_id lc) (\<lambda>f. key (nf_id f))"
  unfolding by_feature_id_def by (rule keyed_by)

lemma compare_accounting_keyed:
  "keyed_comparator (compare_accounting lc) (\<lambda>a. key (fa_feature_id a))"
  unfolding compare_accounting_def by (rule keyed_by)

lemma compare_rows_keyed:
  "keyed_comparator (compare_rows lc) (\<lambda>r. (- sr_score r, key (nf_id (sr_feature r))))"
  by unfold_locales (auto simp: compare_rows_def by_feature_id_def cmp_less cmp_sym)

end

lemma select_InrE:
  assumes "select_pattern_evidence lc input = Inr r"
  obtains k om kept where
    "keep_rows [] (ranked_rows lc input) = (k, om)"
    "kept = js_sort (\<lambda>a b. by_feature_id lc (sr_feature a) (sr_feature b)) k"
    "length (filter is_mandatory (ranked_rows lc input)) \<le> max_mandatory_aliases"
    "sel_packet r = build_packet input kept"
    "sm_accounting (sel_manifest r) = js_sort (compare_accounting lc)
       (account (sorted_features lc input) (si_ontology input) kept om)"
    "sel_alias_map r = mapi (\<lambda>i row. (alias_for i, nf_id (sr_feature row))) kept"
proof -
  obtain k om where "keep_rows [] (ranked_rows lc input) = (k, om)" by fastforce
  with assms that show thesis
    by (auto simp: select_pattern_evidence_def Let_def split: if_splits)
qed

lemma mset_ranked_rows:
  "mset (ranked_rows lc input) =
   mset (map (score_row (si_ontology input)) (filter (supported (si_ontology input)) (si_features input)))"
  by (simp add: ranked_rows_def sorted_features_def)

lemma sr_feature_score_row [simp]: "sr_feature (score_row ontology f) = f"
  by (simp add: score_row_def Let_def)

lemma mset_kept:
  assumes "keep_rows [] (ranked_rows lc input) = (k, om)"
  shows "mset (map sr_feature k) + mset (map sr_feature om) =
         mset (filter (supported (si_ontology input)) (si_features input))"
  using arg_cong [OF keep_rows_mset [OF assms], of "image_mset sr_feature"]
  by (simp add: mset_ranked_rows image_mset.compositionality comp_def)

lemma account_complete:
  assumes "mset (map sr_feature kept) + mset (map sr_feature om) =
      mset (filter (supported ontology) fs)"
  shows "mset (map fa_feature_id (account fs ontology kept om)) = mset (map nf_id fs)"
proof -
  let ?acc = "map (\<lambda>f. unselected f OntologyUnsupported ''no_activated_ontology_record'')
          (filter (\<lambda>f. \<not> supported ontology f) fs) @
        map (\<lambda>row. unselected (sr_feature row) CapacityOmitted ''ranked_below_packet_bound'') om @
        mapi accounting_row kept"
  have "mset (map fa_feature_id ?acc) =
      image_mset nf_id (mset (filter (\<lambda>f. \<not> supported ontology f) fs) +
        (mset (map sr_feature kept) + mset (map sr_feature om)))"
    by (simp add: unselected_def accounting_row_def map_mapi mapi_const image_mset.compositionality
        comp_def)
  also have "\<dots> = mset (map nf_id fs)"
    unfolding assms by (simp flip: image_mset_union)
  finally have m: "mset (map fa_feature_id ?acc) = mset (map nf_id fs)" .
  from arg_cong [OF this, of set_mset] have "fa_feature_id ` set ?acc = nf_id ` set fs"
    by (simp only: set_mset_mset set_map)
  then have none: "filter (\<lambda>f. nf_id f \<notin> fa_feature_id ` set ?acc) fs = []"
    by (auto simp only: filter_empty_conv)
  show ?thesis
    unfolding account_def Let_def none using m by (simp only: append_Nil2 list.map)
qed

text \<open>The packet built from the kept rows.\<close>

lemma packet_aliases:
  "map pf_alias (fp_features (build_packet input kept)) = mapi (\<lambda>i _. alias_for i) kept"
  by (simp add: build_packet_def Let_def comp_def map_mapi packet_row_def)

lemma packet_length: "length (fp_features (build_packet input kept)) = length kept"
  by (simp add: build_packet_def Let_def)

lemma packet_coverages:
  "map pf_coverage (fp_features (build_packet input kept)) = map sr_coverage kept"
  by (simp add: build_packet_def Let_def comp_def map_mapi packet_row_def mapi_const)

lemma node_aliases: "map nd_alias (mapi node_row kept) = mapi (\<lambda>i _. alias_for i) kept"
  by (simp add: map_mapi node_row_def)

lemma packet_clusters:
  "\<exists>cs. fp_clusters (build_packet input kept) = Some cs \<and>
        map pc_aliases cs = connected_components (mapi node_row kept)"
  by (simp add: build_packet_def Let_def comp_def with_compatible_def cluster_of_def)

definition packet_clusters_of :: "fact_packet \<Rightarrow> string list list" where
  "packet_clusters_of p = map pc_aliases (orelse (fp_clusters p) [])"

lemma packet_clusters_of_build:
  "packet_clusters_of (build_packet input kept) = connected_components (mapi node_row kept)"
  using packet_clusters [of input kept] by (auto simp: packet_clusters_of_def)

text \<open>The features whose evidence the provider must use.\<close>

definition mandatory_feature :: "ontology_record list \<Rightarrow> natal_feature \<Rightarrow> bool" where
  "mandatory_feature ontology f =
     (coverage_for f (matching_records f ontology) \<in> {Some MandatoryCore, Some MandatoryAny})"

lemma is_mandatory_iff: "is_mandatory row \<longleftrightarrow> sr_coverage row \<noteq> Eligible"
  by (cases "sr_coverage row") (simp_all add: is_mandatory_def)

lemma mandatory_feature_supported: "mandatory_feature ontology f \<Longrightarrow> supported ontology f"
  by (auto simp: mandatory_feature_def supported_def)

lemma is_mandatory_score_row:
  "supported ontology f \<Longrightarrow> is_mandatory (score_row ontology f) = mandatory_feature ontology f"
  by (auto simp: is_mandatory_def score_row_def mandatory_feature_def supported_def Let_def)

lemma mset_mandatory_rows:
  "mset (filter is_mandatory (ranked_rows lc input)) =
   mset (map (score_row (si_ontology input)) (filter (mandatory_feature (si_ontology input)) (si_features input)))"
proof -
  let ?o = "si_ontology input"
  have "filter is_mandatory (map (score_row ?o) (filter (supported ?o) fs)) =
      map (score_row ?o) (filter (mandatory_feature ?o) fs)" for fs
    by (induction fs) (auto simp: is_mandatory_score_row dest: mandatory_feature_supported)
  then show ?thesis
    using mset_ranked_rows [of lc input] by (metis mset_filter)
qed

lemma length_mandatory_rows:
  "length (filter is_mandatory (ranked_rows lc input)) =
   length (filter (mandatory_feature (si_ontology input)) (si_features input))"
  by (metis mset_mandatory_rows size_mset length_map)

lemma kept_mandatory:
  assumes "keep_rows [] (ranked_rows lc input) = (k, om)"
  shows "filter is_mandatory k = filter is_mandatory (ranked_rows lc input)"
  using keep_rows_spec [OF assms] by auto

lemma row_of_kept:
  assumes "keep_rows [] (ranked_rows lc input) = (k, om)" "r \<in> set k \<union> set om"
  shows "\<exists>f \<in> set (si_features input). supported (si_ontology input) f \<and> r = score_row (si_ontology input) f"
proof -
  have "r \<in> set (ranked_rows lc input)"
    using assms(2) arg_cong [OF keep_rows_mset [OF assms(1)], of set_mset] by auto
  then have "r \<in># mset (ranked_rows lc input)" by simp
  then show ?thesis by (auto simp: mset_ranked_rows)
qed

lemma ranked_rows_sorted:
  "collation lc key \<Longrightarrow> sorted (map (\<lambda>r. (- sr_score r, key (nf_id (sr_feature r)))) (ranked_rows lc input))"
  unfolding ranked_rows_def
  by (rule keyed_comparator.sorted_js_sort [OF collation.compare_rows_keyed])

lemma omitted_ranked:
  assumes "collation lc key" "keep_rows [] (ranked_rows lc input) = (k, om)"
    and "x \<in> set k" "sr_coverage x = Eligible" "y \<in> set om"
  shows "sr_score y \<le> sr_score x"
  using keep_rows_ranked [OF assms(2) ranked_rows_sorted [OF assms(1)] assms(3) _ assms(5)] assms(4)
  by (auto simp: is_mandatory_iff)

lemma score_row_sel [simp]:
  "sr_score (score_row ontology f) = rank_score f (matching_records f ontology)"
  by (simp add: score_row_def Let_def)

lemma accounted_kept:
  "a \<in> set (account fs ontology kept om) \<Longrightarrow> fa_coverage a = CoveredAs c \<Longrightarrow>
   \<exists>row \<in> set kept. nf_id (sr_feature row) = fa_feature_id a \<and> sr_coverage row = c"
  by (auto simp: account_def Let_def unselected_def accounting_row_def set_mapi)

lemma accounted_omitted:
  "a \<in> set (account fs ontology kept om) \<Longrightarrow> fa_coverage a = CapacityOmitted \<Longrightarrow>
   \<exists>row \<in> set om. nf_id (sr_feature row) = fa_feature_id a"
  by (auto simp: account_def Let_def unselected_def accounting_row_def set_mapi)

section \<open>Properties\<close>

definition example_input :: selection_input where
  "example_input = \<lparr>si_locale = ''en-US'', si_effective_accuracy = Unknown,
     si_feature_set_hash = ''abc'', si_features = example_features, si_ontology = example_ontology\<rparr>"

lemma example_selected: "\<exists>r. select_pattern_evidence cmp_asc example_input = Inr r"
proof -
  have "\<not> isl (select_pattern_evidence cmp_asc example_input)" by code_simp
  then show ?thesis
    by (cases "select_pattern_evidence cmp_asc example_input") simp_all
qed

text \<open>
  C3: the accounting of a selection lists every calculated feature exactly as often as the
  input does: kept under an alias, omitted for capacity, or without an ontology record.
\<close>
theorem selection_accounts_every_feature:
  assumes "select_pattern_evidence lc input = Inr r"
  shows "mset (map fa_feature_id (sm_accounting (sel_manifest r))) = mset (map nf_id (si_features input))"
proof -
  from assms obtain k om kept where
    k: "keep_rows [] (ranked_rows lc input) = (k, om)"
       "kept = js_sort (\<lambda>a b. by_feature_id lc (sr_feature a) (sr_feature b)) k"
    and acc: "sm_accounting (sel_manifest r) = js_sort (compare_accounting lc)
       (account (sorted_features lc input) (si_ontology input) kept om)"
    by (rule select_InrE) blast
  have "mset (map sr_feature kept) + mset (map sr_feature om) =
      mset (filter (supported (si_ontology input)) (sorted_features lc input))"
    using mset_kept [OF k(1)] by (simp add: k(2) sorted_features_def)
  from account_complete [OF this] show ?thesis
    by (simp add: acc sorted_features_def)
qed

theorem selection_accounts_every_feature_witness:
  "\<exists>r. select_pattern_evidence cmp_asc example_input = Inr r \<and>
    mset (map fa_feature_id (sm_accounting (sel_manifest r))) = mset (map nf_id example_features)"
  using example_selected selection_accounts_every_feature [of cmp_asc example_input]
  by (auto simp: example_input_def)

text \<open>
  the selection fails exactly when more than \<open>MAX_MANDATORY_ALIASES\<close> features are
  mandatory, and its error names their number.
\<close>
theorem selection_fails_iff_over_mandatory:
  "select_pattern_evidence lc input =
     Inl (SelectionCapacityExceeded (''mandatory evidence '' @
       nat_str (length (filter (mandatory_feature (si_ontology input)) (si_features input))) @
       '' exceeds the 12-alias Pattern bound'')) \<longleftrightarrow>
   12 < length (filter (mandatory_feature (si_ontology input)) (si_features input))"
proof -
  have "nat_str max_mandatory_aliases = ''12''"
    by code_simp
  then show ?thesis
    by (simp add: select_pattern_evidence_def Let_def length_mandatory_rows max_mandatory_aliases_def
        split: prod.splits)
qed

text \<open>
  no mandatory feature is dropped: each one is in the packet, under an alias the alias
  map resolves to it, with its mandatory coverage.
\<close>
theorem selection_keeps_mandatory:
  assumes "select_pattern_evidence lc input = Inr r" and "f \<in> set (si_features input)"
    and "mandatory_feature (si_ontology input) f"
  shows "\<exists>p \<in> set (fp_features (sel_packet r)). (pf_alias p, nf_id f) \<in> set (sel_alias_map r) \<and>
    Some (pf_coverage p) = coverage_for f (matching_records f (si_ontology input))"
proof -
  from assms(1) obtain k om kept where
    k: "keep_rows [] (ranked_rows lc input) = (k, om)"
       "kept = js_sort (\<lambda>a b. by_feature_id lc (sr_feature a) (sr_feature b)) k"
    and res: "sel_packet r = build_packet input kept"
       "sel_alias_map r = mapi (\<lambda>i row. (alias_for i, nf_id (sr_feature row))) kept"
    by (rule select_InrE) blast
  let ?row = "score_row (si_ontology input) f"
  have "?row \<in># mset (filter is_mandatory (ranked_rows lc input))"
    using assms(2,3) unfolding mset_mandatory_rows by auto
  then have "?row \<in> set kept"
    unfolding k(2) using kept_mandatory [OF k(1)] by (metis filter_is_subset set_js_sort set_mset_mset subsetD)
  then obtain i where i: "i < length kept" "kept ! i = ?row" by (auto simp: in_set_conv_nth)
  let ?p = "fp_features (build_packet input kept) ! i"
  have "pf_alias ?p = alias_for i" "pf_coverage ?p = sr_coverage ?row"
    using i arg_cong [OF packet_aliases [of input kept], of "\<lambda>xs. xs ! i"]
      arg_cong [OF packet_coverages [of input kept], of "\<lambda>xs. xs ! i"] by (simp_all add: packet_length)
  moreover have "Some (sr_coverage ?row) = coverage_for f (matching_records f (si_ontology input))"
    using mandatory_feature_supported [OF assms(3)] by (auto simp: score_row_def supported_def Let_def)
  moreover have "(alias_for i, nf_id f) \<in> set (sel_alias_map r)"
    using i by (force simp: res(2) set_mapi)
  moreover have "?p \<in> set (fp_features (sel_packet r))"
    using i(1) by (simp add: res(1) packet_length)
  ultimately show ?thesis by metis
qed

theorem selection_keeps_mandatory_witness:
  "\<exists>r. select_pattern_evidence cmp_asc example_input = Inr r \<and>
    (\<exists>p \<in> set (fp_features (sel_packet r)). (pf_alias p, ''nf_a'') \<in> set (sel_alias_map r) \<and>
       pf_coverage p = MandatoryCore)"
proof -
  let ?f = "\<lparr>nf_id = ''nf_a'', nf_data = PositionFeature ''sun'' 10 1 (Some 3)\<rparr>"
  obtain r where r: "select_pattern_evidence cmp_asc example_input = Inr r"
    using example_selected by blast
  have f: "?f \<in> set (si_features example_input)"
    by (simp add: example_input_def example_features_def)
  have c: "coverage_for ?f (matching_records ?f (si_ontology example_input)) = Some MandatoryCore"
    by code_simp
  then have m: "mandatory_feature (si_ontology example_input) ?f"
    by (simp add: mandatory_feature_def)
  show ?thesis
    using selection_keeps_mandatory [OF r f m] r unfolding c by auto
qed

text \<open>
  a packet holds at most 12 mandatory and at most 40 eligible features, so at most 52.
\<close>
theorem selection_packet_bounds:
  assumes "select_pattern_evidence lc input = Inr r"
  shows "length (filter (\<lambda>p. pf_coverage p \<noteq> Eligible) (fp_features (sel_packet r))) \<le> 12 \<and>
    length (filter (\<lambda>p. pf_coverage p = Eligible) (fp_features (sel_packet r))) \<le> 40 \<and>
    length (fp_features (sel_packet r)) \<le> 52"
proof -
  let ?fs = "fp_features (sel_packet r)"
  from assms obtain k om kept where
    k: "keep_rows [] (ranked_rows lc input) = (k, om)"
       "kept = js_sort (\<lambda>a b. by_feature_id lc (sr_feature a) (sr_feature b)) k"
    and m: "length (filter is_mandatory (ranked_rows lc input)) \<le> max_mandatory_aliases"
    and p: "sel_packet r = build_packet input kept"
    by (rule select_InrE) blast
  have cov: "length (filter (\<lambda>p. Q (pf_coverage p)) ?fs) = length (filter (\<lambda>row. Q (sr_coverage row)) k)"
    for Q
    using arg_cong [OF packet_coverages [of input kept], of "\<lambda>cs. length (filter Q cs)"]
    by (simp add: p k(2) length_filter_map comp_def)
  have 1: "length (filter (\<lambda>p. pf_coverage p \<noteq> Eligible) ?fs) \<le> 12"
    using m unfolding cov [of "\<lambda>c. c \<noteq> Eligible"] kept_mandatory [OF k(1), symmetric]
    by (simp add: max_mandatory_aliases_def is_mandatory_iff [abs_def])
  have 2: "length (filter (\<lambda>p. pf_coverage p = Eligible) ?fs) \<le> 40"
    using keep_rows_eligible_bound [OF k(1)] unfolding cov [of "\<lambda>c. c = Eligible"]
    by (simp add: max_eligible_aliases_def is_mandatory_iff)
  show ?thesis
    using 1 2 sum_length_filter_compl [of "\<lambda>p. pf_coverage p = Eligible" ?fs] by simp
qed

theorem selection_packet_bounds_witness:
  "\<exists>r. select_pattern_evidence cmp_asc example_input = Inr r \<and>
    length (fp_features (sel_packet r)) \<le> 52"
  using example_selected selection_packet_bounds [of cmp_asc example_input] by blast

text \<open>
  the packet's aliases are pairwise distinct and the alias map, in the same order, gives each
  one a feature of the input, so an alias leads back to exactly one feature.
\<close>
theorem selection_alias_map:
  assumes "select_pattern_evidence lc input = Inr r"
  shows "distinct (map pf_alias (fp_features (sel_packet r))) \<and>
    map fst (sel_alias_map r) = map pf_alias (fp_features (sel_packet r)) \<and>
    mset (map snd (sel_alias_map r)) \<subseteq># mset (map nf_id (si_features input))"
proof -
  from assms obtain k om kept where
    k: "keep_rows [] (ranked_rows lc input) = (k, om)"
       "kept = js_sort (\<lambda>a b. by_feature_id lc (sr_feature a) (sr_feature b)) k"
    and p: "sel_packet r = build_packet input kept"
       "sel_alias_map r = mapi (\<lambda>i row. (alias_for i, nf_id (sr_feature row))) kept"
    by (rule select_InrE) blast
  have "mset (map sr_feature k) \<subseteq># mset (si_features input)"
    using mset_kept [OF k(1)] by (metis mset_filter multiset_filter_subset mset_subset_eq_add_left
        subset_mset.order_trans)
  then have "image_mset nf_id (mset (map sr_feature k)) \<subseteq># mset (map nf_id (si_features input))"
    by (simp only: image_mset_subseteq_mono mset_map)
  then show ?thesis
    by (simp add: p packet_aliases map_mapi mapi_const distinct_mapi_alias k(2)
        image_mset.compositionality comp_def)
qed

theorem selection_alias_map_witness:
  "\<exists>r. select_pattern_evidence cmp_asc example_input = Inr r \<and>
    distinct (map pf_alias (fp_features (sel_packet r)))"
  using example_selected selection_alias_map [of cmp_asc example_input] by blast

text \<open>
  the clusters partition the packet's aliases: every alias is in exactly one cluster, and a
  cluster has between one and eight of them.
\<close>
theorem selection_clusters_partition:
  assumes "select_pattern_evidence lc input = Inr r"
  shows "mset (concat (packet_clusters_of (sel_packet r))) = mset (map pf_alias (fp_features (sel_packet r))) \<and>
    (\<forall>c \<in> set (packet_clusters_of (sel_packet r)). 0 < length c \<and> length c \<le> 8)"
proof -
  from assms obtain kept where p: "sel_packet r = build_packet input kept"
    by (rule select_InrE) blast
  have d: "distinct (map nd_alias (mapi node_row kept))"
    by (simp add: node_aliases distinct_mapi_alias)
  show ?thesis
    using connected_components_mset [OF d] connected_components_bounds [OF d]
    by (simp add: p packet_clusters_of_build packet_aliases node_aliases max_cluster_size_def)
qed

theorem selection_clusters_partition_witness:
  "\<exists>r. select_pattern_evidence cmp_asc example_input = Inr r \<and>
    mset (concat (packet_clusters_of (sel_packet r))) = mset (map pf_alias (fp_features (sel_packet r)))"
  using example_selected selection_clusters_partition [of cmp_asc example_input] by blast

text \<open>
  C24: before the size split, two aliases share a component exactly when a chain of shared
  bodies, patterns or cluster tags connects them.
\<close>
theorem components_are_connectivity_classes:
  assumes "distinct (map nd_alias nodes)"
    and "c \<in> set (components_from (node_edge nodes) (map nd_alias nodes) (js_sort_str (map nd_alias nodes)))"
    and "a \<in> set c"
  shows "b \<in> set c \<longleftrightarrow> (a, b) \<in> {(x, y). node_edge nodes x y}\<^sup>*"
  using assms(1) _ node_edge_sym _ assms(2,3)
  by (rule components_from_reach) (auto dest: node_edge_alias)

theorem components_are_connectivity_classes_witness:
  "(''f001'', ''f002'') \<in> {(x, y). node_edge (mapi node_row (ranked_rows cmp_asc example_input)) x y}\<^sup>*"
proof -
  let ?nodes = "mapi node_row (ranked_rows cmp_asc example_input)"
  have c: "[''f001'', ''f002''] \<in> set (components_from (node_edge ?nodes) (map nd_alias ?nodes)
      (js_sort_str (map nd_alias ?nodes)))"
    by code_simp
  show ?thesis
    using components_are_connectivity_classes [OF _ c, of "''f001''" "''f002''"]
    by (simp add: node_aliases distinct_mapi_alias)
qed

text \<open>
  a feature the accounting marks as omitted for capacity never scores above one it
  marks as eligible and kept.
\<close>
theorem selection_omits_lowest_ranked:
  assumes "select_pattern_evidence lc input = Inr r" and "collation lc key"
    and "inj_on nf_id (set (si_features input))"
    and "f \<in> set (si_features input)" and "g \<in> set (si_features input)"
    and "x \<in> set (sm_accounting (sel_manifest r))"
    and "fa_feature_id x = nf_id f" and "fa_coverage x = CoveredAs Eligible"
    and "y \<in> set (sm_accounting (sel_manifest r))"
    and "fa_feature_id y = nf_id g" and "fa_coverage y = CapacityOmitted"
  shows "rank_score g (matching_records g (si_ontology input))
    \<le> rank_score f (matching_records f (si_ontology input))"
proof -
  from assms(1) obtain k om kept where
    k: "keep_rows [] (ranked_rows lc input) = (k, om)"
       "kept = js_sort (\<lambda>a b. by_feature_id lc (sr_feature a) (sr_feature b)) k"
    and acc: "sm_accounting (sel_manifest r) = js_sort (compare_accounting lc)
       (account (sorted_features lc input) (si_ontology input) kept om)"
    by (rule select_InrE) blast
  let ?acc = "account (sorted_features lc input) (si_ontology input) kept om"
  have "x \<in> set ?acc" "y \<in> set ?acc"
    using assms(6,9) by (simp_all add: acc)
  from accounted_kept [OF this(1) assms(8)] accounted_omitted [OF this(2) assms(11)] assms(7,10)
  obtain rf rg where rf: "rf \<in> set k" "nf_id (sr_feature rf) = nf_id f" "sr_coverage rf = Eligible"
    and rg: "rg \<in> set om" "nf_id (sr_feature rg) = nf_id g" by (auto simp: k(2))
  have "rf = score_row (si_ontology input) f"
    using row_of_kept [OF k(1), of rf] rf(1,2) assms(3,4) by (auto dest: inj_onD)
  moreover have "rg = score_row (si_ontology input) g"
    using row_of_kept [OF k(1), of rg] rg assms(3,5) by (auto dest: inj_onD)
  ultimately show ?thesis
    using omitted_ranked [OF assms(2) k(1) rf(1,3) rg(1)] by simp
qed

text \<open>
  the whole result does not depend on the order in which the calculator lists the features.
\<close>
theorem selection_order_independent:
  assumes "collation lc key" and "mset fs = mset gs" and "inj_on nf_id (set fs)"
  shows "select_pattern_evidence lc (input\<lparr>si_features := fs\<rparr>) =
         select_pattern_evidence lc (input\<lparr>si_features := gs\<rparr>)"
proof -
  have "js_sort (by_feature_id lc) fs = js_sort (by_feature_id lc) gs"
    by (rule keyed_comparator.js_sort_unique [OF collation.by_feature_id_keyed [OF assms(1)] assms(2)])
      (rule collation.keyed_inj [OF assms(1,3)])
  then have "sorted_features lc (input\<lparr>si_features := fs\<rparr>) = sorted_features lc (input\<lparr>si_features := gs\<rparr>)"
    by (simp add: sorted_features_def)
  moreover from this have "ranked_rows lc (input\<lparr>si_features := fs\<rparr>) = ranked_rows lc (input\<lparr>si_features := gs\<rparr>)"
    by (simp add: ranked_rows_def)
  moreover have "build_packet (input\<lparr>si_features := fs\<rparr>) kept = build_packet (input\<lparr>si_features := gs\<rparr>) kept" for kept
    by (simp add: build_packet_def)
  ultimately show ?thesis
    by (simp add: select_pattern_evidence_def Let_def)
qed

theorem selection_order_independent_witness:
  "select_pattern_evidence cmp_asc (example_input\<lparr>si_features := example_features\<rparr>) =
   select_pattern_evidence cmp_asc (example_input\<lparr>si_features := rev example_features\<rparr>)"
  by (rule selection_order_independent [OF code_units.collation_axioms])
    (simp_all add: example_features_def)

text \<open>
  A packet above the bound: forty angles with high-salience records, one uncertainty feature and
  one house cusp with low-salience ones. The uncertainty feature ranks below the forty and is kept
  beside them; the cusp ranks last and is left out.
\<close>

definition crowding_angle :: "nat \<Rightarrow> natal_feature" where
  "crowding_angle i = \<lparr>nf_id = ''nf_'' @ nat_str i, nf_data = AngleFeature ''ascendant'' 40 2\<rparr>"

definition crowded_cusp :: natal_feature where
  "crowded_cusp = \<lparr>nf_id = ''nf_h'', nf_data = HouseCuspFeature 2 40 2\<rparr>"

definition crowded_input :: selection_input where
  "crowded_input = \<lparr>si_locale = ''en-US'', si_effective_accuracy = Unknown,
     si_feature_set_hash = ''abc'',
     si_features = \<lparr>nf_id = ''nf_u'', nf_data = UncertaintyFeature Unknown []\<rparr> # crowded_cusp #
       map crowding_angle [0..<40],
     si_ontology =
       [example_record ''ont_uncertain'' (any_feature FC_Uncertainty) SalienceLow [],
        example_record ''ont_cusp'' (any_feature FC_HouseCusp) SalienceLow [],
        example_record ''ont_angle'' (any_feature FC_Angle) SalienceHigh []]\<rparr>"

lemma crowded_rows:
  "case keep_rows [] (ranked_rows cmp_asc crowded_input) of
    (k, om) \<Rightarrow> length k = 41 \<and> map sr_feature om = [crowded_cusp]"
  by code_simp

lemma crowded_selected:
  obtains r k om kept where "select_pattern_evidence cmp_asc crowded_input = Inr r"
    and "keep_rows [] (ranked_rows cmp_asc crowded_input) = (k, om)"
    and "kept = js_sort (\<lambda>a b. by_feature_id cmp_asc (sr_feature a) (sr_feature b)) k"
    and "sel_packet r = build_packet crowded_input kept"
    and "sm_accounting (sel_manifest r) = js_sort (compare_accounting cmp_asc)
       (account (sorted_features cmp_asc crowded_input) (si_ontology crowded_input) kept om)"
    and "length k = 41" and "map sr_feature om = [crowded_cusp]"
proof -
  have "filter (mandatory_feature (si_ontology crowded_input)) (si_features crowded_input) =
      [\<lparr>nf_id = ''nf_u'', nf_data = UncertaintyFeature Unknown []\<rparr>]"
    by code_simp
  then have "length (filter is_mandatory (ranked_rows cmp_asc crowded_input)) \<le> max_mandatory_aliases"
    by (simp add: length_mandatory_rows max_mandatory_aliases_def)
  then have "\<exists>r. select_pattern_evidence cmp_asc crowded_input = Inr r"
    by (simp add: select_pattern_evidence_def Let_def split: prod.splits)
  then obtain r where r: "select_pattern_evidence cmp_asc crowded_input = Inr r" ..
  then show thesis
    using crowded_rows that [OF r] by (elim select_InrE) auto
qed

lemma crowded_ids: "inj_on nf_id (set (si_features crowded_input))"
proof -
  have "distinct (map nf_id (si_features crowded_input))"
    by code_simp
  then show ?thesis
    by (simp add: distinct_map)
qed

theorem selection_omits_lowest_ranked_witness:
  "\<exists>f g r x y. select_pattern_evidence cmp_asc crowded_input = Inr r \<and>
    x \<in> set (sm_accounting (sel_manifest r)) \<and> fa_coverage x = CoveredAs Eligible \<and>
    y \<in> set (sm_accounting (sel_manifest r)) \<and> fa_coverage y = CapacityOmitted \<and>
    fa_feature_id x = nf_id f \<and> fa_feature_id y = nf_id g \<and>
    rank_score g (matching_records g (si_ontology crowded_input))
    \<le> rank_score f (matching_records f (si_ontology crowded_input))"
proof (rule crowded_selected)
  fix r k om kept
  assume r: "select_pattern_evidence cmp_asc crowded_input = Inr r"
    and k: "keep_rows [] (ranked_rows cmp_asc crowded_input) = (k, om)"
    and kept: "kept = js_sort (\<lambda>a b. by_feature_id cmp_asc (sr_feature a) (sr_feature b)) k"
    and acc: "sm_accounting (sel_manifest r) = js_sort (compare_accounting cmp_asc)
       (account (sorted_features cmp_asc crowded_input) (si_ontology crowded_input) kept om)"
    and om: "map sr_feature om = [crowded_cusp]"
  let ?f = "crowding_angle 0" and ?y = "unselected crowded_cusp CapacityOmitted ''ranked_below_packet_bound''"
  have f: "?f \<in> set (si_features crowded_input)" "supported (si_ontology crowded_input) ?f"
      "coverage_for ?f (matching_records ?f (si_ontology crowded_input)) = Some Eligible"
      "nf_id ?f \<noteq> nf_id crowded_cusp"
    by code_simp+
  have "mset (map sr_feature k) + mset (map sr_feature om) =
      mset (filter (supported (si_ontology crowded_input)) (si_features crowded_input))"
    using mset_kept [OF k] by simp
  then have "?f \<in># mset (map sr_feature k) + mset (map sr_feature om)"
    using f(1,2) by simp
  then obtain row where row: "row \<in> set kept" "sr_feature row = ?f"
    using f(4) om by (auto simp: kept)
  then obtain i where i: "i < length kept" "kept ! i = row"
    by (auto simp: in_set_conv_nth)
  have "row = score_row (si_ontology crowded_input) ?f"
    using row_of_kept [OF k, of row] row by (auto simp: kept)
  then have "sr_coverage row = Eligible"
    using f(3) by (simp add: score_row_def Let_def)
  moreover have x: "accounting_row i row \<in> set (sm_accounting (sel_manifest r))"
    using i by (auto simp: acc account_def Let_def set_mapi)
  moreover have y: "?y \<in> set (sm_accounting (sel_manifest r))"
    using om by (auto simp: acc account_def Let_def)
  moreover have "crowded_cusp \<in> set (si_features crowded_input)"
    by (simp add: crowded_input_def)
  ultimately have "rank_score crowded_cusp (matching_records crowded_cusp (si_ontology crowded_input))
      \<le> rank_score ?f (matching_records ?f (si_ontology crowded_input))"
    by (intro selection_omits_lowest_ranked [OF r code_units.collation_axioms crowded_ids f(1) _ x _ _ y])
      (simp_all add: accounting_row_def unselected_def row)
  with r x y \<open>sr_coverage row = Eligible\<close> row show ?thesis
    by (intro exI [of _ ?f] exI [of _ crowded_cusp] exI [of _ r] exI [of _ "accounting_row i row"] exI [of _ ?y])
      (simp add: accounting_row_def unselected_def)
qed


end
