(* ===== verification/Reports.thy ===== *)
theory Reports
  imports Pattern_Types
begin

text \<open>
  Loops that push onto a shared \<open>failures\<close> array. A turn of such a loop updates the loop's
  other state and returns the failures it pushes; the loop appends them in order.
\<close>

fun report_loop ::
  "('s \<Rightarrow> 'a \<Rightarrow> 's \<times> failure list) \<Rightarrow> 's \<Rightarrow> 'a list \<Rightarrow> 's \<times> failure list"
where
  "report_loop step s [] = (s, [])"
| "report_loop step s (x # xs) =
     (case step s x of (s', fs) \<Rightarrow>
      (case report_loop step s' xs of (s'', gs) \<Rightarrow> (s'', fs @ gs)))"

text \<open>A loop whose state does not depend on what it reports.\<close>

lemma fst_report_loop:
  "(\<And>s x. fst (step s x) = upd x s) \<Longrightarrow> fst (report_loop step s xs) = fold upd xs s"
  by (induction xs arbitrary: s) (simp_all add: case_prod_unfold)

lemma report_loop_append:
  "report_loop step s (xs @ ys) =
     (case report_loop step s xs of (s', fs) \<Rightarrow>
      (case report_loop step s' ys of (s'', gs) \<Rightarrow> (s'', fs @ gs)))"
  by (induction xs arbitrary: s) (auto split: prod.splits)

text \<open>A loop reports nothing exactly when no turn does, each from the state before it.\<close>

lemma report_loop_silent:
  assumes "\<And>s x. fst (step s x) = upd x s"
  shows "snd (report_loop step s xs) = [] \<longleftrightarrow>
    (\<forall>i < length xs. snd (step (fold upd (take i xs) s) (xs ! i)) = [])"
proof (induction xs arbitrary: s)
  case (Cons x xs)
  have "snd (report_loop step s (x # xs)) = [] \<longleftrightarrow>
      snd (step s x) = [] \<and> snd (report_loop step (upd x s) xs) = []"
    by (simp add: case_prod_unfold assms)
  also have "\<dots> \<longleftrightarrow> (\<forall>i < length (x # xs). snd (step (fold upd (take i (x # xs)) s) ((x # xs) ! i)) = [])"
    unfolding Cons.IH by (simp add: All_less_Suc2)
  finally show ?case .
qed simp

text \<open>A loop over a \<open>Set\<close> built so far: duplicates are reported, every element is recorded.\<close>

lemma distinct_iff_fresh: "distinct xs \<longleftrightarrow> (\<forall>i < length xs. xs ! i \<notin> set (take i xs))"
proof (induction xs rule: rev_induct)
  case (snoc x xs)
  then show ?case by (auto simp: nth_append less_Suc_eq)
qed simp

lemma silent_concat [simp]: "concat (map f xs) = [] \<longleftrightarrow> (\<forall>x \<in> set xs. f x = [])"
  by auto

text \<open>The conditions of the later turns after a turn that records the key \<open>k\<close>.\<close>

lemma later_turns:
  assumes "\<And>c. ok c \<Longrightarrow> free' c \<longleftrightarrow> apart c \<and> free c"
  shows "(\<forall>c \<in> A. key c \<notin> insert k K \<and> ok c \<and> free' c) \<longleftrightarrow>
    k \<notin> key ` A \<and> (\<forall>c \<in> A. key c \<notin> K \<and> ok c \<and> free c) \<and> (\<forall>c \<in> A. apart c)"
proof -
  have "ok c \<and> free' c \<longleftrightarrow> ok c \<and> apart c \<and> free c" for c
    using assms by blast
  then show ?thesis by auto
qed

end
