(* ===== verification/Plan_Validation.thy ===== *)
theory Plan_Validation
  imports Pattern_Examples Reports
begin

text \<open>
  \<open>packages/pattern-engine/src/plan-validate.ts\<close>: the deterministic validator of a planner
  output against the packet and the ontology it was planned from.
\<close>

section \<open>The validator\<close>

definition omission_reasons :: "string list" where
  "omission_reasons =
     [''redundant_with_chapter'', ''capacity_omitted'', ''cluster_incompatible'', ''sparse_document'']"

text \<open>
  The rules a set of aliases authorizes: those of its packet features, then, in the ontology's
  order, every derived synthesis whose inputs are all authorized before it.
\<close>

definition direct_rules :: "fact_packet \<Rightarrow> string list \<Rightarrow> string list" where
  "direct_rules packet aliases =
     concat (map (\<lambda>a. case index_by pf_alias (fp_features packet) a of
       None \<Rightarrow> [] | Some f \<Rightarrow> pf_rule_ids f) aliases)"

definition add_derived :: "ontology_record \<Rightarrow> string list \<Rightarrow> string list" where
  "add_derived r ids =
     (if or_meaning_class r = DerivedSynthesis \<and> list_all (\<lambda>i. i \<in> set ids) (or_input_meaning_ids r)
      then or_id r # ids else ids)"

definition authorized_rules ::
  "fact_packet \<Rightarrow> ontology_record list \<Rightarrow> string list \<Rightarrow> string list" where
  "authorized_rules packet ontology aliases = fold add_derived ontology (direct_rules packet aliases)"

definition tension_ids_for :: "ontology_record list \<Rightarrow> string list" where
  "tension_ids_for records = concat (map (\<lambda>r.
     (if or_tensions r \<noteq> [] then [or_id r @ ''#tension''] else []) @
     (if or_counter_expressions r \<noteq> [] then [or_id r @ ''#counter''] else []) @
     (if or_proposition r \<noteq> [] then [or_id r @ ''#resource''] else [])) records)"

definition packet_aliases_of :: "fact_packet \<Rightarrow> string list" where
  "packet_aliases_of packet = map pf_alias (fp_features packet)"

definition covered_as :: "packet_coverage \<Rightarrow> fact_packet \<Rightarrow> string list" where
  "covered_as c packet = uniq (map pf_alias (filter (\<lambda>f. pf_coverage f = c) (fp_features packet)))"

text \<open>The maps and sets the validator fills while it walks the plan.\<close>

record plan_state =
  ps_assigned :: "string \<Rightarrow> string option"
  ps_omitted :: "string \<Rightarrow> string option"
  ps_chapter_keys :: "string list"
  ps_signature_keys :: "string list"

definition plan_state0 :: plan_state where
  "plan_state0 = \<lparr>ps_assigned = (\<lambda>_. None), ps_omitted = (\<lambda>_. None), ps_chapter_keys = [],
     ps_signature_keys = []\<rparr>"

definition names_identifier :: "string \<Rightarrow> bool" where
  "names_identifier s =
     list_ex (\<lambda>p. contains_ci p s) [''nft_'', ''usr_'', ''cht_'', ''pgen_'', ''fingerprint'']"

definition only_uncertainty :: "fact_packet \<Rightarrow> string list \<Rightarrow> bool" where
  "only_uncertainty packet aliases =
     list_all (\<lambda>a. case List.find (\<lambda>f. pf_alias f = a) (fp_features packet) of
       None \<Rightarrow> False | Some f \<Rightarrow> pf_class f = FC_Uncertainty) aliases"

definition assign_step ::
  "fact_packet \<Rightarrow> string \<Rightarrow> plan_state \<Rightarrow> string \<Rightarrow> plan_state \<times> failure list" where
  "assign_step packet key st a =
     (if a \<notin> set (packet_aliases_of packet) then (st, [Failure ''unknown_alias'' a])
      else (st\<lparr>ps_assigned := (ps_assigned st)(a \<mapsto> key)\<rparr>,
        fail_if (ps_omitted st a \<noteq> None) ''assigned_and_omitted'' a @
        fail_if (truthy (ps_assigned st a) \<and> ps_assigned st a \<noteq> Some key)
          ''duplicate_assignment'' a))"

definition rule_failures ::
  "ontology_record list \<Rightarrow> string list \<Rightarrow> string \<Rightarrow> string \<Rightarrow> failure list" where
  "rule_failures ontology allowed key rule =
     (if rule \<notin> set allowed \<and> index_by or_id ontology rule = None
      then [Failure ''unknown_rule'' rule]
      else if rule \<notin> set allowed then [Failure ''unauthorized_rule'' (key @ '':'' @ rule)]
      else [])"

definition expression_failures ::
  "ontology_record list \<Rightarrow> string list \<Rightarrow> string \<Rightarrow> failure list" where
  "expression_failures ontology available i =
     fail_if (i \<notin> set available \<and> index_by or_id ontology (hd (split_on (CHR ''#'') i)) = None)
       ''unknown_expression_id'' i"

definition chapter_step ::
  "fact_packet \<Rightarrow> ontology_record list \<Rightarrow> plan_state \<Rightarrow> planner_chapter \<Rightarrow> plan_state \<times> failure list"
where
  "chapter_step packet ontology st ch =
     (let key = ch_key ch;
          duplicate = fail_if (key \<in> set (ps_chapter_keys st)) ''duplicate_chapter_key'' key;
          st1 = st\<lparr>ps_chapter_keys := key # ps_chapter_keys st\<rparr>;
          title = fail_if (title_char_max < length (ch_title ch)) ''title_too_long'' key;
          ident = fail_if (names_identifier (ch_title ch @ '' '' @ ch_purpose ch))
            ''identifier_in_title'' key;
          empty = fail_if (ch_aliases ch = []) ''empty_chapter'' key;
          uncertain = fail_if (only_uncertainty packet (ch_aliases ch))
            ''uncertainty_only_chapter'' key;
          allowed = authorized_rules packet ontology (ch_aliases ch)
      in (case report_loop (assign_step packet key) st1 (ch_aliases ch) of (st2, assigned) \<Rightarrow>
           (let rules = concat (map (rule_failures ontology allowed key) (ch_rule_ids ch));
                available = tension_ids_for (List.map_filter (index_by or_id ontology) (ch_rule_ids ch));
                tension = fail_if (length (ch_tension_ids ch) < 1) ''missing_tension'' key;
                counter = fail_if (length (ch_counter_ids ch) < 1)
                  ''missing_counter_expression'' key;
                expressions = concat (map (expression_failures ontology available)
                  (ch_tension_ids ch @ ch_counter_ids ch @ ch_resource_ids ch))
            in (st2, duplicate @ title @ ident @ empty @ uncertain @ assigned @ rules @ tension @
                  counter @ expressions))))"

definition signature_alias_step ::
  "fact_packet \<Rightarrow> string \<Rightarrow> plan_state \<Rightarrow> string \<Rightarrow> plan_state \<times> failure list" where
  "signature_alias_step packet key st a =
     (if a \<notin> set (packet_aliases_of packet) then (st, [Failure ''unknown_alias'' a])
      else (st\<lparr>ps_assigned := (ps_assigned st)(a \<mapsto> key)\<rparr>,
        fail_if (a \<in> set (covered_as MandatoryCore packet)) ''mandatory_core_in_signature'' a @
        fail_if (ps_omitted st a \<noteq> None \<or> ps_assigned st a \<noteq> None)
          ''duplicate_assignment'' a))"

definition signature_step ::
  "fact_packet \<Rightarrow> plan_state \<Rightarrow> planner_signature \<Rightarrow> plan_state \<times> failure list" where
  "signature_step packet st sg =
     (let key = sg_key sg;
          duplicate = fail_if (key \<in> set (ps_signature_keys st)) ''duplicate_signature_key'' key
      in (case report_loop (signature_alias_step packet key)
            (st\<lparr>ps_signature_keys := key # ps_signature_keys st\<rparr>) (sg_aliases sg) of
           (st', assigned) \<Rightarrow> (st', duplicate @ assigned)))"

definition omission_step ::
  "fact_packet \<Rightarrow> plan_state \<Rightarrow> planner_omission \<Rightarrow> plan_state \<times> failure list" where
  "omission_step packet st om =
     (let a = om_alias om;
          reason = fail_if (om_reason om \<notin> set omission_reasons) ''bad_omission_reason'' a
      in if a \<notin> set (packet_aliases_of packet) then (st, reason @ [Failure ''unknown_alias'' a])
         else (st\<lparr>ps_omitted := (ps_omitted st)(a \<mapsto> om_reason om)\<rparr>,
           reason @
           fail_if (a \<in> set (covered_as MandatoryCore packet) \<or> a \<in> set (covered_as MandatoryAny packet))
             ''omitted_mandatory'' a @
           fail_if (ps_assigned st a \<noteq> None) ''assigned_and_omitted'' a @
           fail_if (truthy (om_covered_by om) \<and>
               the (om_covered_by om) \<notin> set (ps_chapter_keys st) \<and>
               the (om_covered_by om) \<notin> set (ps_signature_keys st))
             ''omission_cover_missing'' a))"

definition core_unassigned :: "plan_state \<Rightarrow> string \<Rightarrow> failure list" where
  "core_unassigned st a =
     fail_if (\<not> truthy (ps_assigned st a) \<or> the (ps_assigned st a) \<notin> set (ps_chapter_keys st))
       ''mandatory_core_unassigned'' a"

definition any_unassigned :: "plan_state \<Rightarrow> string \<Rightarrow> failure list" where
  "any_unassigned st a = fail_if (ps_assigned st a = None) ''mandatory_any_unassigned'' a"

definition eligible_unaccounted :: "plan_state \<Rightarrow> string \<Rightarrow> failure list" where
  "eligible_unaccounted st a =
     fail_if (ps_assigned st a = None \<and> ps_omitted st a = None) ''eligible_unaccounted'' a"

definition plan_failures ::
  "planner_output \<Rightarrow> fact_packet \<Rightarrow> ontology_record list \<Rightarrow> failure list" where
  "plan_failures output packet ontology =
     (let lo = sc_chapters_min (fp_constraints packet);
          hi = sc_chapters_max (fp_constraints packet);
          n = length (po_chapters output);
          version = fail_if (po_schema_version output \<noteq> ''0.7.0'')
            ''schema_version'' ''planner schema_version must be 0.7.0'';
          chapter_count = fail_if (n < lo \<or> hi < n)
            ''chapter_count'' (''expected '' @ nat_str lo @ ''-'' @ nat_str hi @
               '' chapters, received '' @ nat_str n);
          signature_count = fail_if (sc_signatures_max (fp_constraints packet) < length (po_signatures output))
            ''signature_count'' ''too many additional signatures''
      in (case report_loop (chapter_step packet ontology) plan_state0 (po_chapters output) of
            (st1, chapters) \<Rightarrow>
          (case report_loop (signature_step packet) st1 (po_signatures output) of (st2, signatures) \<Rightarrow>
          (case report_loop (omission_step packet) st2 (po_omissions output) of (st3, omissions) \<Rightarrow>
            version @ chapter_count @ signature_count @ chapters @ signatures @ omissions @
            concat (map (core_unassigned st3) (covered_as MandatoryCore packet)) @
            concat (map (any_unassigned st3) (covered_as MandatoryAny packet)) @
            concat (map (eligible_unaccounted st3) (covered_as Eligible packet))))))"

definition validate_pattern_plan ::
  "planner_output \<Rightarrow> fact_packet \<Rightarrow> ontology_record list \<Rightarrow> validation_result" where
  "validate_pattern_plan output packet ontology = validation_result (plan_failures output packet ontology)"

section \<open>What the loops leave in the state\<close>

lemma fst_assign_loop:
  "fst (report_loop (assign_step packet key) st as) =
   st\<lparr>ps_assigned := \<lambda>a. if a \<in> set as \<and> a \<in> set (packet_aliases_of packet) then Some key
      else ps_assigned st a\<rparr>"
  by (induction as arbitrary: st) (auto simp: assign_step_def case_prod_unfold fun_eq_iff)

lemma fst_signature_loop:
  "fst (report_loop (signature_alias_step packet key) st as) =
   st\<lparr>ps_assigned := \<lambda>a. if a \<in> set as \<and> a \<in> set (packet_aliases_of packet) then Some key
      else ps_assigned st a\<rparr>"
  by (induction as arbitrary: st) (auto simp: signature_alias_step_def case_prod_unfold fun_eq_iff)

lemma fst_chapter_step:
  "fst (chapter_step packet ontology st ch) =
   st\<lparr>ps_chapter_keys := ch_key ch # ps_chapter_keys st,
      ps_assigned := \<lambda>a. if a \<in> set (ch_aliases ch) \<and> a \<in> set (packet_aliases_of packet)
        then Some (ch_key ch) else ps_assigned st a\<rparr>"
  by (simp add: chapter_step_def Let_def case_prod_unfold fst_assign_loop cong: if_cong)

lemma fst_signature_step:
  "fst (signature_step packet st sg) =
   st\<lparr>ps_signature_keys := sg_key sg # ps_signature_keys st,
      ps_assigned := \<lambda>a. if a \<in> set (sg_aliases sg) \<and> a \<in> set (packet_aliases_of packet)
        then Some (sg_key sg) else ps_assigned st a\<rparr>"
  by (simp add: signature_step_def Let_def case_prod_unfold fst_signature_loop cong: if_cong)

section \<open>What a silent loop has checked\<close>

lemma assign_loop_silent:
  "ps_omitted st = (\<lambda>_. None) \<Longrightarrow>
   snd (report_loop (assign_step packet key) st as) = [] \<longleftrightarrow>
   set as \<subseteq> set (packet_aliases_of packet) \<and>
   (\<forall>a \<in> set as. truthy (ps_assigned st a) \<longrightarrow> ps_assigned st a = Some key)"
proof (induction as arbitrary: st)
  case (Cons a as)
  then show ?case
    by (auto simp: assign_step_def case_prod_unfold)
qed simp

lemma signature_loop_silent:
  "ps_omitted st = (\<lambda>_. None) \<Longrightarrow>
   snd (report_loop (signature_alias_step packet key) st as) = [] \<longleftrightarrow>
   set as \<subseteq> set (packet_aliases_of packet) \<and> distinct as \<and>
   (\<forall>a \<in> set as. a \<notin> set (covered_as MandatoryCore packet) \<and> ps_assigned st a = None)"
proof (induction as arbitrary: st)
  case (Cons a as)
  then show ?case
    by (auto simp: signature_alias_step_def case_prod_unfold)
qed simp

text \<open>What the validator requires of one chapter by itself.\<close>

definition chapter_content_ok :: "fact_packet \<Rightarrow> ontology_record list \<Rightarrow> planner_chapter \<Rightarrow> bool" where
  "chapter_content_ok packet ontology ch =
     (length (ch_title ch) \<le> title_char_max \<and>
      \<not> names_identifier (ch_title ch @ '' '' @ ch_purpose ch) \<and>
      ch_aliases ch \<noteq> [] \<and> \<not> only_uncertainty packet (ch_aliases ch) \<and>
      set (ch_aliases ch) \<subseteq> set (packet_aliases_of packet) \<and>
      set (ch_rule_ids ch) \<subseteq> set (authorized_rules packet ontology (ch_aliases ch)) \<and>
      ch_tension_ids ch \<noteq> [] \<and> ch_counter_ids ch \<noteq> [] \<and>
      (\<forall>i \<in> set (ch_tension_ids ch) \<union> set (ch_counter_ids ch) \<union> set (ch_resource_ids ch).
         i \<in> set (tension_ids_for (List.map_filter (index_by or_id ontology) (ch_rule_ids ch))) \<or>
         hd (split_on (CHR ''#'') i) \<in> or_id ` set ontology))"

lemma rule_failures_Nil [simp]: "rule_failures ontology allowed key rule = [] \<longleftrightarrow> rule \<in> set allowed"
  by (simp add: rule_failures_def)

lemma expression_failures_Nil [simp]:
  "expression_failures ontology available i = [] \<longleftrightarrow>
   i \<in> set available \<or> hd (split_on (CHR ''#'') i) \<in> or_id ` set ontology"
  by (simp add: expression_failures_def index_by_None)

lemma chapter_step_silent:
  "ps_omitted st = (\<lambda>_. None) \<Longrightarrow>
   snd (chapter_step packet ontology st ch) = [] \<longleftrightarrow>
   ch_key ch \<notin> set (ps_chapter_keys st) \<and> chapter_content_ok packet ontology ch \<and>
   (\<forall>a \<in> set (ch_aliases ch). truthy (ps_assigned st a) \<longrightarrow> ps_assigned st a = Some (ch_key ch))"
  by (auto simp: chapter_step_def Let_def case_prod_unfold assign_loop_silent chapter_content_ok_def
      not_less Suc_le_eq)

lemma signature_step_silent:
  "ps_omitted st = (\<lambda>_. None) \<Longrightarrow>
   snd (signature_step packet st sg) = [] \<longleftrightarrow>
   sg_key sg \<notin> set (ps_signature_keys st) \<and> distinct (sg_aliases sg) \<and>
   set (sg_aliases sg) \<subseteq> set (packet_aliases_of packet) \<and>
   (\<forall>a \<in> set (sg_aliases sg). a \<notin> set (covered_as MandatoryCore packet) \<and> ps_assigned st a = None)"
  by (auto simp: signature_step_def Let_def case_prod_unfold signature_loop_silent)

text \<open>
  Before the omissions are read the omitted map is empty, and an alias is assigned to a key
  already seen.
\<close>

definition chapters_seen :: "plan_state \<Rightarrow> bool" where
  "chapters_seen st =
     (ps_omitted st = (\<lambda>_. None) \<and>
      (\<forall>a k. ps_assigned st a = Some k \<longrightarrow> k \<in> set (ps_chapter_keys st) \<and> k \<noteq> []))"

lemma chapters_seen0: "chapters_seen plan_state0"
  by (simp add: chapters_seen_def plan_state0_def)

lemma chapters_seen_step:
  "chapters_seen st \<Longrightarrow> ch_key ch \<noteq> [] \<Longrightarrow> chapters_seen (fst (chapter_step packet ontology st ch))"
  by (auto simp: chapters_seen_def fst_chapter_step)

lemma chapter_step_silent_seen:
  assumes "chapters_seen st"
  shows "snd (chapter_step packet ontology st ch) = [] \<longleftrightarrow>
    ch_key ch \<notin> set (ps_chapter_keys st) \<and> chapter_content_ok packet ontology ch \<and>
    (\<forall>a \<in> set (ch_aliases ch). ps_assigned st a = None)"
proof -
  have "(truthy (ps_assigned st a) \<longrightarrow> ps_assigned st a = Some (ch_key ch))
      \<longleftrightarrow> ps_assigned st a = None" if "ch_key ch \<notin> set (ps_chapter_keys st)" for a
    using assms that by (cases "ps_assigned st a") (auto simp: chapters_seen_def)
  then show ?thesis
    using assms chapter_step_silent [of st packet ontology ch] by (auto simp: chapters_seen_def)
qed

definition disjoint_aliases :: "planner_chapter \<Rightarrow> planner_chapter \<Rightarrow> bool" where
  "disjoint_aliases c d = (set (ch_aliases c) \<inter> set (ch_aliases d) = {})"

lemma chapters_silent:
  "chapters_seen st \<Longrightarrow> \<forall>ch \<in> set chs. ch_key ch \<noteq> [] \<Longrightarrow>
   snd (report_loop (chapter_step packet ontology) st chs) = [] \<longleftrightarrow>
   distinct (map ch_key chs) \<and>
   (\<forall>ch \<in> set chs. ch_key ch \<notin> set (ps_chapter_keys st) \<and> chapter_content_ok packet ontology ch \<and>
      (\<forall>a \<in> set (ch_aliases ch). ps_assigned st a = None)) \<and>
   sorted_wrt disjoint_aliases chs"
proof (induction chs arbitrary: st)
  case (Cons ch chs)
  let ?st = "fst (chapter_step packet ontology st ch)"
  have IH: "snd (report_loop (chapter_step packet ontology) ?st chs) = [] \<longleftrightarrow>
      distinct (map ch_key chs) \<and>
      (\<forall>c \<in> set chs. ch_key c \<notin> set (ps_chapter_keys ?st) \<and> chapter_content_ok packet ontology c \<and>
        (\<forall>a \<in> set (ch_aliases c). ps_assigned ?st a = None)) \<and>
      sorted_wrt disjoint_aliases chs"
    using Cons.prems by (intro Cons.IH) (simp_all add: chapters_seen_step)
  have free: "(\<forall>a \<in> set (ch_aliases c). ps_assigned ?st a = None) \<longleftrightarrow>
      disjoint_aliases ch c \<and> (\<forall>a \<in> set (ch_aliases c). ps_assigned st a = None)"
    if "chapter_content_ok packet ontology c" for c
    using that by (auto simp: fst_chapter_step chapter_content_ok_def disjoint_aliases_def)
  have keys: "ps_chapter_keys ?st = ch_key ch # ps_chapter_keys st"
    by (simp add: fst_chapter_step)
  have rest: "(\<forall>c \<in> set chs. ch_key c \<notin> set (ps_chapter_keys ?st) \<and> chapter_content_ok packet ontology c \<and>
        (\<forall>a \<in> set (ch_aliases c). ps_assigned ?st a = None)) \<longleftrightarrow>
      ch_key ch \<notin> ch_key ` set chs \<and>
      (\<forall>c \<in> set chs. ch_key c \<notin> set (ps_chapter_keys st) \<and> chapter_content_ok packet ontology c \<and>
        (\<forall>a \<in> set (ch_aliases c). ps_assigned st a = None)) \<and>
      (\<forall>c \<in> set chs. disjoint_aliases ch c)"
    unfolding keys list.set by (rule later_turns) (rule free)
  show ?case
    by (simp add: case_prod_unfold IH rest chapter_step_silent_seen [OF Cons.prems(1)]) blast
qed simp

lemma chapters_state:
  "fst (report_loop (chapter_step packet ontology) st chs) =
   st\<lparr>ps_chapter_keys := rev (map ch_key chs) @ ps_chapter_keys st,
      ps_assigned := ps_assigned (fst (report_loop (chapter_step packet ontology) st chs))\<rparr>"
proof (induction chs arbitrary: st)
  case (Cons ch chs)
  show ?case
    by (simp add: case_prod_unfold) (subst Cons.IH, simp add: fst_chapter_step)
qed simp

lemma chapters_assigned:
  "ps_assigned (fst (report_loop (chapter_step packet ontology) st chs)) a = None \<longleftrightarrow>
   ps_assigned st a = None \<and>
   (a \<in> set (packet_aliases_of packet) \<longrightarrow> (\<forall>ch \<in> set chs. a \<notin> set (ch_aliases ch)))"
  by (induction chs arbitrary: st) (auto simp: case_prod_unfold fst_chapter_step)

lemma chapters_seen_loop:
  "chapters_seen st \<Longrightarrow> \<forall>ch \<in> set chs. ch_key ch \<noteq> [] \<Longrightarrow>
   chapters_seen (fst (report_loop (chapter_step packet ontology) st chs))"
  by (induction chs arbitrary: st) (simp_all add: case_prod_unfold chapters_seen_step)

lemma signatures_state:
  "fst (report_loop (signature_step packet) st sgs) =
   st\<lparr>ps_signature_keys := rev (map sg_key sgs) @ ps_signature_keys st,
      ps_assigned := ps_assigned (fst (report_loop (signature_step packet) st sgs))\<rparr>"
proof (induction sgs arbitrary: st)
  case (Cons sg sgs)
  show ?case
    by (simp add: case_prod_unfold) (subst Cons.IH, simp add: fst_signature_step)
qed simp

lemma signatures_assigned:
  "ps_assigned (fst (report_loop (signature_step packet) st sgs)) a = None \<longleftrightarrow>
   ps_assigned st a = None \<and>
   (a \<in> set (packet_aliases_of packet) \<longrightarrow> (\<forall>sg \<in> set sgs. a \<notin> set (sg_aliases sg)))"
  by (induction sgs arbitrary: st) (auto simp: case_prod_unfold fst_signature_step)

lemma signatures_assigned_other:
  "(\<forall>sg \<in> set sgs. a \<notin> set (sg_aliases sg)) \<Longrightarrow>
   ps_assigned (fst (report_loop (signature_step packet) st sgs)) a = ps_assigned st a"
  by (induction sgs arbitrary: st) (auto simp: case_prod_unfold fst_signature_step)

definition signature_ok :: "fact_packet \<Rightarrow> planner_signature \<Rightarrow> bool" where
  "signature_ok packet sg =
     (set (sg_aliases sg) \<subseteq> set (packet_aliases_of packet) \<and>
      set (sg_aliases sg) \<inter> set (covered_as MandatoryCore packet) = {})"

lemma signatures_silent:
  "ps_omitted st = (\<lambda>_. None) \<Longrightarrow>
   snd (report_loop (signature_step packet) st sgs) = [] \<longleftrightarrow>
   distinct (map sg_key sgs) \<and> distinct (concat (map sg_aliases sgs)) \<and>
   (\<forall>sg \<in> set sgs. sg_key sg \<notin> set (ps_signature_keys st) \<and> signature_ok packet sg \<and>
      (\<forall>a \<in> set (sg_aliases sg). ps_assigned st a = None))"
proof (induction sgs arbitrary: st)
  case (Cons sg sgs)
  let ?st = "fst (signature_step packet st sg)"
  have IH: "snd (report_loop (signature_step packet) ?st sgs) = [] \<longleftrightarrow>
      distinct (map sg_key sgs) \<and> distinct (concat (map sg_aliases sgs)) \<and>
      (\<forall>c \<in> set sgs. sg_key c \<notin> set (ps_signature_keys ?st) \<and> signature_ok packet c \<and>
        (\<forall>a \<in> set (sg_aliases c). ps_assigned ?st a = None))"
    using Cons.prems by (intro Cons.IH) (simp add: fst_signature_step)
  have free: "(\<forall>a \<in> set (sg_aliases c). ps_assigned ?st a = None) \<longleftrightarrow>
      set (sg_aliases sg) \<inter> set (sg_aliases c) = {} \<and> (\<forall>a \<in> set (sg_aliases c). ps_assigned st a = None)"
    if "signature_ok packet c" for c
    using that by (auto simp: fst_signature_step signature_ok_def)
  have keys: "ps_signature_keys ?st = sg_key sg # ps_signature_keys st"
    by (simp add: fst_signature_step)
  have rest: "(\<forall>c \<in> set sgs. sg_key c \<notin> set (ps_signature_keys ?st) \<and> signature_ok packet c \<and>
        (\<forall>a \<in> set (sg_aliases c). ps_assigned ?st a = None)) \<longleftrightarrow>
      sg_key sg \<notin> sg_key ` set sgs \<and>
      (\<forall>c \<in> set sgs. sg_key c \<notin> set (ps_signature_keys st) \<and> signature_ok packet c \<and>
        (\<forall>a \<in> set (sg_aliases c). ps_assigned st a = None)) \<and>
      (\<forall>c \<in> set sgs. set (sg_aliases sg) \<inter> set (sg_aliases c) = {})"
    unfolding keys list.set by (rule later_turns) (rule free)
  have step: "snd (signature_step packet st sg) = [] \<longleftrightarrow>
      sg_key sg \<notin> set (ps_signature_keys st) \<and> distinct (sg_aliases sg) \<and> signature_ok packet sg \<and>
      (\<forall>a \<in> set (sg_aliases sg). ps_assigned st a = None)"
    using signature_step_silent [OF Cons.prems] by (auto simp: signature_ok_def)
  show ?case
    by (simp add: case_prod_unfold IH rest step) blast
qed simp

definition omission_ok ::
  "fact_packet \<Rightarrow> string set \<Rightarrow> string set \<Rightarrow> planner_omission \<Rightarrow> bool" where
  "omission_ok packet assigned keys om =
     (om_reason om \<in> set omission_reasons \<and> om_alias om \<in> set (packet_aliases_of packet) \<and>
      om_alias om \<notin> set (covered_as MandatoryCore packet) \<and>
      om_alias om \<notin> set (covered_as MandatoryAny packet) \<and> om_alias om \<notin> assigned \<and>
      (\<forall>k. om_covered_by om = Some k \<longrightarrow> k = [] \<or> k \<in> keys))"

lemma fst_omission_step:
  "fst (omission_step packet st om) =
   (if om_alias om \<in> set (packet_aliases_of packet)
    then st\<lparr>ps_omitted := (ps_omitted st)(om_alias om \<mapsto> om_reason om)\<rparr> else st)"
  by (simp add: omission_step_def Let_def)

lemma omission_step_silent:
  "snd (omission_step packet st om) = [] \<longleftrightarrow>
   omission_ok packet {a. ps_assigned st a \<noteq> None}
     (set (ps_chapter_keys st) \<union> set (ps_signature_keys st)) om"
  by (cases "om_covered_by om") (auto simp: omission_step_def Let_def omission_ok_def)

lemma omissions_silent:
  "snd (report_loop (omission_step packet) st oms) = [] \<longleftrightarrow>
   (\<forall>om \<in> set oms. omission_ok packet {a. ps_assigned st a \<noteq> None}
     (set (ps_chapter_keys st) \<union> set (ps_signature_keys st)) om)"
  by (induction oms arbitrary: st)
    (simp_all add: case_prod_unfold omission_step_silent fst_omission_step)

lemma omissions_state:
  "fst (report_loop (omission_step packet) st oms) =
   st\<lparr>ps_omitted := ps_omitted (fst (report_loop (omission_step packet) st oms))\<rparr>"
proof (induction oms arbitrary: st)
  case (Cons om oms)
  show ?case
    by (simp add: case_prod_unfold) (subst Cons.IH, simp add: fst_omission_step)
qed simp

lemma omissions_omitted:
  "ps_omitted (fst (report_loop (omission_step packet) st oms)) a = None \<longleftrightarrow>
   ps_omitted st a = None \<and>
   (a \<in> set (packet_aliases_of packet) \<longrightarrow> a \<notin> om_alias ` set oms)"
  by (induction oms arbitrary: st) (auto simp: case_prod_unfold fst_omission_step)

section \<open>The contract\<close>

definition chapter_aliases :: "planner_output \<Rightarrow> string set" where
  "chapter_aliases output = (\<Union>ch \<in> set (po_chapters output). set (ch_aliases ch))"

definition signature_aliases :: "planner_output \<Rightarrow> string set" where
  "signature_aliases output = (\<Union>sg \<in> set (po_signatures output). set (sg_aliases sg))"

text \<open>
  What a valid plan is, without the walk: the counts, every chapter by itself, every alias in one
  place only, and the coverage each alias needs.
\<close>

definition plan_counts_ok :: "planner_output \<Rightarrow> fact_packet \<Rightarrow> bool" where
  "plan_counts_ok output packet =
     (po_schema_version output = ''0.7.0'' \<and>
      sc_chapters_min (fp_constraints packet) \<le> length (po_chapters output) \<and>
      length (po_chapters output) \<le> sc_chapters_max (fp_constraints packet) \<and>
      length (po_signatures output) \<le> sc_signatures_max (fp_constraints packet))"

definition plan_placed_once :: "planner_output \<Rightarrow> fact_packet \<Rightarrow> bool" where
  "plan_placed_once output packet =
     (sorted_wrt disjoint_aliases (po_chapters output) \<and>
      distinct (concat (map sg_aliases (po_signatures output))) \<and>
      chapter_aliases output \<inter> signature_aliases output = {} \<and>
      (\<forall>om \<in> set (po_omissions output).
         omission_ok packet (chapter_aliases output \<union> signature_aliases output)
           (ch_key ` set (po_chapters output) \<union> sg_key ` set (po_signatures output)) om))"

definition plan_covers :: "planner_output \<Rightarrow> fact_packet \<Rightarrow> bool" where
  "plan_covers output packet =
     (set (covered_as MandatoryCore packet) \<subseteq> chapter_aliases output \<and>
      set (covered_as MandatoryAny packet) \<subseteq> chapter_aliases output \<union> signature_aliases output \<and>
      set (covered_as Eligible packet) \<subseteq>
        chapter_aliases output \<union> signature_aliases output \<union> om_alias ` set (po_omissions output))"

definition plan_contract :: "planner_output \<Rightarrow> fact_packet \<Rightarrow> ontology_record list \<Rightarrow> bool" where
  "plan_contract output packet ontology =
     (plan_counts_ok output packet \<and>
      distinct (map ch_key (po_chapters output)) \<and> distinct (map sg_key (po_signatures output)) \<and>
      (\<forall>ch \<in> set (po_chapters output). chapter_content_ok packet ontology ch) \<and>
      (\<forall>sg \<in> set (po_signatures output). signature_ok packet sg) \<and>
      plan_placed_once output packet \<and> plan_covers output packet)"

lemma covered_packet: "a \<in> set (covered_as c packet) \<Longrightarrow> a \<in> set (packet_aliases_of packet)"
  by (auto simp: covered_as_def packet_aliases_of_def)

text \<open>The states between the loops.\<close>

definition after_chapters :: "planner_output \<Rightarrow> fact_packet \<Rightarrow> ontology_record list \<Rightarrow> plan_state" where
  "after_chapters output packet ontology =
     fst (report_loop (chapter_step packet ontology) plan_state0 (po_chapters output))"

definition after_signatures :: "planner_output \<Rightarrow> fact_packet \<Rightarrow> ontology_record list \<Rightarrow> plan_state" where
  "after_signatures output packet ontology =
     fst (report_loop (signature_step packet) (after_chapters output packet ontology) (po_signatures output))"

definition after_omissions :: "planner_output \<Rightarrow> fact_packet \<Rightarrow> ontology_record list \<Rightarrow> plan_state" where
  "after_omissions output packet ontology =
     fst (report_loop (omission_step packet) (after_signatures output packet ontology) (po_omissions output))"

lemma after_chapters_sel:
  "ps_chapter_keys (after_chapters output packet ontology) = rev (map ch_key (po_chapters output))"
  "ps_signature_keys (after_chapters output packet ontology) = []"
  "ps_omitted (after_chapters output packet ontology) = (\<lambda>_. None)"
  unfolding after_chapters_def by (subst chapters_state, simp add: plan_state0_def)+

lemma after_signatures_sel:
  "ps_chapter_keys (after_signatures output packet ontology) = rev (map ch_key (po_chapters output))"
  "ps_signature_keys (after_signatures output packet ontology) = rev (map sg_key (po_signatures output))"
  "ps_omitted (after_signatures output packet ontology) = (\<lambda>_. None)"
  unfolding after_signatures_def by (subst signatures_state, simp add: after_chapters_sel)+

lemma after_omissions_sel:
  "ps_chapter_keys (after_omissions output packet ontology) = rev (map ch_key (po_chapters output))"
  "ps_assigned (after_omissions output packet ontology) = ps_assigned (after_signatures output packet ontology)"
  unfolding after_omissions_def by (subst omissions_state, simp add: after_signatures_sel)+

lemma plan_failures_loops:
  "plan_failures output packet ontology = [] \<longleftrightarrow>
   plan_counts_ok output packet \<and>
   snd (report_loop (chapter_step packet ontology) plan_state0 (po_chapters output)) = [] \<and>
   snd (report_loop (signature_step packet) (after_chapters output packet ontology) (po_signatures output)) = [] \<and>
   snd (report_loop (omission_step packet) (after_signatures output packet ontology) (po_omissions output)) = [] \<and>
   (\<forall>a \<in> set (covered_as MandatoryCore packet). core_unassigned (after_omissions output packet ontology) a = []) \<and>
   (\<forall>a \<in> set (covered_as MandatoryAny packet). any_unassigned (after_omissions output packet ontology) a = []) \<and>
   (\<forall>a \<in> set (covered_as Eligible packet). eligible_unaccounted (after_omissions output packet ontology) a = [])"
  by (auto simp: plan_failures_def Let_def case_prod_unfold after_chapters_def after_signatures_def
      after_omissions_def plan_counts_ok_def)

lemma first_loop:
  assumes "\<forall>ch \<in> set (po_chapters output). ch_key ch \<noteq> []"
  shows "snd (report_loop (chapter_step packet ontology) plan_state0 (po_chapters output)) = [] \<longleftrightarrow>
    distinct (map ch_key (po_chapters output)) \<and>
    (\<forall>ch \<in> set (po_chapters output). chapter_content_ok packet ontology ch) \<and>
    sorted_wrt disjoint_aliases (po_chapters output)"
  using chapters_silent [OF chapters_seen0 assms] by (simp add: plan_state0_def)

lemma assigned_to_chapter:
  assumes "\<forall>ch \<in> set (po_chapters output). chapter_content_ok packet ontology ch"
  shows "ps_assigned (after_chapters output packet ontology) a = None \<longleftrightarrow> a \<notin> chapter_aliases output"
  using assms unfolding after_chapters_def chapters_assigned
  by (auto simp: plan_state0_def chapter_aliases_def chapter_content_ok_def)

lemma assigned_somewhere:
  assumes "\<forall>ch \<in> set (po_chapters output). chapter_content_ok packet ontology ch"
    and "\<forall>sg \<in> set (po_signatures output). signature_ok packet sg"
  shows "ps_assigned (after_signatures output packet ontology) a = None \<longleftrightarrow>
    a \<notin> chapter_aliases output \<union> signature_aliases output"
  using assms(2) assigned_to_chapter [OF assms(1)] unfolding after_signatures_def signatures_assigned
  by (auto simp: signature_aliases_def signature_ok_def)

lemma second_loop:
  assumes "\<forall>ch \<in> set (po_chapters output). chapter_content_ok packet ontology ch"
  shows "snd (report_loop (signature_step packet) (after_chapters output packet ontology) (po_signatures output)) = []
    \<longleftrightarrow> distinct (map sg_key (po_signatures output)) \<and>
      distinct (concat (map sg_aliases (po_signatures output))) \<and>
      (\<forall>sg \<in> set (po_signatures output). signature_ok packet sg) \<and>
      chapter_aliases output \<inter> signature_aliases output = {}"
  unfolding signatures_silent [OF after_chapters_sel(3)] assigned_to_chapter [OF assms] after_chapters_sel(2)
  by (auto simp: signature_aliases_def)

lemma core_home:
  assumes "\<forall>ch \<in> set (po_chapters output). ch_key ch \<noteq> []"
    and "\<forall>ch \<in> set (po_chapters output). chapter_content_ok packet ontology ch"
    and "\<forall>sg \<in> set (po_signatures output). signature_ok packet sg"
    and "a \<in> set (covered_as MandatoryCore packet)"
  shows "core_unassigned (after_omissions output packet ontology) a = [] \<longleftrightarrow> a \<in> chapter_aliases output"
proof -
  have "\<forall>sg \<in> set (po_signatures output). a \<notin> set (sg_aliases sg)"
    using assms(3,4) by (auto simp: signature_ok_def)
  then have home: "ps_assigned (after_signatures output packet ontology) a =
      ps_assigned (after_chapters output packet ontology) a"
    unfolding after_signatures_def by (rule signatures_assigned_other)
  have "chapters_seen (after_chapters output packet ontology)"
    unfolding after_chapters_def by (rule chapters_seen_loop [OF chapters_seen0 assms(1)])
  then show ?thesis
    using assigned_to_chapter [OF assms(2), of a]
    by (cases "ps_assigned (after_chapters output packet ontology) a")
      (auto simp: core_unassigned_def home after_omissions_sel chapters_seen_def after_chapters_sel)
qed

lemma plan_failures_Nil:
  assumes keys: "\<forall>ch \<in> set (po_chapters output). ch_key ch \<noteq> []"
  shows "plan_failures output packet ontology = [] \<longleftrightarrow> plan_contract output packet ontology"
proof (cases "(\<forall>ch \<in> set (po_chapters output). chapter_content_ok packet ontology ch) \<and>
    (\<forall>sg \<in> set (po_signatures output). signature_ok packet sg)")
  case True
  then have ch: "\<forall>ch \<in> set (po_chapters output). chapter_content_ok packet ontology ch"
    and sg: "\<forall>sg \<in> set (po_signatures output). signature_ok packet sg" by simp_all
  have omissions: "{a. ps_assigned (after_signatures output packet ontology) a \<noteq> None} =
      chapter_aliases output \<union> signature_aliases output"
    by (simp only: assigned_somewhere [OF ch sg] not_not Collect_mem_eq)
  have omitted: "ps_omitted (after_omissions output packet ontology) a = None \<longleftrightarrow>
      (a \<in> set (packet_aliases_of packet) \<longrightarrow> a \<notin> om_alias ` set (po_omissions output))" for a
    unfolding after_omissions_def omissions_omitted after_signatures_sel by simp
  have core: "(\<forall>a \<in> set (covered_as MandatoryCore packet).
        core_unassigned (after_omissions output packet ontology) a = []) \<longleftrightarrow>
      set (covered_as MandatoryCore packet) \<subseteq> chapter_aliases output"
    using core_home [OF keys ch sg] by blast
  have any: "(\<forall>a \<in> set (covered_as MandatoryAny packet).
        any_unassigned (after_omissions output packet ontology) a = []) \<longleftrightarrow>
      set (covered_as MandatoryAny packet) \<subseteq> chapter_aliases output \<union> signature_aliases output"
    using assigned_somewhere [OF ch sg] by (auto simp: any_unassigned_def after_omissions_sel)
  have eligible: "(\<forall>a \<in> set (covered_as Eligible packet).
        eligible_unaccounted (after_omissions output packet ontology) a = []) \<longleftrightarrow>
      set (covered_as Eligible packet) \<subseteq>
        chapter_aliases output \<union> signature_aliases output \<union> om_alias ` set (po_omissions output)"
    using assigned_somewhere [OF ch sg] covered_packet [of _ Eligible packet]
    by (auto simp: eligible_unaccounted_def after_omissions_sel subset_iff omitted)
  show ?thesis
    unfolding plan_failures_loops first_loop [OF keys] second_loop [OF ch] omissions_silent omissions
      core any eligible after_signatures_sel plan_contract_def plan_placed_once_def plan_covers_def
    by auto
next
  case False
  then show ?thesis
    unfolding plan_failures_loops first_loop [OF keys] plan_contract_def
    using second_loop [of "output" packet ontology] by blast
qed

lemma validate_plan_ok:
  assumes "\<forall>ch \<in> set (po_chapters out). ch_key ch \<noteq> []"
  shows "vr_ok (validate_pattern_plan out packet ontology) \<longleftrightarrow> plan_contract out packet ontology"
  using plan_failures_Nil [OF assms] by (simp add: validate_pattern_plan_def)

lemma chapters_holding:
  "sorted_wrt disjoint_aliases chs \<Longrightarrow>
   length (filter (\<lambda>ch. a \<in> set (ch_aliases ch)) chs) =
   (if \<exists>ch \<in> set chs. a \<in> set (ch_aliases ch) then 1 else 0)"
  by (induction chs) (auto simp: disjoint_aliases_def filter_empty_conv)

lemma signatures_holding:
  "distinct (concat (map sg_aliases sgs)) \<Longrightarrow>
   length (filter (\<lambda>sg. a \<in> set (sg_aliases sg)) sgs) =
   (if \<exists>sg \<in> set sgs. a \<in> set (sg_aliases sg) then 1 else 0)"
  by (induction sgs) (auto simp: filter_empty_conv)

lemma contract_places:
  assumes "plan_contract out packet ontology"
  shows "a \<in> chapter_aliases out \<union> signature_aliases out \<longrightarrow> a \<notin> om_alias ` set (po_omissions out)"
    and "a \<in> chapter_aliases out \<longrightarrow> a \<notin> signature_aliases out"
    and "a \<in> set (covered_as MandatoryCore packet) \<union> set (covered_as MandatoryAny packet) \<longrightarrow>
      a \<notin> om_alias ` set (po_omissions out)"
  using assms unfolding plan_contract_def plan_placed_once_def omission_ok_def by blast+

section \<open>The authorized rules\<close>

text \<open>A rule is grounded in a set of aliases when a feature carries it or its inputs are grounded.\<close>

inductive grounded :: "fact_packet \<Rightarrow> ontology_record list \<Rightarrow> string list \<Rightarrow> string \<Rightarrow> bool"
  for packet ontology aliases where
  direct: "rule \<in> set (direct_rules packet aliases) \<Longrightarrow> grounded packet ontology aliases rule"
| derived: "r \<in> set ontology \<Longrightarrow> or_meaning_class r = DerivedSynthesis \<Longrightarrow>
     (\<And>i. i \<in> set (or_input_meaning_ids r) \<Longrightarrow> grounded packet ontology aliases i) \<Longrightarrow>
     grounded packet ontology aliases (or_id r)"

lemma add_derived_grounded:
  "r \<in> set ontology \<Longrightarrow> \<forall>i \<in> set ids. grounded packet ontology aliases i \<Longrightarrow>
   \<forall>i \<in> set (add_derived r ids). grounded packet ontology aliases i"
  by (auto simp: add_derived_def list_all_iff intro!: grounded.derived)

lemma authorized_grounded:
  assumes "rule \<in> set (authorized_rules packet ontology aliases)"
  shows "grounded packet ontology aliases rule"
proof -
  have "set rs \<subseteq> set ontology \<Longrightarrow> \<forall>i \<in> set ids. grounded packet ontology aliases i \<Longrightarrow>
      \<forall>i \<in> set (fold add_derived rs ids). grounded packet ontology aliases i" for rs ids
  proof (induction rs arbitrary: ids)
    case (Cons r rs)
    then have "\<forall>i \<in> set (add_derived r ids). grounded packet ontology aliases i"
      by (intro add_derived_grounded) simp_all
    with Cons.IH Cons.prems(1) show ?case by simp
  qed simp
  from this [of ontology "direct_rules packet aliases"] show ?thesis
    using assms by (auto simp: authorized_rules_def intro: grounded.direct)
qed

text \<open>
  The converse needs the ontology to list a derived synthesis after its inputs.
\<close>

definition inputs_first :: "ontology_record list \<Rightarrow> bool" where
  "inputs_first ontology =
     list_all (\<lambda>i. or_meaning_class (ontology ! i) = DerivedSynthesis \<longrightarrow>
        set (or_input_meaning_ids (ontology ! i)) \<inter> or_id ` set (drop i ontology) = {})
       [0..<length ontology]"

lemma fold_add_derived_mono: "set ids \<subseteq> set (fold add_derived rs ids)"
proof (induction rs arbitrary: ids)
  case (Cons r rs)
  show ?case using Cons.IH [of "add_derived r ids"] by (auto simp: add_derived_def)
qed simp

lemma set_add_derived: "set (add_derived r ids) \<subseteq> insert (or_id r) (set ids)"
  by (auto simp: add_derived_def)

lemma fold_add_derived_new: "set (fold add_derived rs ids) \<subseteq> set ids \<union> or_id ` set rs"
proof (induction rs arbitrary: ids)
  case (Cons r rs)
  then show ?case
    using set_add_derived [of r ids] by fastforce
qed simp

lemma grounded_authorized:
  assumes "inputs_first ontology"
  shows "grounded packet ontology aliases rule \<Longrightarrow> rule \<in> set (authorized_rules packet ontology aliases)"
proof (induction rule: grounded.induct)
  case (direct rule)
  then show ?case
    using fold_add_derived_mono unfolding authorized_rules_def by blast
next
  case (derived r)
  then obtain n where n: "n < length ontology" "ontology ! n = r" by (auto simp: in_set_conv_nth)
  define ids where "ids = fold add_derived (take n ontology) (direct_rules packet aliases)"
  have split: "authorized_rules packet ontology aliases = fold add_derived (drop n ontology) ids"
    unfolding authorized_rules_def ids_def
    by (metis append_take_drop_id comp_apply fold_append)
  then have all: "authorized_rules packet ontology aliases =
      fold add_derived (drop (Suc n) ontology) (add_derived r ids)"
    using n Cons_nth_drop_Suc [of n ontology] by (metis comp_apply fold.simps(2))
  have later: "set (authorized_rules packet ontology aliases) \<subseteq> set ids \<union> or_id ` set (drop n ontology)"
    unfolding split by (rule fold_add_derived_new)
  have "set (or_input_meaning_ids r) \<inter> or_id ` set (drop n ontology) = {}"
    using assms derived.hyps(2) n unfolding inputs_first_def list_all_iff set_upt
    by (metis atLeastLessThan_iff zero_le)
  then have "set (or_input_meaning_ids r) \<subseteq> set ids"
    using derived.IH later by blast
  then have "or_id r \<in> set (add_derived r ids)"
    using derived.hyps(2) by (auto simp: add_derived_def list_all_iff)
  then show ?case
    unfolding all using fold_add_derived_mono by blast
qed

definition late_ontology :: "ontology_record list" where
  "late_ontology =
     [(example_record ''ont_top'' (any_feature FC_Position) SalienceHigh [])
        \<lparr>or_meaning_class := DerivedSynthesis, or_input_meaning_ids := [''ont_mid'']\<rparr>,
      (example_record ''ont_mid'' (any_feature FC_Position) SalienceHigh [])
        \<lparr>or_meaning_class := DerivedSynthesis, or_input_meaning_ids := [''ont_sun'']\<rparr>,
      example_record ''ont_sun'' ((any_feature FC_Position)\<lparr>pr_body := Some ''sun''\<rparr>) SalienceHigh []]"

section \<open>A valid plan\<close>

definition example_packet :: fact_packet where
  "example_packet = \<lparr>fp_schema_version = ''0.7.0'', fp_locale = ''en-US'',
     fp_effective_accuracy = Unknown, fp_suppressed_classes = [],
     fp_required_language_rule_ids = [''ont_uncertain''],
     fp_features =
       [\<lparr>pf_alias = ''f001'', pf_class = FC_Position, pf_fact = [], pf_coverage = MandatoryCore,
         pf_rule_ids = [''ont_sun''], pf_cluster_ids = []\<rparr>,
        \<lparr>pf_alias = ''f002'', pf_class = FC_Aspect, pf_fact = [], pf_coverage = Eligible,
         pf_rule_ids = [''ont_aspect''], pf_cluster_ids = []\<rparr>,
        \<lparr>pf_alias = ''f003'', pf_class = FC_Uncertainty, pf_fact = [], pf_coverage = MandatoryAny,
         pf_rule_ids = [''ont_uncertain''], pf_cluster_ids = []\<rparr>,
        \<lparr>pf_alias = ''f004'', pf_class = FC_Angle, pf_fact = [], pf_coverage = Eligible,
         pf_rule_ids = [''ont_angle''], pf_cluster_ids = []\<rparr>],
     fp_clusters = None,
     fp_constraints = \<lparr>sc_chapters_min = 2, sc_chapters_max = 6, sc_signatures_max = 8, sc_sparse = True\<rparr>\<rparr>"

definition example_chapter :: "string \<Rightarrow> string list \<Rightarrow> string \<Rightarrow> planner_chapter" where
  "example_chapter key aliases rule =
     \<lparr>ch_key = key, ch_title = ''A standing theme'', ch_purpose = ''Integrate.'', ch_aliases = aliases,
      ch_rule_ids = [rule], ch_derived_ids = [], ch_tension_ids = [rule @ ''#tension''],
      ch_resource_ids = [rule @ ''#resource''], ch_counter_ids = [rule @ ''#counter'']\<rparr>"

definition example_plan :: planner_output where
  "example_plan = \<lparr>po_schema_version = ''0.7.0'',
     po_chapters = [example_chapter ''chapter_01'' [''f001'', ''f003''] ''ont_sun'',
       example_chapter ''chapter_02'' [''f002''] ''ont_aspect''],
     po_signatures = [],
     po_omissions = [\<lparr>om_alias = ''f004'', om_reason = ''capacity_omitted'', om_covered_by = None\<rparr>]\<rparr>"

lemma example_plan_keys: "\<forall>ch \<in> set (po_chapters example_plan). ch_key ch \<noteq> []"
  by (simp add: example_plan_def example_chapter_def)

lemma example_plan_valid: "vr_ok (validate_pattern_plan example_plan example_packet example_ontology)"
  by code_simp

section \<open>Properties\<close>

text \<open>
  C1: for plans whose chapters have keys, as the planner contract requires, the validator
  accepts exactly the plans that meet the declarative contract: counts, chapter contents, one place
  per alias and coverage of every packet alias.
\<close>
theorem validate_plan_iff_contract:
  assumes "\<forall>ch \<in> set (po_chapters output). ch_key ch \<noteq> []"
  shows "vr_ok (validate_pattern_plan output packet ontology) \<longleftrightarrow> plan_contract output packet ontology"
  by (rule validate_plan_ok [OF assms])

theorem validate_plan_iff_contract_witness: "plan_contract example_plan example_packet example_ontology"
  using validate_plan_iff_contract [OF example_plan_keys, of example_packet example_ontology]
    example_plan_valid by simp

text \<open>
  in an accepted plan every feature of the packet has exactly one place: one chapter,
  one signature, or the omissions; a mandatory core feature is in a chapter, and no mandatory feature
  is omitted.
\<close>
theorem accepted_plan_places_every_feature:
  assumes "vr_ok (validate_pattern_plan output packet ontology)"
    and "\<forall>ch \<in> set (po_chapters output). ch_key ch \<noteq> []"
    and "f \<in> set (fp_features packet)"
  shows "length (filter (\<lambda>ch. pf_alias f \<in> set (ch_aliases ch)) (po_chapters output)) +
      length (filter (\<lambda>sg. pf_alias f \<in> set (sg_aliases sg)) (po_signatures output)) +
      (if pf_alias f \<in> om_alias ` set (po_omissions output) then 1 else 0) = 1 \<and>
    (pf_coverage f = MandatoryCore \<longrightarrow> pf_alias f \<in> chapter_aliases output) \<and>
    (pf_coverage f = MandatoryAny \<longrightarrow> pf_alias f \<notin> om_alias ` set (po_omissions output))"
proof -
  let ?a = "pf_alias f"
  have contract: "plan_contract output packet ontology"
    using assms(1) validate_plan_ok [OF assms(2)] by simp
  note places = contract_places [OF contract, of ?a]
  have "?a \<in> set (covered_as (pf_coverage f) packet)"
    using assms(3) by (auto simp: covered_as_def)
  moreover have "plan_covers output packet" "sorted_wrt disjoint_aliases (po_chapters output)"
    "distinct (concat (map sg_aliases (po_signatures output)))"
    using contract by (simp_all add: plan_contract_def plan_placed_once_def)
  ultimately have
    "?a \<in> chapter_aliases output \<union> signature_aliases output \<union> om_alias ` set (po_omissions output)"
    "pf_coverage f = MandatoryCore \<longrightarrow> ?a \<in> chapter_aliases output"
    "pf_coverage f = MandatoryAny \<longrightarrow> ?a \<notin> om_alias ` set (po_omissions output)"
    and "length (filter (\<lambda>ch. ?a \<in> set (ch_aliases ch)) (po_chapters output)) =
        (if ?a \<in> chapter_aliases output then 1 else 0)"
    "length (filter (\<lambda>sg. ?a \<in> set (sg_aliases sg)) (po_signatures output)) =
        (if ?a \<in> signature_aliases output then 1 else 0)"
    using places by (cases "pf_coverage f";
      auto simp: plan_covers_def chapters_holding signatures_holding chapter_aliases_def
        signature_aliases_def)+
  then show ?thesis
    using places by auto
qed

theorem accepted_plan_places_every_feature_witness:
  "length (filter (\<lambda>ch. ''f003'' \<in> set (ch_aliases ch)) (po_chapters example_plan)) +
   length (filter (\<lambda>sg. ''f003'' \<in> set (sg_aliases sg)) (po_signatures example_plan)) +
   (if ''f003'' \<in> om_alias ` set (po_omissions example_plan) then 1 else 0) = 1"
proof -
  let ?f = "fp_features example_packet ! 2"
  have f: "?f \<in> set (fp_features example_packet)" and a: "pf_alias ?f = ''f003''"
    by (simp_all add: example_packet_def)
  show ?thesis
    using conjunct1 [OF accepted_plan_places_every_feature [OF example_plan_valid example_plan_keys f]]
    unfolding a .
qed

text \<open>
  every ontology rule an accepted plan's chapter cites is grounded in the chapter's own
  features: it is a rule of one of them, or a derived synthesis all of whose inputs are grounded.
\<close>
theorem accepted_plan_cites_grounded_rules:
  assumes "vr_ok (validate_pattern_plan output packet ontology)"
    and "\<forall>ch \<in> set (po_chapters output). ch_key ch \<noteq> []"
    and "ch \<in> set (po_chapters output)" and "rule \<in> set (ch_rule_ids ch)"
  shows "grounded packet ontology (ch_aliases ch) rule"
proof -
  have "plan_contract output packet ontology"
    using assms(1) validate_plan_ok [OF assms(2)] by simp
  then have "rule \<in> set (authorized_rules packet ontology (ch_aliases ch))"
    using assms(3,4) by (auto simp: plan_contract_def chapter_content_ok_def)
  then show ?thesis
    by (rule authorized_grounded)
qed

theorem accepted_plan_cites_grounded_rules_witness:
  "grounded example_packet example_ontology [''f001'', ''f003''] ''ont_sun''"
  using accepted_plan_cites_grounded_rules [OF example_plan_valid example_plan_keys,
      of "po_chapters example_plan ! 0" "''ont_sun''"]
  by (simp add: example_plan_def example_chapter_def)

text \<open>
  over an ontology that lists every derived synthesis after its inputs,
  \<open>authorizedRules\<close> computes exactly the rules grounded in the aliases.
\<close>
theorem authorized_rules_iff_grounded:
  assumes "inputs_first ontology"
  shows "rule \<in> set (authorized_rules packet ontology aliases) \<longleftrightarrow> grounded packet ontology aliases rule"
  using authorized_grounded grounded_authorized [OF assms] by blast

theorem authorized_rules_iff_grounded_witness:
  "\<not> grounded example_packet (rev late_ontology) [''f002''] ''ont_top''"
proof -
  have "inputs_first (rev late_ontology)"
    "''ont_top'' \<notin> set (authorized_rules example_packet (rev late_ontology) [''f002''])"
    by code_simp+
  then show ?thesis
    using authorized_rules_iff_grounded by blast
qed


end
