(* ===== verification/Writer_Validation.thy ===== *)
theory Writer_Validation
  imports Plan_Validation
begin

text \<open>
  \<open>packages/pattern-engine/src/candidate-validate.ts\<close>: the deterministic validator of a
  writer output against the frozen plan, the packet and the ontology.
\<close>

section \<open>The validator\<close>

definition unit_words :: "prose_unit option \<Rightarrow> nat" where
  "unit_words u = (case u of None \<Rightarrow> 0 | Some v \<Rightarrow> word_count (pu_text v))"

definition chapter_words :: "writer_chapter \<Rightarrow> nat" where
  "chapter_words c =
     word_count (wc_summary c) + sum_list (map (\<lambda>s. word_count (ws_text s)) (wc_sections c)) +
     sum_list (map (\<lambda>u. word_count (pu_text u)) (wc_tensions c)) +
     sum_list (map (\<lambda>u. word_count (pu_text u)) (wc_resources c)) + word_count (pu_text (wc_counter c))"

text \<open>The aliases of every unit with the key its failures name.\<close>

definition collect_chapter_units :: "writer_chapter \<Rightarrow> (string \<times> string list) list" where
  "collect_chapter_units c =
     map (\<lambda>s. (ws_key s, ws_aliases s)) (wc_sections c) @
     mapi (\<lambda>i u. (wc_key c @ '':tension:'' @ nat_str i, pu_aliases u)) (wc_tensions c) @
     mapi (\<lambda>i u. (wc_key c @ '':resource:'' @ nat_str i, pu_aliases u)) (wc_resources c) @
     [(wc_key c @ '':counter'', pu_aliases (wc_counter c))]"

definition collect_units :: "writer_output \<Rightarrow> (string \<times> string list) list" where
  "collect_units out =
     concat (map collect_chapter_units (wo_chapters out)) @
     (case wo_uncertainty_note out of None \<Rightarrow> [] | Some u \<Rightarrow> [(''uncertainty'', pu_aliases u)])"

definition check_refs ::
  "fact_packet \<Rightarrow> ontology_record list \<Rightarrow> planner_chapter \<Rightarrow> string \<Rightarrow> string list \<Rightarrow> string list \<Rightarrow>
   failure list" where
  "check_refs packet ontology planned key aliases rules =
     fail_if (length aliases < 1) ''empty_claim_ledger'' key @
     concat (map (\<lambda>a. fail_if (a \<notin> set (ch_aliases planned) \<or>
         index_by pf_alias (fp_features packet) a = None) ''unassigned_alias'' (key @ '':'' @ a)) aliases) @
     concat (map (\<lambda>r.
         if r \<notin> or_id ` set ontology then [Failure ''unknown_rule'' (key @ '':'' @ r)]
         else fail_if (r \<notin> set (ch_rule_ids planned) \<and> r \<notin> set (ch_derived_ids planned))
           ''unauthorized_rule'' (key @ '':'' @ r)) rules)"

definition alias_used :: "writer_chapter \<Rightarrow> string \<Rightarrow> bool" where
  "alias_used c a =
     (list_ex (\<lambda>s. a \<in> set (ws_aliases s)) (wc_sections c) \<or>
      list_ex (\<lambda>u. a \<in> set (pu_aliases u)) (wc_tensions c) \<or>
      list_ex (\<lambda>u. a \<in> set (pu_aliases u)) (wc_resources c) \<or>
      a \<in> set (pu_aliases (wc_counter c)))"

text \<open>The running word total is the state of the chapter and signature loops.\<close>

definition writer_chapter_step ::
  "pattern_plan \<Rightarrow> fact_packet \<Rightarrow> ontology_record list \<Rightarrow> nat \<Rightarrow> writer_chapter \<Rightarrow> nat \<times> failure list"
where
  "writer_chapter_step plan packet ontology tot c =
     (case index_by ch_key (po_chapters plan) (wc_key c) of
        None \<Rightarrow> (tot, [Failure ''unknown_chapter_key'' (wc_key c)])
      | Some planned \<Rightarrow>
         (let key = wc_key c;
              chapter_min = (if sc_sparse (fp_constraints packet) then sparse_chapter_word_min
                else chapter_word_min);
              refs = check_refs packet ontology planned;
              words = chapter_words c
          in (tot + words,
              fail_if (title_char_max < length (wc_title c)) ''title_too_long'' key @
              fail_if (length (wc_sections c) < sections_min \<or> sections_max < length (wc_sections c))
                ''section_count'' key @
              fail_if (length (wc_tensions c) < 1 \<or> list_item_max < length (wc_tensions c))
                ''tension_count'' key @
              fail_if (list_item_max < length (wc_resources c)) ''resource_count'' key @
              concat (map (\<lambda>s.
                fail_if (paragraph_word_max < word_count (ws_text s)) ''paragraph_too_long'' (ws_key s) @
                refs (ws_key s) (ws_aliases s) (ws_rule_ids s)) (wc_sections c)) @
              concat (mapi (\<lambda>i u. refs (key @ '':t'' @ nat_str i) (pu_aliases u) (pu_rule_ids u))
                (wc_tensions c)) @
              concat (mapi (\<lambda>i u. refs (key @ '':r'' @ nat_str i) (pu_aliases u) (pu_rule_ids u))
                (wc_resources c)) @
              refs (key @ '':counter'') (pu_aliases (wc_counter c)) (pu_rule_ids (wc_counter c)) @
              fail_if (pu_claim_class (wc_counter c) \<noteq> ''counter_expression'') ''counter_class'' key @
              fail_if (words < chapter_min \<or> chapter_word_max < words) ''chapter_word_count''
                (key @ '':'' @ nat_str words) @
              concat (map (\<lambda>a. fail_if (\<not> alias_used c a) ''missing_planned_alias'' (key @ '':'' @ a))
                (ch_aliases planned)))))"

definition writer_signature_step ::
  "pattern_plan \<Rightarrow> nat \<Rightarrow> writer_signature \<Rightarrow> nat \<times> failure list" where
  "writer_signature_step plan tot g =
     (case index_by sg_key (po_signatures plan) (wg_key g) of
        None \<Rightarrow> (tot, [Failure ''unknown_signature_key'' (wg_key g)])
      | Some planned \<Rightarrow>
         (let words = word_count (wg_text g) in
          (tot + words,
           fail_if (words < signature_word_min \<or> signature_word_max < words)
             ''signature_word_count'' (wg_key g) @
           concat (map (\<lambda>a. fail_if (a \<notin> set (sg_aliases planned)) ''unassigned_alias''
             (wg_key g @ '':'' @ a)) (wg_aliases g)))))"

definition uncertainty_failures :: "prose_unit option \<Rightarrow> failure list" where
  "uncertainty_failures note =
     (case note of None \<Rightarrow> []
      | Some u \<Rightarrow>
          fail_if (unit_words note < uncertainty_word_min \<or> uncertainty_word_max < unit_words note)
            ''uncertainty_word_count'' (nat_str (unit_words note)) @
          fail_if (pu_claim_class u \<noteq> ''uncertainty'') ''uncertainty_class'' ''uncertainty_note'')"

definition candidate_failures ::
  "writer_output \<Rightarrow> pattern_plan \<Rightarrow> fact_packet \<Rightarrow> ontology_record list \<Rightarrow> failure list" where
  "candidate_failures out plan packet ontology =
     (let sparse = sc_sparse (fp_constraints packet);
          title = fail_if (title_char_max < length (wo_title out)) ''title_too_long'' ''document title'';
          version = fail_if (wo_schema_version out \<noteq> ''0.7.0'')
            ''schema_version'' ''writer schema_version must be 0.7.0'';
          mismatch = fail_if (length (wo_chapters out) \<noteq> length (po_chapters plan))
            ''chapter_mismatch'' ''writer chapters must match the frozen plan'';
          sig_mismatch = fail_if (length (wo_signatures out) \<noteq> length (po_signatures plan))
            ''signature_mismatch'' ''writer signatures must match the frozen plan'';
          note = wo_uncertainty_note out;
          missing_note = fail_if (fp_required_language_rule_ids packet \<noteq> [] \<and> note = None)
            ''missing_uncertainty_note'' ''uncertainty is required''
      in (case report_loop (writer_chapter_step plan packet ontology) (word_count (wo_title out))
            (wo_chapters out) of (total1, chapters) \<Rightarrow>
         (case report_loop (writer_signature_step plan) total1 (wo_signatures out) of
            (total2, signatures) \<Rightarrow>
          (let tot = total2 + unit_words note;
               min_total = (if sparse then sparse_total_word_min else total_word_min)
           in version @ title @ mismatch @ chapters @ sig_mismatch @ signatures @ missing_note @
              uncertainty_failures note @
              fail_if (tot < min_total \<or> total_word_max < tot) ''total_word_count'' (nat_str tot) @
              concat (map (\<lambda>(key, aliases). fail_if (length aliases < 1) ''empty_claim_ledger'' key)
                (collect_units out))))))"

definition validate_pattern_candidate ::
  "writer_output \<Rightarrow> pattern_plan \<Rightarrow> fact_packet \<Rightarrow> ontology_record list \<Rightarrow> validation_result" where
  "validate_pattern_candidate out plan packet ontology =
     validation_result (candidate_failures out plan packet ontology)"

section \<open>The contract\<close>

definition refs_ok ::
  "fact_packet \<Rightarrow> ontology_record list \<Rightarrow> planner_chapter \<Rightarrow> string list \<Rightarrow> string list \<Rightarrow> bool" where
  "refs_ok packet ontology planned aliases rules =
     (aliases \<noteq> [] \<and>
      set aliases \<subseteq> set (ch_aliases planned) \<inter> set (packet_aliases_of packet) \<and>
      set rules \<subseteq> or_id ` set ontology \<inter> (set (ch_rule_ids planned) \<union> set (ch_derived_ids planned)))"

lemma check_refs_Nil [simp]:
  "check_refs packet ontology planned key aliases rules = [] \<longleftrightarrow>
   refs_ok packet ontology planned aliases rules"
proof -
  have known: "(index_by pf_alias (fp_features packet) a = None) = (a \<notin> set (packet_aliases_of packet))" for a
    by (auto simp: index_by_None packet_aliases_of_def)
  have rule: "(if r \<notin> K then [F] else fail_if c x y) = [] \<longleftrightarrow> r \<in> K \<and> \<not> c" for r K F c x y
    by simp
  show ?thesis
    unfolding check_refs_def refs_ok_def append_is_Nil_conv silent_concat fail_if_Nil known rule
    by (simp add: not_less Suc_le_eq subset_iff) blast
qed

text \<open>The prose units of a chapter: their aliases with their rules.\<close>

definition chapter_units :: "writer_chapter \<Rightarrow> (string list \<times> string list) list" where
  "chapter_units c =
     map (\<lambda>s. (ws_aliases s, ws_rule_ids s)) (wc_sections c) @
     map (\<lambda>u. (pu_aliases u, pu_rule_ids u)) (wc_tensions c) @
     map (\<lambda>u. (pu_aliases u, pu_rule_ids u)) (wc_resources c) @
     [(pu_aliases (wc_counter c), pu_rule_ids (wc_counter c))]"

definition least_chapter_words :: "fact_packet \<Rightarrow> nat" where
  "least_chapter_words packet = (if sc_sparse (fp_constraints packet) then 150 else 250)"

definition writer_chapter_ok ::
  "fact_packet \<Rightarrow> ontology_record list \<Rightarrow> planner_chapter \<Rightarrow> writer_chapter \<Rightarrow> bool" where
  "writer_chapter_ok packet ontology planned c =
     (length (wc_title c) \<le> 90 \<and> length (wc_sections c) \<in> {2..6} \<and> length (wc_tensions c) \<in> {1..5} \<and>
      length (wc_resources c) \<le> 5 \<and> (\<forall>s \<in> set (wc_sections c). word_count (ws_text s) \<le> 180) \<and>
      (\<forall>u \<in> set (chapter_units c). refs_ok packet ontology planned (fst u) (snd u)) \<and>
      pu_claim_class (wc_counter c) = ''counter_expression'' \<and>
      chapter_words c \<in> {least_chapter_words packet..550} \<and>
      set (ch_aliases planned) \<subseteq> (\<Union>u \<in> set (chapter_units c). set (fst u)))"

lemma alias_used_units: "alias_used c a \<longleftrightarrow> a \<in> (\<Union>u \<in> set (chapter_units c). set (fst u))"
  by (auto simp: alias_used_def chapter_units_def list_ex_iff)

lemma ball_mapi: "(\<forall>y \<in> set (mapi f xs). P y) \<longleftrightarrow> (\<forall>i < length xs. P (f i (xs ! i)))"
  by (auto simp: set_mapi)

lemma mapi_refs_silent:
  "(\<forall>y \<in> set (mapi (\<lambda>i u. check_refs packet ontology planned (key i) (g u) (h u)) us). y = []) \<longleftrightarrow>
   (\<forall>u \<in> set us. refs_ok packet ontology planned (g u) (h u))"
  by (simp add: ball_mapi all_set_conv_all_nth)

lemma writer_chapter_silent:
  "snd (writer_chapter_step plan packet ontology tot c) = [] \<longleftrightarrow>
   (\<exists>planned. index_by ch_key (po_chapters plan) (wc_key c) = Some planned \<and>
      writer_chapter_ok packet ontology planned c)"
proof (cases "index_by ch_key (po_chapters plan) (wc_key c)")
  case (Some planned)
  have units: "(\<forall>u \<in> set (chapter_units c). refs_ok packet ontology planned (fst u) (snd u)) \<longleftrightarrow>
      (\<forall>s \<in> set (wc_sections c). refs_ok packet ontology planned (ws_aliases s) (ws_rule_ids s)) \<and>
      (\<forall>u \<in> set (wc_tensions c). refs_ok packet ontology planned (pu_aliases u) (pu_rule_ids u)) \<and>
      (\<forall>u \<in> set (wc_resources c). refs_ok packet ontology planned (pu_aliases u) (pu_rule_ids u)) \<and>
      refs_ok packet ontology planned (pu_aliases (wc_counter c)) (pu_rule_ids (wc_counter c))"
    by (simp add: chapter_units_def ball_Un conj_ac)
  have used: "set (ch_aliases planned) \<subseteq> (\<Union>u \<in> set (chapter_units c). set (fst u)) \<longleftrightarrow>
      (\<forall>a \<in> set (ch_aliases planned). alias_used c a)"
    by (auto simp: alias_used_units)
  have one: "(\<exists>p. index_by ch_key (po_chapters plan) (wc_key c) = Some p \<and>
      writer_chapter_ok packet ontology p c) \<longleftrightarrow> writer_chapter_ok packet ontology planned c"
    by (simp add: Some)
  show ?thesis
    unfolding one
    unfolding writer_chapter_ok_def units used
    by (simp add: writer_chapter_step_def Some Let_def mapi_refs_silent policy_defs least_chapter_words_def
        not_less Suc_le_eq ball_conj_distrib conj_ac)
qed (simp add: writer_chapter_step_def)

definition writer_signature_ok :: "planner_signature \<Rightarrow> writer_signature \<Rightarrow> bool" where
  "writer_signature_ok planned g =
     (word_count (wg_text g) \<in> {70..160} \<and> set (wg_aliases g) \<subseteq> set (sg_aliases planned))"

lemma writer_signature_silent:
  "snd (writer_signature_step plan tot g) = [] \<longleftrightarrow>
   (\<exists>planned. index_by sg_key (po_signatures plan) (wg_key g) = Some planned \<and> writer_signature_ok planned g)"
  by (cases "index_by sg_key (po_signatures plan) (wg_key g)")
    (auto simp: writer_signature_step_def Let_def policy_defs writer_signature_ok_def not_less)

text \<open>A loop whose reports do not depend on the running total.\<close>

lemma counting_loop:
  fixes weight :: "'a \<Rightarrow> nat"
  assumes "\<And>t x. snd (step t x) = [] \<longleftrightarrow> ok x"
    and "\<And>t x. ok x \<Longrightarrow> fst (step t x) = t + weight x"
  shows "snd (report_loop step t xs) = [] \<longleftrightarrow> (\<forall>x \<in> set xs. ok x)"
    and "\<forall>x \<in> set xs. ok x \<Longrightarrow> fst (report_loop step t xs) = t + sum_list (map weight xs)"
proof -
  show "snd (report_loop step t xs) = [] \<longleftrightarrow> (\<forall>x \<in> set xs. ok x)"
    by (induction xs arbitrary: t) (simp_all add: case_prod_unfold assms(1))
  show "\<forall>x \<in> set xs. ok x \<Longrightarrow> fst (report_loop step t xs) = t + sum_list (map weight xs)"
    by (induction xs arbitrary: t) (simp_all add: case_prod_unfold assms(2))
qed

definition document_words :: "writer_output \<Rightarrow> nat" where
  "document_words out =
     word_count (wo_title out) + sum_list (map chapter_words (wo_chapters out)) +
     sum_list (map (\<lambda>g. word_count (wg_text g)) (wo_signatures out)) + unit_words (wo_uncertainty_note out)"

definition note_ok :: "fact_packet \<Rightarrow> prose_unit option \<Rightarrow> bool" where
  "note_ok packet note =
     (case note of None \<Rightarrow> fp_required_language_rule_ids packet = []
      | Some u \<Rightarrow> word_count (pu_text u) \<in> {40..140} \<and> pu_claim_class u = ''uncertainty'' \<and> pu_aliases u \<noteq> [])"

definition least_total_words :: "fact_packet \<Rightarrow> nat" where
  "least_total_words packet = (if sc_sparse (fp_constraints packet) then 800 else 1500)"

definition candidate_contract ::
  "writer_output \<Rightarrow> pattern_plan \<Rightarrow> fact_packet \<Rightarrow> ontology_record list \<Rightarrow> bool" where
  "candidate_contract out plan packet ontology =
     (wo_schema_version out = ''0.7.0'' \<and> length (wo_title out) \<le> 90 \<and>
      length (wo_chapters out) = length (po_chapters plan) \<and>
      length (wo_signatures out) = length (po_signatures plan) \<and>
      (\<forall>c \<in> set (wo_chapters out). \<exists>planned.
         index_by ch_key (po_chapters plan) (wc_key c) = Some planned \<and>
         writer_chapter_ok packet ontology planned c) \<and>
      (\<forall>g \<in> set (wo_signatures out). \<exists>planned.
         index_by sg_key (po_signatures plan) (wg_key g) = Some planned \<and> writer_signature_ok planned g) \<and>
      note_ok packet (wo_uncertainty_note out) \<and>
      document_words out \<in> {least_total_words packet..4500})"

lemma collect_units_ledger:
  assumes "\<forall>c \<in> set (wo_chapters out). \<exists>planned. writer_chapter_ok packet ontology planned c"
  shows "(\<forall>(key, aliases) \<in> set (collect_units out). aliases \<noteq> []) \<longleftrightarrow>
    (\<forall>u. wo_uncertainty_note out = Some u \<longrightarrow> pu_aliases u \<noteq> [])"
proof -
  have "aliases \<noteq> []"
    if c: "c \<in> set (wo_chapters out)" and u: "(key, aliases) \<in> set (collect_chapter_units c)" for c key aliases
  proof -
    have "map snd (collect_chapter_units c) = map fst (chapter_units c)"
      by (simp add: collect_chapter_units_def chapter_units_def map_mapi mapi_const comp_def)
    from arg_cong [OF this, of set] u have "aliases \<in> fst ` set (chapter_units c)"
      by (metis list.set_map snd_conv imageI)
    then show ?thesis
      using assms c by (auto simp: writer_chapter_ok_def refs_ok_def)
  qed
  then show ?thesis
    by (cases "wo_uncertainty_note out") (auto simp: collect_units_def)
qed

lemma candidate_failures_Nil:
  "candidate_failures out plan packet ontology = [] \<longleftrightarrow> candidate_contract out plan packet ontology"
proof -
  let ?okc = "\<lambda>c. \<exists>planned. index_by ch_key (po_chapters plan) (wc_key c) = Some planned \<and>
         writer_chapter_ok packet ontology planned c"
  let ?okg = "\<lambda>g. \<exists>planned. index_by sg_key (po_signatures plan) (wg_key g) = Some planned \<and>
         writer_signature_ok planned g"
  let ?cs = "wo_chapters out" and ?gs = "wo_signatures out" and ?t = "word_count (wo_title out)"
  have cw: "fst (writer_chapter_step plan packet ontology t c) = t + chapter_words c" if "?okc c" for t c
    using that by (auto simp: writer_chapter_step_def Let_def)
  have gw: "fst (writer_signature_step plan t g) = t + word_count (wg_text g)" if "?okg g" for t g
    using that by (auto simp: writer_signature_step_def Let_def)
  note chapters = counting_loop [of "writer_chapter_step plan packet ontology" ?okc chapter_words,
      OF writer_chapter_silent cw]
  note sigs = counting_loop [of "writer_signature_step plan" ?okg "\<lambda>g. word_count (wg_text g)",
      OF writer_signature_silent gw]
  define t1 where "t1 = report_loop (writer_chapter_step plan packet ontology) ?t ?cs"
  define t2 where "t2 = report_loop (writer_signature_step plan) (fst t1) ?gs"
  let ?note = "wo_uncertainty_note out"
  have s1: "snd t1 = [] \<longleftrightarrow> (\<forall>c \<in> set ?cs. ?okc c)"
    unfolding t1_def by (rule chapters(1))
  have s2: "snd t2 = [] \<longleftrightarrow> (\<forall>g \<in> set ?gs. ?okg g)"
    unfolding t2_def by (rule sigs(1))
  have loops: "candidate_failures out plan packet ontology = [] \<longleftrightarrow>
      wo_schema_version out = ''0.7.0'' \<and> length (wo_title out) \<le> 90 \<and>
      length ?cs = length (po_chapters plan) \<and> length ?gs = length (po_signatures plan) \<and>
      snd t1 = [] \<and> snd t2 = [] \<and> (fp_required_language_rule_ids packet \<noteq> [] \<longrightarrow> ?note \<noteq> None) \<and>
      uncertainty_failures ?note = [] \<and>
      fst t2 + unit_words ?note \<in> {least_total_words packet..4500} \<and>
      (\<forall>(key, aliases) \<in> set (collect_units out). aliases \<noteq> [])"
    by (simp add: candidate_failures_def Let_def case_prod_unfold t1_def t2_def policy_defs
        least_total_words_def not_less Suc_le_eq) blast
  show ?thesis
  proof (cases "(\<forall>c \<in> set ?cs. ?okc c) \<and> (\<forall>g \<in> set ?gs. ?okg g)")
    case True
    then have words: "fst t2 + unit_words ?note = document_words out"
      using chapters(2) sigs(2) by (simp add: t1_def t2_def document_words_def)
    have ledger: "(\<forall>(key, aliases) \<in> set (collect_units out). aliases \<noteq> []) \<longleftrightarrow>
        (\<forall>u. ?note = Some u \<longrightarrow> pu_aliases u \<noteq> [])"
      using True by (intro collect_units_ledger) blast
    have noted: "note_ok packet ?note \<longleftrightarrow>
        (fp_required_language_rule_ids packet \<noteq> [] \<longrightarrow> ?note \<noteq> None) \<and> uncertainty_failures ?note = [] \<and>
        (\<forall>u. ?note = Some u \<longrightarrow> pu_aliases u \<noteq> [])"
      by (cases ?note) (auto simp: note_ok_def uncertainty_failures_def unit_words_def policy_defs not_less)
    show ?thesis
      unfolding loops words ledger candidate_contract_def noted s1 s2 by blast
  next
    case False
    then show ?thesis
      unfolding loops candidate_contract_def s1 s2 by blast
  qed
qed

section \<open>A valid candidate\<close>

definition words_text :: "nat \<Rightarrow> string" where
  "words_text n = concat (replicate n ''word '')"

lemma word_count_words_text: "word_count (words_text n) = n"
proof -
  have "word_starts False (words_text n) = n"
    by (induction n) (simp_all add: words_text_def is_ws_def)
  then show ?thesis by (simp add: word_count_starts)
qed

definition example_unit :: "string \<Rightarrow> nat \<Rightarrow> string list \<Rightarrow> string \<Rightarrow> prose_unit" where
  "example_unit claim n aliases rule =
     \<lparr>pu_text = words_text n, pu_claim_class = claim, pu_aliases = aliases, pu_rule_ids = [rule],
      pu_derived_ids = []\<rparr>"

definition example_section :: "string \<Rightarrow> string list \<Rightarrow> string \<Rightarrow> writer_section" where
  "example_section key aliases rule =
     \<lparr>ws_key = key, ws_text = words_text 170, ws_claim_class = ''reflective_interpretation'',
      ws_aliases = aliases, ws_rule_ids = [rule], ws_derived_ids = []\<rparr>"

definition example_writer_chapter :: "string \<Rightarrow> string list \<Rightarrow> string \<Rightarrow> writer_chapter" where
  "example_writer_chapter key aliases rule =
     \<lparr>wc_key = key, wc_title = ''A standing theme'', wc_summary = words_text 40,
      wc_sections = [example_section (key @ ''_s1'') aliases rule, example_section (key @ ''_s2'') aliases rule],
      wc_tensions = [example_unit ''tension'' 30 aliases rule], wc_resources = [],
      wc_counter = example_unit ''counter_expression'' 30 aliases rule\<rparr>"

definition example_candidate :: "writer_chapter list \<Rightarrow> writer_output" where
  "example_candidate chapters =
     \<lparr>wo_schema_version = ''0.7.0'', wo_title = ''Your Pattern'', wo_chapters = chapters,
      wo_signatures = [],
      wo_uncertainty_note = Some (example_unit ''uncertainty'' 40 [''f003''] ''ont_uncertain'')\<rparr>"

definition example_frozen :: pattern_plan where
  "example_frozen = planner_output.extend example_plan \<lparr>pl_plan_hash = [], pl_sparse_pattern = True\<rparr>"

definition first_chapter :: writer_chapter where
  "first_chapter = example_writer_chapter ''chapter_01'' [''f001'', ''f003''] ''ont_sun''"

definition second_chapter :: writer_chapter where
  "second_chapter = example_writer_chapter ''chapter_02'' [''f002''] ''ont_aspect''"

lemma chapter_words_example: "chapter_words (example_writer_chapter key aliases rule) = 440"
  by (simp add: chapter_words_def example_writer_chapter_def example_section_def example_unit_def
      word_count_words_text)

lemma units_example:
  "chapter_units (example_writer_chapter key aliases rule) = replicate 4 (aliases, [rule])"
  by (simp add: chapter_units_def example_writer_chapter_def example_section_def example_unit_def
      numeral_eq_Suc)

lemma example_chapter_ok:
  assumes "refs_ok packet ontology planned aliases [rule]" "set (ch_aliases planned) \<subseteq> set aliases"
    and "sc_sparse (fp_constraints packet)"
  shows "writer_chapter_ok packet ontology planned (example_writer_chapter key aliases rule)"
  using assms unfolding writer_chapter_ok_def chapter_words_example units_example least_chapter_words_def
  by (simp add: example_writer_chapter_def example_section_def example_unit_def word_count_words_text)

lemma example_chapters_ok:
  "index_by ch_key (po_chapters example_frozen) ''chapter_01'' =
     Some (example_chapter ''chapter_01'' [''f001'', ''f003''] ''ont_sun'')"
  "index_by ch_key (po_chapters example_frozen) ''chapter_02'' =
     Some (example_chapter ''chapter_02'' [''f002''] ''ont_aspect'')"
  "writer_chapter_ok example_packet example_ontology
     (example_chapter ''chapter_01'' [''f001'', ''f003''] ''ont_sun'') first_chapter"
  "writer_chapter_ok example_packet example_ontology
     (example_chapter ''chapter_02'' [''f002''] ''ont_aspect'') second_chapter"
  unfolding first_chapter_def second_chapter_def
  by (simp_all add: example_frozen_def example_plan_def planner_output.defs index_by_def js_map_get_def
      example_chapter_def)
    (rule example_chapter_ok; simp add: refs_ok_def example_packet_def example_ontology_def
      example_record_def packet_aliases_of_def)+

lemma wc_key_example: "wc_key first_chapter = ''chapter_01''" "wc_key second_chapter = ''chapter_02''"
  by (simp_all add: first_chapter_def second_chapter_def example_writer_chapter_def)

lemma example_contract:
  assumes "set chapters \<subseteq> {first_chapter, second_chapter}" "length chapters = 2"
  shows "candidate_contract (example_candidate chapters) example_frozen example_packet example_ontology"
proof -
  have "word_count ''Your Pattern'' = 2" by code_simp
  moreover have "chapter_words c = 440" if "c \<in> set chapters" for c
    using assms(1) that by (auto simp: first_chapter_def second_chapter_def chapter_words_example)
  then have "map chapter_words chapters = replicate 2 440"
    using assms(2) by (intro replicate_eqI) auto
  ultimately have "document_words (example_candidate chapters) = 922"
    by (simp add: document_words_def example_candidate_def unit_words_def example_unit_def
        word_count_words_text numeral_eq_Suc)
  moreover have "\<exists>planned. index_by ch_key (po_chapters example_frozen) (wc_key c) = Some planned \<and>
      writer_chapter_ok example_packet example_ontology planned c" if "c \<in> set chapters" for c
    using assms(1) that by (auto simp: example_chapters_ok wc_key_example)
  moreover have "note_ok example_packet (wo_uncertainty_note (example_candidate chapters))"
    by (simp add: note_ok_def example_candidate_def example_unit_def word_count_words_text)
  moreover have "length (po_chapters example_frozen) = 2" "po_signatures example_frozen = []"
    by (simp_all add: example_frozen_def example_plan_def planner_output.defs)
  moreover have "least_total_words example_packet = 800"
    by (simp add: least_total_words_def example_packet_def)
  ultimately show ?thesis
    using assms(2) by (simp add: candidate_contract_def example_candidate_def)
qed

lemma validate_candidate_ok:
  "vr_ok (validate_pattern_candidate out plan packet ontology) \<longleftrightarrow>
   candidate_contract out plan packet ontology"
  by (simp add: validate_pattern_candidate_def candidate_failures_Nil)

section \<open>Properties\<close>

text \<open>
  C2: the candidate validator accepts exactly the outputs that meet the declarative contract:
  as many chapters and signatures as the plan, every chapter planned and within its bounds, references
  inside the plan, the packet and the ontology, a note where one is required, and the word totals.
\<close>
theorem validate_candidate_iff_contract:
  "vr_ok (validate_pattern_candidate out plan packet ontology) \<longleftrightarrow>
   candidate_contract out plan packet ontology"
  by (simp add: validate_pattern_candidate_def candidate_failures_Nil)

text \<open>
  in an accepted candidate every prose unit of a chapter cites at least one alias, only
  aliases the planned chapter assigns and the packet holds, and only rules of the ontology the planned
  chapter carries; and every alias planned for the chapter is cited in it.
\<close>
theorem accepted_candidate_stays_inside_plan:
  assumes "vr_ok (validate_pattern_candidate out plan packet ontology)" and "c \<in> set (wo_chapters out)"
  shows "\<exists>planned \<in> set (po_chapters plan). ch_key planned = wc_key c \<and>
    (\<forall>u \<in> set (chapter_units c). fst u \<noteq> [] \<and>
       set (fst u) \<subseteq> set (ch_aliases planned) \<inter> set (packet_aliases_of packet) \<and>
       set (snd u) \<subseteq> or_id ` set ontology \<inter> (set (ch_rule_ids planned) \<union> set (ch_derived_ids planned))) \<and>
    (\<forall>a \<in> set (ch_aliases planned). \<exists>u \<in> set (chapter_units c). a \<in> set (fst u))"
proof -
  from assms obtain planned where planned: "index_by ch_key (po_chapters plan) (wc_key c) = Some planned"
    "writer_chapter_ok packet ontology planned c"
    unfolding validate_candidate_ok candidate_contract_def by blast
  show ?thesis
    using index_by_Some [OF planned(1)] planned(2)
    by (intro bexI [of _ planned]) (auto simp: writer_chapter_ok_def refs_ok_def)
qed

theorem accepted_candidate_stays_inside_plan_witness:
  "\<exists>planned \<in> set (po_chapters example_frozen). ch_key planned = ''chapter_02'' \<and>
    (\<forall>a \<in> set (ch_aliases planned). \<exists>u \<in> set (chapter_units second_chapter). a \<in> set (fst u))"
proof -
  have ok: "vr_ok (validate_pattern_candidate (example_candidate [first_chapter, second_chapter])
      example_frozen example_packet example_ontology)"
    unfolding validate_candidate_ok by (rule example_contract) simp_all
  have c: "second_chapter \<in> set (wo_chapters (example_candidate [first_chapter, second_chapter]))"
    by (simp add: example_candidate_def)
  show ?thesis
    using accepted_candidate_stays_inside_plan [OF ok c] unfolding wc_key_example by blast
qed

text \<open>
  C35: the validator compares the number of chapters and looks every key up, but not that the
  keys differ: it accepts a candidate that writes one planned chapter twice and another not at all.
\<close>
theorem candidate_may_miss_a_planned_chapter:
  "vr_ok (validate_pattern_candidate (example_candidate [first_chapter, first_chapter])
     example_frozen example_packet example_ontology) \<and>
   ''chapter_02'' \<in> ch_key ` set (po_chapters example_frozen) \<and>
   ''chapter_02'' \<notin> wc_key ` set (wo_chapters (example_candidate [first_chapter, first_chapter]))"
proof -
  have "candidate_contract (example_candidate [first_chapter, first_chapter])
      example_frozen example_packet example_ontology"
    by (rule example_contract) simp_all
  moreover have "''chapter_02'' \<in> ch_key ` set (po_chapters example_frozen)"
    by (simp add: example_frozen_def example_plan_def example_chapter_def planner_output.defs)
  ultimately show ?thesis
    by (simp add: validate_candidate_ok example_candidate_def wc_key_example)
qed

end
