(* ===== verification/Synthetic.thy ===== *)
theory Synthetic
  imports Writer_Validation
begin

text \<open>
  \<open>packages/pattern-engine/src/synthetic.ts\<close>: the deterministic planner and writer of the
  synthetic publisher. Where the code would throw a \<open>TypeError\<close> (a packet without features, a
  chapter maximum of zero) the plan is \<open>None\<close>.
\<close>

section \<open>Padding and keys\<close>

definition filler :: string where
  "filler = ''This remains a calculated pattern rather than a prediction of events, and it describes a tendency the chart already contains.''"

text \<open>The padding loop returns because the filler has words (\<open>pad_returns\<close>).\<close>

definition pad_filler :: "string \<Rightarrow> nat \<Rightarrow> string" where
  "pad_filler text least = the (pad_to_min_words text least filler)"

lemma filler_words: "word_count filler = 20"
  by code_simp

lemma pad_returns:
  "\<exists>r. pad_to_min_words text least filler = Some r \<and> least \<le> word_count r \<and>
     word_count text \<le> word_count r \<and> word_count r < max (Suc (word_count text)) (least + 20)"
  using pad_loop_returns [of "js_trim filler" "js_trim text" least]
  by (auto simp: pad_to_min_words_def filler_words)

lemma pad_filler_words:
  "least \<le> word_count (pad_filler text least)"
  "word_count (pad_filler text least) < max (Suc (word_count text)) (least + 20)"
  using pad_returns [of "text" least] by (auto simp: pad_filler_def)

definition chapter_key :: "nat \<Rightarrow> string" where
  "chapter_key index = ''chapter_'' @ pad_start 2 (CHR ''0'') (nat_str (index + 1))"

definition signature_key :: "nat \<Rightarrow> string" where
  "signature_key index = ''signature_'' @ pad_start 2 (CHR ''0'') (nat_str (index + 1))"

lemma chapter_key_inj: "chapter_key i = chapter_key j \<Longrightarrow> i = j"
  by (auto simp: chapter_key_def dest: inj_pad_nat_str)

section \<open>The seeds of the chapters\<close>

text \<open>\<open>while (seeds.length > max)\<close>: the last seed's new aliases move to the one before it.\<close>

function merge_seeds :: "nat \<Rightarrow> string list list \<Rightarrow> string list list option" where
  "merge_seeds most seeds =
     (if length seeds \<le> most then Some seeds
      else (let rest = butlast seeds; end = last seeds in
        if rest = [] then None
        else merge_seeds most
          (butlast rest @ [last rest @ filter (\<lambda>a. a \<notin> set (last rest)) end])))"
  by pat_completeness auto
termination
  by (relation "measure (\<lambda>(most, seeds). length seeds)", simp) (auto simp flip: length_greater_0_conv)

declare merge_seeds.simps [simp del]

definition largest_seed :: "string list list \<Rightarrow> nat" where
  "largest_seed seeds =
     foldl (\<lambda>best i. if length (seeds ! best) < length (seeds ! i) then i else best) 0 [0..<length seeds]"

text \<open>
  \<open>while (seeds.length < min)\<close>: the second half of the first largest seed becomes a seed,
  unless no seed has two aliases.
\<close>

function split_seeds :: "nat \<Rightarrow> string list list \<Rightarrow> string list list" where
  "split_seeds least seeds =
     (if least \<le> length seeds then seeds
      else (let k = largest_seed seeds; n = (if seeds = [] then 0 else length (seeds ! k)) in
        if n < 2 then seeds
        else split_seeds least
          (seeds[k := take ((n + 1) div 2) (seeds ! k)] @ [drop ((n + 1) div 2) (seeds ! k)])))"
  by pat_completeness auto
termination
  by (relation "measure (\<lambda>(least, seeds). least - length seeds)") auto

declare split_seeds.simps [simp del]

definition uncertainty_aliases :: "fact_packet \<Rightarrow> string list" where
  "uncertainty_aliases packet =
     uniq (map pf_alias (filter (\<lambda>f. pf_class f = FC_Uncertainty) (fp_features packet)))"

text \<open>The seeds before the two loops: the clusters without uncertainty, then what they leave.\<close>

definition cluster_seeds :: "fact_packet \<Rightarrow> string list list" where
  "cluster_seeds packet =
     (let uncertainty = uncertainty_aliases packet;
          plain = map pf_alias (filter (\<lambda>f. pf_alias f \<notin> set uncertainty) (fp_features packet));
          seeds = filter (\<lambda>as. as \<noteq> [])
            (map (\<lambda>c. filter (\<lambda>a. a \<notin> set uncertainty) (pc_aliases c)) (orelse (fp_clusters packet) []));
          leftover = filter (\<lambda>a. \<not> list_ex (\<lambda>seed. a \<in> set seed) seeds) plain;
          seeds1 = seeds @ (if leftover \<noteq> [] then [leftover] else [])
      in if seeds1 = [] \<and> fp_features packet \<noteq> [] then [plain] else seeds1)"

text \<open>The uncertainty aliases join the first seed that has aliases, or the first one.\<close>

fun host_uncertainty :: "string list \<Rightarrow> string list list \<Rightarrow> string list list option" where
  "host_uncertainty unc [] = (if unc = [] then Some [] else None)"
| "host_uncertainty unc (s # ss) =
     (if unc = [] then Some (s # ss)
      else if s \<noteq> [] \<or> list_all (\<lambda>t. t = []) ss
        then Some ((s @ filter (\<lambda>a. a \<notin> set s) unc) # ss)
      else map_option (\<lambda>ts. s # ts) (host_uncertainty unc ss))"

definition chapter_seeds :: "fact_packet \<Rightarrow> string list list option" where
  "chapter_seeds packet =
     (case merge_seeds (sc_chapters_max (fp_constraints packet)) (cluster_seeds packet) of
        None \<Rightarrow> None
      | Some merged \<Rightarrow>
         (let seeds = split_seeds (sc_chapters_min (fp_constraints packet)) merged;
              seeds1 = (if seeds = [] then [map pf_alias (fp_features packet)] else seeds)
          in host_uncertainty (uncertainty_aliases packet) seeds1))"

section \<open>The planner\<close>

definition seed_chapter ::
  "fact_packet \<Rightarrow> ontology_record list \<Rightarrow> nat \<Rightarrow> string list \<Rightarrow> planner_chapter option" where
  "seed_chapter packet ontology index aliases =
     (if aliases = [] \<and> fp_features packet = [] then None
      else
        (let usable = (if aliases \<noteq> [] then aliases else [pf_alias (hd (fp_features packet))]);
             features = filter (\<lambda>f. pf_alias f \<in> set usable) (fp_features packet);
             rule_ids = uniq (concat (map pf_rule_ids features));
             records = List.map_filter (index_by or_id ontology) rule_ids;
             tension = List.find (\<lambda>r. or_tensions r \<noteq> []) records;
             counter = List.find (\<lambda>r. or_counter_expressions r \<noteq> []) records;
             resource = List.find (\<lambda>r. or_proposition r \<noteq> []) records;
             body = (case List.find (\<lambda>f. pf_class f \<noteq> FC_Uncertainty) features of
               None \<Rightarrow> ''pattern'' | Some f \<Rightarrow> feature_class_str (pf_class f))
         in Some \<lparr>ch_key = chapter_key index, ch_title = ''A standing '' @ body @ '' theme'',
              ch_purpose = ''Integrate the selected calculated evidence without inventing facts or personal context.'',
              ch_aliases = usable, ch_rule_ids = rule_ids,
              ch_derived_ids = filter (\<lambda>i. case index_by or_id ontology i of
                None \<Rightarrow> False | Some r \<Rightarrow> or_meaning_class r = DerivedSynthesis) rule_ids,
              ch_tension_ids = (case tension of Some r \<Rightarrow> [or_id r @ ''#tension'']
                | None \<Rightarrow> map (\<lambda>i. i @ ''#tension'') (take 1 rule_ids)),
              ch_resource_ids = (case resource of Some r \<Rightarrow> [or_id r @ ''#resource''] | None \<Rightarrow> []),
              ch_counter_ids = (case counter of Some r \<Rightarrow> [or_id r @ ''#counter'']
                | None \<Rightarrow> map (\<lambda>i. i @ ''#counter'') (take 1 rule_ids))\<rparr>))"

text \<open>\<open>seeds.map\<close> of a function that may throw.\<close>

fun map_opt :: "('a \<Rightarrow> 'b option) \<Rightarrow> 'a list \<Rightarrow> 'b list option" where
  "map_opt f [] = Some []"
| "map_opt f (x # xs) =
     (case f x of None \<Rightarrow> None | Some y \<Rightarrow> map_option (\<lambda>ys. y # ys) (map_opt f xs))"

definition build_deterministic_plan ::
  "fact_packet \<Rightarrow> ontology_record list \<Rightarrow> planner_output option" where
  "build_deterministic_plan packet ontology =
     (case chapter_seeds packet of
        None \<Rightarrow> None
      | Some seeds \<Rightarrow>
         (case map_opt (\<lambda>(i, s). seed_chapter packet ontology i s) (enumerate 0 seeds) of
            None \<Rightarrow> None
          | Some chapters \<Rightarrow>
              Some \<lparr>po_schema_version = m7_schema_version, po_chapters = chapters, po_signatures = [],
                po_omissions = map (\<lambda>f. \<lparr>om_alias = pf_alias f, om_reason = ''capacity_omitted'',
                    om_covered_by = None\<rparr>)
                  (filter (\<lambda>f. pf_coverage f = Eligible \<and> pf_alias f \<notin> set (concat seeds))
                    (fp_features packet))\<rparr>))"

section \<open>The writer\<close>

definition synthetic_unit ::
  "string \<Rightarrow> string \<Rightarrow> nat \<Rightarrow> string list \<Rightarrow> string list \<Rightarrow> prose_unit" where
  "synthetic_unit claim text least aliases rules =
     \<lparr>pu_text = pad_filler text least, pu_claim_class = claim, pu_aliases = aliases,
      pu_rule_ids = rules, pu_derived_ids = []\<rparr>"

definition synthetic_section ::
  "nat \<Rightarrow> planner_chapter \<Rightarrow> string \<Rightarrow> string \<Rightarrow> writer_section" where
  "synthetic_section least ch key text =
     \<lparr>ws_key = key, ws_text = pad_filler text ((least + 2) div 3),
      ws_claim_class = ''reflective_interpretation'', ws_aliases = ch_aliases ch,
      ws_rule_ids = ch_rule_ids ch, ws_derived_ids = ch_derived_ids ch\<rparr>"

text \<open>The record whose texts the chapter uses: that of its first rule, else the ontology's first.\<close>

definition chapter_record :: "ontology_record list \<Rightarrow> planner_chapter \<Rightarrow> ontology_record option" where
  "chapter_record ontology ch =
     (case index_by or_id ontology (case ch_rule_ids ch of [] \<Rightarrow> [] | r # _ \<Rightarrow> r) of
        Some r \<Rightarrow> Some r
      | None \<Rightarrow> (case ontology of [] \<Rightarrow> None | r # _ \<Rightarrow> Some r))"

definition first_of :: "string list option \<Rightarrow> string \<Rightarrow> string" where
  "first_of xs d = (case xs of Some (x # _) \<Rightarrow> x | _ \<Rightarrow> d)"

definition synthetic_chapter ::
  "nat \<Rightarrow> ontology_record list \<Rightarrow> planner_chapter \<Rightarrow> writer_chapter" where
  "synthetic_chapter least ontology ch =
     (let record = chapter_record ontology ch;
          proposition = (case record of Some r \<Rightarrow> or_proposition r
            | None \<Rightarrow> ''This configuration describes a standing tendency.'');
          tension = first_of (map_option or_tensions record)
            ''The same structure can pull in two directions at once.'';
          counter = first_of (map_option or_counter_expressions record)
            ''The same structure can read as discipline rather than conflict.'';
          aliases = ch_aliases ch; rules = ch_rule_ids ch
      in \<lparr>wc_key = ch_key ch, wc_title = take 90 (ch_title ch),
          wc_summary = pad_filler (''This chapter holds '' @ proposition) 40,
          wc_sections =
            [synthetic_section least ch (ch_key ch @ ''_section_01'')
               (''The calculated evidence points to '' @ proposition),
             synthetic_section least ch (ch_key ch @ ''_section_02'')
               ''How that tendency is used remains a matter of attention, not fate.''],
          wc_tensions = [synthetic_unit ''tension'' tension 30 aliases rules],
          wc_resources = [synthetic_unit ''resource'' proposition 30 aliases rules],
          wc_counter = synthetic_unit ''counter_expression'' counter 30 aliases rules\<rparr>)"

definition build_deterministic_writer_output ::
  "planner_output \<Rightarrow> fact_packet \<Rightarrow> ontology_record list \<Rightarrow> writer_output" where
  "build_deterministic_writer_output plan packet ontology =
     (let least = (if sc_sparse (fp_constraints packet) then sparse_chapter_word_min else chapter_word_min)
      in \<lparr>wo_schema_version = m7_schema_version, wo_title = ''Your Pattern'',
          wo_chapters = map (synthetic_chapter least ontology) (po_chapters plan),
          wo_signatures = map (\<lambda>g.
            \<lparr>wg_key = sg_key g, wg_title = take 90 (sg_title g),
             wg_text = pad_filler
               ''A quieter calculated signature remains present without becoming a major theme.''
               signature_word_min,
             wg_aliases = sg_aliases g, wg_rule_ids = sg_rule_ids g\<rparr>) (po_signatures plan),
          wo_uncertainty_note =
            (case List.find (\<lambda>f. pf_class f = FC_Uncertainty) (fp_features packet) of
               None \<Rightarrow> None
             | Some f \<Rightarrow> Some (synthetic_unit ''uncertainty''
                 ''Birth-time accuracy limits what this Pattern can say about houses, angles, and time-sensitive claims.''
                 uncertainty_word_min [pf_alias f] (pf_rule_ids f)))\<rparr>)"

section \<open>The seeds keep every alias\<close>

lemma merge_seeds_set:
  "merge_seeds most seeds = Some r \<Longrightarrow> set (concat r) = set (concat seeds)"
proof (induction most seeds rule: merge_seeds.induct)
  case (1 most seeds)
  show ?case
  proof (cases "length seeds \<le> most")
    case False
    define rest where "rest = butlast seeds"
    let ?seeds = "butlast rest @ [last rest @ filter (\<lambda>a. a \<notin> set (last rest)) (last seeds)]"
    from False have rest: "rest \<noteq> []" "merge_seeds most ?seeds = Some r"
      using "1.prems" by (auto simp: merge_seeds.simps [of most seeds] rest_def Let_def split: if_splits)
    then have "set (concat r) = set (concat ?seeds)"
      using "1.IH" [OF False rest_def refl] by simp
    also have "\<dots> = set (concat rest) \<union> set (last seeds)"
      using rest(1) by (cases rest rule: rev_cases) auto
    also have "\<dots> = set (concat seeds)"
      using rest(1) by (cases seeds rule: rev_cases) (auto simp: rest_def)
    finally show ?thesis .
  qed (use "1.prems" in \<open>simp add: merge_seeds.simps [of most seeds]\<close>)
qed

lemma merge_seeds_total:
  "0 < most \<Longrightarrow> \<exists>r. merge_seeds most seeds = Some r \<and> length r \<le> most \<and> length r \<le> length seeds"
proof (induction most seeds rule: merge_seeds.induct)
  case (1 most seeds)
  show ?case
  proof (cases "length seeds \<le> most")
    case False
    define rest where "rest = butlast seeds"
    have rest: "rest \<noteq> []"
      using False "1.prems" by (auto simp: rest_def simp flip: length_greater_0_conv)
    let ?seeds = "butlast rest @ [last rest @ filter (\<lambda>a. a \<notin> set (last rest)) (last seeds)]"
    obtain r where "merge_seeds most ?seeds = Some r" "length r \<le> most" "length r \<le> length ?seeds"
      using "1.IH" [OF False rest_def refl rest] "1.prems" by blast
    moreover have "length ?seeds \<le> length seeds"
      using False "1.prems" by (simp add: rest_def)
    ultimately show ?thesis
      using False rest by (simp add: merge_seeds.simps [of most seeds] rest_def [symmetric] Let_def)
  qed (simp add: merge_seeds.simps [of most seeds])
qed

lemma largest_seed_bound:
  assumes "seeds \<noteq> []"
  shows "largest_seed seeds < length seeds"
proof -
  have "best < length seeds \<Longrightarrow> \<forall>i \<in> set is. i < length seeds \<Longrightarrow>
      foldl (\<lambda>best i. if length (seeds ! best) < length (seeds ! i) then i else best) best is < length seeds"
    for best "is"
    by (induction "is" arbitrary: best) auto
  from this [of 0 "[0..<length seeds]"] show ?thesis
    using assms by (simp add: largest_seed_def)
qed

lemma set_concat_split:
  "k < length seeds \<Longrightarrow> set a \<union> set b = set (seeds ! k) \<Longrightarrow>
   set (concat (seeds[k := a] @ [b])) = set (concat seeds)"
proof (induction seeds arbitrary: k)
  case (Cons s seeds)
  show ?case
  proof (cases k)
    case 0
    with Cons.prems show ?thesis by auto
  next
    case (Suc j)
    then have "set (concat (seeds[j := a] @ [b])) = set (concat seeds)"
      using Cons.IH [of j] Cons.prems by simp
    with Suc show ?thesis by auto
  qed
qed simp

lemma split_seeds_set: "set (concat (split_seeds least seeds)) = set (concat seeds)"
proof (induction least seeds rule: split_seeds.induct)
  case (1 least seeds)
  let ?k = "largest_seed seeds" and ?n = "if seeds = [] then 0 else length (seeds ! largest_seed seeds)"
  show ?case
  proof (cases "least \<le> length seeds \<or> ?n < 2")
    case True
    then show ?thesis by (auto simp: split_seeds.simps [of least seeds] Let_def)
  next
    case False
    then have "?k < length seeds" by (auto intro: largest_seed_bound split: if_splits)
    moreover have "set (take m xs) \<union> set (drop m xs) = set xs" for m and xs :: "string list"
      by (metis append_take_drop_id set_append)
    ultimately have "set (concat (seeds[?k := take ((?n + 1) div 2) (seeds ! ?k)] @
        [drop ((?n + 1) div 2) (seeds ! ?k)])) = set (concat seeds)"
      by (rule set_concat_split)
    with False "1.IH" [of ?k ?n] show ?thesis
      by (simp add: split_seeds.simps [of least seeds] Let_def)
  qed
qed

lemma split_seeds_length: "length (split_seeds least seeds) \<le> max least (length seeds)"
proof (induction least seeds rule: split_seeds.induct)
  case (1 least seeds)
  let ?k = "largest_seed seeds" and ?n = "if seeds = [] then 0 else length (seeds ! largest_seed seeds)"
  show ?case
  proof (cases "least \<le> length seeds \<or> ?n < 2")
    case True
    then show ?thesis by (auto simp: split_seeds.simps [of least seeds] Let_def)
  next
    case False
    with "1.IH" [of ?k ?n] show ?thesis
      by (simp add: split_seeds.simps [of least seeds] Let_def)
  qed
qed

lemma host_uncertainty_total:
  "seeds \<noteq> [] \<Longrightarrow> \<exists>r. host_uncertainty unc seeds = Some r \<and> length r = length seeds \<and>
     set (concat r) = set (concat seeds) \<union> set unc"
proof (induction unc seeds rule: host_uncertainty.induct)
  case (2 unc s ss)
  consider "unc = []" | "unc \<noteq> []" "s \<noteq> [] \<or> list_all (\<lambda>t. t = []) ss"
    | "unc \<noteq> []" "\<not> (s \<noteq> [] \<or> list_all (\<lambda>t. t = []) ss)" by blast
  then show ?case
  proof cases
    case 3
    then have "ss \<noteq> []" by auto
    with 3 2 show ?thesis by auto
  qed auto
qed simp

lemma cluster_seeds_cover:
  "set (packet_aliases_of packet) \<subseteq> set (concat (cluster_seeds packet)) \<union> set (uncertainty_aliases packet)"
proof
  fix a assume a: "a \<in> set (packet_aliases_of packet)"
  define seeds where "seeds = filter (\<lambda>as. as \<noteq> [])
    (map (\<lambda>c. filter (\<lambda>a. a \<notin> set (uncertainty_aliases packet)) (pc_aliases c)) (orelse (fp_clusters packet) []))"
  define plain where "plain =
    map pf_alias (filter (\<lambda>f. pf_alias f \<notin> set (uncertainty_aliases packet)) (fp_features packet))"
  define leftover where "leftover = filter (\<lambda>a. \<not> list_ex (\<lambda>seed. a \<in> set seed) seeds) plain"
  have result: "cluster_seeds packet =
      (if seeds @ (if leftover \<noteq> [] then [leftover] else []) = [] \<and> fp_features packet \<noteq> [] then [plain]
       else seeds @ (if leftover \<noteq> [] then [leftover] else []))"
    by (simp add: cluster_seeds_def Let_def seeds_def plain_def leftover_def)
  have "a \<in> set (uncertainty_aliases packet) \<or> a \<in> set plain"
    using a by (auto simp: plain_def packet_aliases_of_def)
  moreover have "a \<in> set plain \<Longrightarrow> a \<in> set (concat seeds) \<or> a \<in> set leftover"
    by (auto simp: leftover_def list_ex_iff)
  ultimately show "a \<in> set (concat (cluster_seeds packet)) \<union> set (uncertainty_aliases packet)"
    unfolding result by (cases "leftover = []") auto
qed

lemma chapter_seeds_total:
  assumes "0 < sc_chapters_max (fp_constraints packet)"
  shows "\<exists>seeds. chapter_seeds packet = Some seeds \<and> seeds \<noteq> [] \<and>
    length seeds \<le> max 1 (max (sc_chapters_min (fp_constraints packet)) (sc_chapters_max (fp_constraints packet))) \<and>
    set (packet_aliases_of packet) \<subseteq> set (concat seeds)"
proof -
  let ?least = "sc_chapters_min (fp_constraints packet)" and ?most = "sc_chapters_max (fp_constraints packet)"
  obtain merged where merged: "merge_seeds ?most (cluster_seeds packet) = Some merged" "length merged \<le> ?most"
    using merge_seeds_total [OF assms] by blast
  define seeds where "seeds = split_seeds ?least merged"
  define seeds1 where "seeds1 = (if seeds = [] then [map pf_alias (fp_features packet)] else seeds)"
  have all: "set (concat seeds) = set (concat (cluster_seeds packet))"
    unfolding seeds_def split_seeds_set by (rule merge_seeds_set [OF merged(1)])
  have ne: "seeds1 \<noteq> []" by (simp add: seeds1_def)
  obtain r where r: "host_uncertainty (uncertainty_aliases packet) seeds1 = Some r"
    "length r = length seeds1" "set (concat r) = set (concat seeds1) \<union> set (uncertainty_aliases packet)"
    using host_uncertainty_total [OF ne, of "uncertainty_aliases packet"] by blast
  have "set (packet_aliases_of packet) \<subseteq> set (concat r)"
    using cluster_seeds_cover [of packet] all r(3)
    by (cases "seeds = []") (auto simp: seeds1_def packet_aliases_of_def)
  moreover have "length r \<le> max 1 (max ?least ?most)"
    using split_seeds_length [of ?least merged] merged(2) r(2)
    by (auto simp: seeds1_def seeds_def)
  moreover have "r \<noteq> []"
    using r(2) by (auto simp: seeds1_def split: if_splits)
  moreover have "chapter_seeds packet = host_uncertainty (uncertainty_aliases packet) seeds1"
    by (simp add: chapter_seeds_def merged(1) Let_def seeds1_def seeds_def)
  then have "chapter_seeds packet = Some r"
    using r(1) by simp
  ultimately show ?thesis by blast
qed

lemma map_opt_total:
  "\<forall>x \<in> set xs. f x \<noteq> None \<Longrightarrow> map_opt f xs = Some (map (\<lambda>x. the (f x)) xs)"
  by (induction xs) auto

lemma seed_chapter_Some:
  assumes "fp_features packet \<noteq> []"
  shows "\<exists>ch. seed_chapter packet ontology i s = Some ch \<and> ch_key ch = chapter_key i \<and> set s \<subseteq> set (ch_aliases ch)"
  using assms by (simp add: seed_chapter_def Let_def)

lemma plan_of_seeds:
  assumes "fp_features packet \<noteq> []" and "chapter_seeds packet = Some seeds"
  shows "build_deterministic_plan packet ontology =
    Some \<lparr>po_schema_version = m7_schema_version,
      po_chapters = mapi (\<lambda>i s. the (seed_chapter packet ontology i s)) seeds, po_signatures = [],
      po_omissions = map (\<lambda>f. \<lparr>om_alias = pf_alias f, om_reason = ''capacity_omitted'', om_covered_by = None\<rparr>)
        (filter (\<lambda>f. pf_coverage f = Eligible \<and> pf_alias f \<notin> set (concat seeds)) (fp_features packet))\<rparr>"
proof -
  have "seed_chapter packet ontology i s \<noteq> None" for i s
    using seed_chapter_Some [OF assms(1)] by (metis option.distinct(1))
  then have "map_opt (\<lambda>(i, s). seed_chapter packet ontology i s) (enumerate 0 seeds) =
      Some (map (\<lambda>x. the ((\<lambda>(i, s). seed_chapter packet ontology i s) x)) (enumerate 0 seeds))"
    by (intro map_opt_total) auto
  then show ?thesis
    by (simp add: build_deterministic_plan_def assms(2) mapi_def case_prod_unfold)
qed

text \<open>
  for a packet with features and a positive chapter maximum the deterministic planner
  returns a plan within the chapter bounds, with distinct keys, that assigns every feature of the packet to
  a chapter and omits none.
\<close>
theorem deterministic_plan_assigns_every_feature:
  assumes "fp_features packet \<noteq> []" and "0 < sc_chapters_max (fp_constraints packet)"
  shows "\<exists>plan. build_deterministic_plan packet ontology = Some plan \<and>
    set (packet_aliases_of packet) \<subseteq> chapter_aliases plan \<and> po_omissions plan = [] \<and>
    distinct (map ch_key (po_chapters plan)) \<and>
    1 \<le> length (po_chapters plan) \<and>
    length (po_chapters plan) \<le> max (sc_chapters_min (fp_constraints packet)) (sc_chapters_max (fp_constraints packet))"
proof -
  obtain seeds where seeds: "chapter_seeds packet = Some seeds" "seeds \<noteq> []"
    "length seeds \<le> max 1 (max (sc_chapters_min (fp_constraints packet)) (sc_chapters_max (fp_constraints packet)))"
    "set (packet_aliases_of packet) \<subseteq> set (concat seeds)"
    using chapter_seeds_total [OF assms(2)] by blast
  let ?chapters = "mapi (\<lambda>i s. the (seed_chapter packet ontology i s)) seeds"
  have keyed: "ch_key (the (seed_chapter packet ontology i s)) = chapter_key i \<and>
      set s \<subseteq> set (ch_aliases (the (seed_chapter packet ontology i s)))" for i s
    using seed_chapter_Some [OF assms(1), of ontology i s] by auto
  have "set (concat seeds) \<subseteq> (\<Union>ch \<in> set ?chapters. set (ch_aliases ch))"
  proof
    fix a assume "a \<in> set (concat seeds)"
    then obtain s where "s \<in> set seeds" "a \<in> set s" by auto
    then obtain i where "i < length seeds" "a \<in> set (seeds ! i)"
      by (metis in_set_conv_nth)
    then show "a \<in> (\<Union>ch \<in> set ?chapters. set (ch_aliases ch))"
      using keyed [of i "seeds ! i"] by (force simp: set_mapi)
  qed
  moreover have "distinct (map ch_key ?chapters)"
    by (auto simp: map_mapi keyed distinct_conv_nth dest: chapter_key_inj)
  moreover have "filter (\<lambda>f. pf_coverage f = Eligible \<and> pf_alias f \<notin> set (concat seeds)) (fp_features packet) = []"
    using seeds(4) by (auto simp: filter_empty_conv packet_aliases_of_def)
  ultimately show ?thesis
    using seeds(2,3,4) assms(2) unfolding plan_of_seeds [OF assms(1) seeds(1)]
    by (auto simp: chapter_aliases_def Suc_le_eq)
qed

theorem deterministic_plan_assigns_every_feature_witness:
  "\<exists>plan. build_deterministic_plan example_packet example_ontology = Some plan \<and>
    set (packet_aliases_of example_packet) \<subseteq> chapter_aliases plan"
  using deterministic_plan_assigns_every_feature [of example_packet example_ontology]
  by (auto simp: example_packet_def)

section \<open>The words of a synthetic document\<close>

text \<open>Whole fillers of twenty words are added until the minimum is reached.\<close>

definition padded :: "nat \<Rightarrow> nat \<Rightarrow> nat" where
  "padded n least = n + 20 * ((least - n + 19) div 20)"

lemma pad_loop_exact:
  assumes "word_count piece = 20" "pad_loop start least piece = Some r"
  shows "word_count r = padded (word_count start) least"
proof -
  have step: "(m + 19) div 20 = Suc ((m - 20 + 19) div 20)" if "0 < m" for m :: nat
  proof (cases "20 \<le> m")
    case True
    then obtain k where "m = 20 + k" using le_Suc_ex by blast
    then show ?thesis by simp
  next
    case False
    then have "(m + 19) div 20 = 1" using that by (intro div_nat_eqI) simp_all
    with False show ?thesis by simp
  qed
  show ?thesis
  using assms(2)
proof (induction "least - word_count start" arbitrary: start rule: less_induct)
  case less
  show ?case
  proof (cases "word_count start < least")
    case True
    let ?next = "start @ CHR '' '' # piece"
    have n: "word_count ?next = word_count start + 20"
      by (simp add: word_count_space assms(1))
    have "pad_loop ?next least piece = Some r"
      using less.prems True by (simp add: pad_loop.simps [of start])
    then have "word_count r = padded (word_count ?next) least"
      using True by (intro less.hyps) (simp_all add: n)
    moreover have "(least - word_count start + 19) div 20 = Suc ((least - (word_count start + 20) + 19) div 20)"
      using step [of "least - word_count start"] True by simp
    ultimately show ?thesis
      by (simp only: padded_def n mult_Suc_right add.assoc)
  next
    case False
    then show ?thesis
      using less.prems by (simp add: pad_loop.simps [of start] padded_def)
  qed
qed
qed

lemma pad_filler_exact: "word_count (pad_filler t least) = padded (word_count t) least"
proof -
  obtain r where r: "pad_loop (js_trim t) least (js_trim filler) = Some r"
    using pad_returns [of t least] by (auto simp: pad_to_min_words_def)
  then have "word_count r = padded (word_count t) least"
    using pad_loop_exact [OF _ r] by (simp add: filler_words)
  with r show ?thesis by (simp add: pad_filler_def pad_to_min_words_def)
qed

lemma padded_bounds: "least \<le> padded n least" "n \<le> m \<Longrightarrow> padded n least \<le> max m (least + 19)"
proof -
  have "least - n \<le> 20 * ((least - n + 19) div 20)" "20 * ((least - n + 19) div 20) \<le> least - n + 19"
    by linarith+
  then show "least \<le> padded n least" and "n \<le> m \<Longrightarrow> padded n least \<le> max m (least + 19)"
    by (cases "least \<le> n"; auto simp: padded_def)+
qed

definition record_texts :: "ontology_record list \<Rightarrow> planner_chapter \<Rightarrow> string \<times> string \<times> string" where
  "record_texts ontology ch =
     (let record = chapter_record ontology ch in
      (case record of Some r \<Rightarrow> or_proposition r | None \<Rightarrow> ''This configuration describes a standing tendency.'',
       first_of (map_option or_tensions record) ''The same structure can pull in two directions at once.'',
       first_of (map_option or_counter_expressions record)
         ''The same structure can read as discipline rather than conflict.''))"

lemma fixed_words:
  "word_count (''This chapter holds '' @ p) = 3 + word_count p"
  "word_count (''The calculated evidence points to '' @ p) = 5 + word_count p"
  "word_count ''How that tendency is used remains a matter of attention, not fate.'' = 12"
proof -
  have "word_count ''This chapter holds'' = 3" "word_count ''The calculated evidence points to'' = 5"
    by code_simp+
  then show "word_count (''This chapter holds '' @ p) = 3 + word_count p"
    "word_count (''The calculated evidence points to '' @ p) = 5 + word_count p"
    using word_count_space [of "''This chapter holds''" p]
      word_count_space [of "''The calculated evidence points to''" p] by simp_all
  show "word_count ''How that tendency is used remains a matter of attention, not fate.'' = 12"
    by code_simp
qed

lemma synthetic_chapter_words:
  assumes "record_texts ontology ch = (p, t, c)"
  shows "chapter_words (synthetic_chapter least ontology ch) =
    padded (3 + word_count p) 40 + padded (5 + word_count p) ((least + 2) div 3) +
    padded 12 ((least + 2) div 3) + padded (word_count t) 30 + padded (word_count p) 30 +
    padded (word_count c) 30"
  using assms
  by (simp add: chapter_words_def synthetic_chapter_def synthetic_section_def synthetic_unit_def Let_def
      record_texts_def pad_filler_exact fixed_words [simplified])

lemma synthetic_units:
  "u \<in> set (chapter_units (synthetic_chapter least ontology ch)) \<Longrightarrow> u = (ch_aliases ch, ch_rule_ids ch)"
  by (auto simp: chapter_units_def synthetic_chapter_def synthetic_section_def synthetic_unit_def Let_def)

section \<open>The synthetic writer\<close>

text \<open>
  a chapter of the synthetic writer meets every bound the candidate validator puts on it, when
  the planned chapter's own references are valid and the ontology's texts have at most fifty words.
\<close>
theorem synthetic_chapter_accepted:
  assumes "refs_ok packet ontology ch (ch_aliases ch) (ch_rule_ids ch)"
    and "record_texts ontology ch = (p, t, c)"
    and "word_count p \<le> 50" and "word_count t \<le> 50" and "word_count c \<le> 50"
    and "least = least_chapter_words packet"
  shows "writer_chapter_ok packet ontology ch (synthetic_chapter least ontology ch)"
proof -
  let ?s = "synthetic_chapter least ontology ch"
  have least: "(least + 2) div 3 = 50 \<or> (least + 2) div 3 = 84" "least = 150 \<or> least = 250"
    "least = 150 \<Longrightarrow> (least + 2) div 3 = 50" "least = 250 \<Longrightarrow> (least + 2) div 3 = 84"
    using assms(6) by (auto simp: least_chapter_words_def)
  have up: "padded (3 + word_count p) 40 \<le> 59" "padded (5 + word_count p) ((least + 2) div 3) \<le> 103"
    "padded 12 ((least + 2) div 3) \<le> 103" "padded (word_count t) 30 \<le> 50"
    "padded (word_count p) 30 \<le> 50" "padded (word_count c) 30 \<le> 50"
    using padded_bounds(2) [of "3 + word_count p" 53 40] padded_bounds(2) [of "5 + word_count p" 55 "(least + 2) div 3"]
      padded_bounds(2) [of 12 12 "(least + 2) div 3"] padded_bounds(2) [of "word_count t" 50 30]
      padded_bounds(2) [of "word_count p" 50 30] padded_bounds(2) [of "word_count c" 50 30] assms(3-5) least(1)
    by auto
  note low = padded_bounds(1) [of 40 "3 + word_count p"] padded_bounds(1) [of "(least + 2) div 3" "5 + word_count p"]
    padded_bounds(1) [of "(least + 2) div 3" 12] padded_bounds(1) [of 30]
  have words: "least_chapter_words packet \<le> chapter_words ?s \<and> chapter_words ?s \<le> 550"
    unfolding synthetic_chapter_words [OF assms(2)] assms(6) [symmetric]
    using up low(1-3) low(4) [of "word_count t"] low(4) [of "word_count p"] low(4) [of "word_count c"] least(2-4)
    by linarith
  have sections: "word_count (ws_text s) \<le> 180" if "s \<in> set (wc_sections ?s)" for s
    using that up assms(2)
    by (auto simp: synthetic_chapter_def synthetic_section_def Let_def record_texts_def pad_filler_exact
        fixed_words [simplified])
  have "set (ch_aliases ch) \<subseteq> (\<Union>u \<in> set (chapter_units ?s). set (fst u))"
    by (auto simp: chapter_units_def synthetic_chapter_def synthetic_unit_def Let_def)
  moreover have "refs_ok packet ontology ch (fst u) (snd u)" if "u \<in> set (chapter_units ?s)" for u
    using synthetic_units [OF that] assms(1) by simp
  moreover have "length (wc_title ?s) \<le> 90" "length (wc_sections ?s) = 2" "length (wc_tensions ?s) = 1"
    "length (wc_resources ?s) = 1" "pu_claim_class (wc_counter ?s) = ''counter_expression''"
    by (simp_all add: synthetic_chapter_def synthetic_unit_def Let_def)
  ultimately show ?thesis
    unfolding writer_chapter_ok_def using words sections by simp
qed

definition synthetic_ontology :: "ontology_record list" where
  "synthetic_ontology =
     [(example_record ''ont_sun'' ((any_feature FC_Position)\<lparr>pr_body := Some ''sun''\<rparr>) SalienceMedium [''position''])
        \<lparr>or_proposition := ''The sun position describes a standing emphasis.'',
         or_tensions := [''pos-sun can harden into overuse.''],
         or_counter_expressions := [''pos-sun can also read as a quieter strength.'']\<rparr>]"

lemma synthetic_texts:
  "record_texts synthetic_ontology (example_chapter key aliases ''ont_sun'') =
     (''The sun position describes a standing emphasis.'', ''pos-sun can harden into overuse.'',
      ''pos-sun can also read as a quieter strength.'')"
  by (simp add: record_texts_def chapter_record_def example_chapter_def synthetic_ontology_def
      index_by_def js_map_get_def example_record_def first_of_def)

lemma synthetic_text_words:
  "word_count ''The sun position describes a standing emphasis.'' = 7"
  "word_count ''pos-sun can harden into overuse.'' = 5"
  "word_count ''pos-sun can also read as a quieter strength.'' = 8"
  by code_simp+

theorem synthetic_chapter_accepted_witness:
  "writer_chapter_ok example_packet synthetic_ontology (example_chapter ''chapter_01'' [''f001''] ''ont_sun'')
     (synthetic_chapter 150 synthetic_ontology (example_chapter ''chapter_01'' [''f001''] ''ont_sun''))"
proof -
  have "refs_ok example_packet synthetic_ontology (example_chapter ''chapter_01'' [''f001''] ''ont_sun'')
      (ch_aliases (example_chapter ''chapter_01'' [''f001''] ''ont_sun''))
      (ch_rule_ids (example_chapter ''chapter_01'' [''f001''] ''ont_sun''))"
    by (simp add: refs_ok_def example_chapter_def example_packet_def packet_aliases_of_def
        synthetic_ontology_def example_record_def)
  from synthetic_chapter_accepted [OF this synthetic_texts] show ?thesis
    by (simp add: synthetic_text_words least_chapter_words_def example_packet_def)
qed

text \<open>
  C38: a synthetic document of four full chapters without an uncertainty note falls below the total
  word minimum of the candidate validator, with the texts the repository's fixture ontology carries.
\<close>
theorem synthetic_document_too_short:
  assumes "\<not> sc_sparse (fp_constraints packet)"
    and "po_chapters plan = map (\<lambda>i. example_chapter (chapter_key i) [''f001''] ''ont_sun'') [0..<4]"
    and "po_signatures plan = []" and "\<forall>f \<in> set (fp_features packet). pf_class f \<noteq> FC_Uncertainty"
  shows "document_words (build_deterministic_writer_output plan packet synthetic_ontology) = 1498 \<and>
    \<not> vr_ok (validate_pattern_candidate (build_deterministic_writer_output plan packet synthetic_ontology)
      (planner_output.extend plan rest) packet synthetic_ontology)"
proof -
  let ?out = "build_deterministic_writer_output plan packet synthetic_ontology"
  have none: "List.find (\<lambda>f. pf_class f = FC_Uncertainty) (fp_features packet) = None"
    using assms(4) by (auto simp: find_None_iff)
  have words: "chapter_words (synthetic_chapter 250 synthetic_ontology (example_chapter key [''f001''] ''ont_sun'')) = 374"
    for key
    unfolding synthetic_chapter_words [OF synthetic_texts] synthetic_text_words by (simp add: padded_def)
  have "word_count ''Your Pattern'' = 2" by code_simp
  then have total: "document_words ?out = 1498"
    using assms(1-3) none
    by (simp add: document_words_def build_deterministic_writer_output_def words chapter_word_min_def
        unit_words_def comp_def upt_rec)
  then have "\<not> candidate_contract ?out (planner_output.extend plan rest) packet synthetic_ontology"
    using assms(1) by (simp add: candidate_contract_def least_total_words_def)
  with total show ?thesis
    by (simp add: validate_candidate_ok)
qed

theorem synthetic_document_too_short_witness:
  "document_words (build_deterministic_writer_output
     (example_plan\<lparr>po_chapters := map (\<lambda>i. example_chapter (chapter_key i) [''f001''] ''ont_sun'') [0..<4]\<rparr>)
     (example_packet\<lparr>fp_features := [],
        fp_constraints := \<lparr>sc_chapters_min = 4, sc_chapters_max = 6, sc_signatures_max = 8, sc_sparse = False\<rparr>\<rparr>)
     synthetic_ontology) = 1498"
  by (rule conjunct1 [OF synthetic_document_too_short]) (simp_all add: example_plan_def)

end
