(* ===== verification/Projection.thy ===== *)
theory Projection
  imports Pattern_Types
begin

text \<open>
  \<open>packages/pattern-engine/src/projection.ts\<close>: the public reading of a pattern document, and
  the document and response types of \<open>m7-types.ts\<close> it relates.
\<close>

section \<open>The documents\<close>

record compact_provenance =
  cp_assembly_mode :: string
  cp_provider :: string
  cp_model_family :: string
  cp_raw_birth_details_sent :: bool
  cp_ontology_version :: string
  cp_selection_policy_version :: string

record document_internal =
  di_schema_version :: string
  di_pattern_id :: string
  di_generation_id :: string
  di_locale :: string
  di_effective_accuracy :: birth_time_accuracy
  di_plan_hash :: string
  di_candidate_hash :: string
  di_semantic_verdict_hash :: string
  di_artifact :: writer_output
  di_provenance :: compact_provenance

record public_chapter =
  pb_title :: string
  pb_summary :: string
  pb_sections :: "string list"
  pb_tensions :: "string list"
  pb_resources :: "string list"
  pb_counter :: string

record public_pattern =
  pp_core_chapters :: "public_chapter list"
  pp_signatures :: "(string \<times> string) list"
  pp_uncertainty :: "string option"

record public_provenance =
  pv_assembly_mode :: string
  pv_provider :: string
  pv_model_family :: string
  pv_raw_birth_details_sent :: bool

record pattern_response =
  rs_schema_version :: string
  rs_pattern_id :: string
  rs_generated_at :: string
  rs_locale :: string
  rs_effective_accuracy :: birth_time_accuracy
  rs_provenance :: public_provenance
  rs_body :: public_pattern

section \<open>The projection\<close>

definition strip_private_evidence :: "writer_output \<Rightarrow> public_pattern" where
  "strip_private_evidence out =
     \<lparr>pp_core_chapters = map (\<lambda>c.
        \<lparr>pb_title = wc_title c, pb_summary = wc_summary c, pb_sections = map ws_text (wc_sections c),
         pb_tensions = map pu_text (wc_tensions c), pb_resources = map pu_text (wc_resources c),
         pb_counter = pu_text (wc_counter c)\<rparr>) (wo_chapters out),
      pp_signatures = map (\<lambda>g. (wg_title g, wg_text g)) (wo_signatures out),
      pp_uncertainty = map_option pu_text (wo_uncertainty_note out)\<rparr>"

definition project_public_pattern :: "document_internal \<Rightarrow> string \<Rightarrow> pattern_response" where
  "project_public_pattern document generated_at =
     \<lparr>rs_schema_version = ''0.7.0'', rs_pattern_id = di_pattern_id document,
      rs_generated_at = generated_at, rs_locale = di_locale document,
      rs_effective_accuracy = di_effective_accuracy document,
      rs_provenance =
        \<lparr>pv_assembly_mode = ''constrained_model'', pv_provider = cp_provider (di_provenance document),
         pv_model_family = cp_model_family (di_provenance document), pv_raw_birth_details_sent = False\<rparr>,
      rs_body = strip_private_evidence (di_artifact document)\<rparr>"

section \<open>Private evidence\<close>

text \<open>Replacing every evidence ledger, key and claim class of a document, and its internal hashes.\<close>

record evidence =
  ed_key :: string
  ed_claim :: string
  ed_aliases :: "string list"
  ed_rules :: "string list"
  ed_derived :: "string list"

definition relabel_unit :: "evidence \<Rightarrow> prose_unit \<Rightarrow> prose_unit" where
  "relabel_unit e u = u\<lparr>pu_claim_class := ed_claim e, pu_aliases := ed_aliases e,
     pu_rule_ids := ed_rules e, pu_derived_ids := ed_derived e\<rparr>"

definition relabel_section :: "evidence \<Rightarrow> writer_section \<Rightarrow> writer_section" where
  "relabel_section e s = s\<lparr>ws_key := ed_key e, ws_claim_class := ed_claim e, ws_aliases := ed_aliases e,
     ws_rule_ids := ed_rules e, ws_derived_ids := ed_derived e\<rparr>"

definition relabel_chapter :: "evidence \<Rightarrow> writer_chapter \<Rightarrow> writer_chapter" where
  "relabel_chapter e c = c\<lparr>wc_key := ed_key e, wc_sections := map (relabel_section e) (wc_sections c),
     wc_tensions := map (relabel_unit e) (wc_tensions c),
     wc_resources := map (relabel_unit e) (wc_resources c), wc_counter := relabel_unit e (wc_counter c)\<rparr>"

definition relabel_output :: "evidence \<Rightarrow> writer_output \<Rightarrow> writer_output" where
  "relabel_output e out = out\<lparr>wo_chapters := map (relabel_chapter e) (wo_chapters out),
     wo_signatures := map (\<lambda>g. g\<lparr>wg_key := ed_key e, wg_aliases := ed_aliases e, wg_rule_ids := ed_rules e\<rparr>)
       (wo_signatures out),
     wo_uncertainty_note := map_option (relabel_unit e) (wo_uncertainty_note out)\<rparr>"

definition relabel_document :: "evidence \<Rightarrow> document_internal \<Rightarrow> document_internal" where
  "relabel_document e d = d\<lparr>di_generation_id := ed_key e, di_plan_hash := ed_key e,
     di_candidate_hash := ed_key e, di_semantic_verdict_hash := ed_key e,
     di_artifact := relabel_output e (di_artifact d)\<rparr>"

lemmas relabel_defs = relabel_unit_def relabel_section_def relabel_chapter_def relabel_output_def
  relabel_document_def

text \<open>
  C28: the public response does not depend on any private evidence: replacing every alias and rule
  ledger, key, claim class, plan hash and candidate hash of a document leaves its response unchanged.
\<close>
theorem projection_hides_private_evidence:
  "project_public_pattern (relabel_document e d) generated_at = project_public_pattern d generated_at"
  by (simp add: project_public_pattern_def strip_private_evidence_def relabel_defs comp_def
      option.map_comp)

text \<open>
  the response keeps every text of the document: as many chapters, sections, signatures and
  notes, each with its own text, and it never claims that raw birth details were sent.
\<close>
theorem projection_keeps_texts:
  "map pb_sections (pp_core_chapters (rs_body (project_public_pattern d generated_at))) =
     map (\<lambda>c. map ws_text (wc_sections c)) (wo_chapters (di_artifact d)) \<and>
   map pb_counter (pp_core_chapters (rs_body (project_public_pattern d generated_at))) =
     map (\<lambda>c. pu_text (wc_counter c)) (wo_chapters (di_artifact d)) \<and>
   map snd (pp_signatures (rs_body (project_public_pattern d generated_at))) =
     map wg_text (wo_signatures (di_artifact d)) \<and>
   \<not> pv_raw_birth_details_sent (rs_provenance (project_public_pattern d generated_at))"
  by (simp add: project_public_pattern_def strip_private_evidence_def comp_def)

end
