(* ===== verification/Numerals.thy ===== *)
theory Numerals
  imports Text_Ops
begin

text \<open>
  \<open>Number::toString\<close> of ECMA-262 on the numbers of the model. A \<open>js_num\<close> is the rational its
  shortest decimal denotes, so the digits the standard asks for are those of that rational. A
  rational without a finite decimal is no JavaScript number; its text carries an exponent mark.
\<close>

section \<open>Digits and exponent\<close>

function strip_zeros :: "nat \<Rightarrow> nat \<times> nat" where
  "strip_zeros m =
     (if m \<noteq> 0 \<and> m mod 10 = 0 then (case strip_zeros (m div 10) of (s, z) \<Rightarrow> (s, Suc z)) else (m, 0))"
  by pat_completeness auto
termination
  by (relation "measure (\<lambda>m. m)") auto

declare strip_zeros.simps [simp del]

lemma strip_zeros_value: "strip_zeros m = (s, z) \<Longrightarrow> m = s * 10 ^ z"
proof (induction m arbitrary: s z rule: strip_zeros.induct)
  case (1 m)
  show ?case
  proof (cases "m \<noteq> 0 \<and> m mod 10 = 0")
    case True
    obtain s' z' where r: "strip_zeros (m div 10) = (s', z')" by fastforce
    have "m div 10 = s' * 10 ^ z'" using "1.IH" [OF True r] .
    moreover have "m = 10 * (m div 10)" using True by auto
    moreover have "s = s'" "z = Suc z'"
      using "1.prems" True r by (simp_all add: strip_zeros.simps [of m])
    ultimately show ?thesis by simp
  next
    case False
    with "1.prems" show ?thesis by (simp add: strip_zeros.simps [of m] split: if_splits)
  qed
qed

text \<open>Decimal places: the least \<open>j\<close> for which \<open>x * 10 ^ j\<close> is whole; a double needs fewer than 400.\<close>

definition decimal_places :: "js_num \<Rightarrow> nat option" where
  "decimal_places x = List.find (\<lambda>j. snd (quotient_of x) dvd 10 ^ j) [0..<400]"

text \<open>The cases of \<open>Number::toString\<close> for the digits \<open>ds\<close> and the exponent \<open>n\<close>.\<close>

definition place_digits :: "string \<Rightarrow> int \<Rightarrow> string" where
  "place_digits ds n =
     (let k = int (length ds); zero = CHR ''0''; e = n - 1 in
      if k \<le> n \<and> n \<le> 21 then ds @ replicate (nat (n - k)) zero
      else if 0 < n \<and> n \<le> 21 then take (nat n) ds @ CHR ''.'' # drop (nat n) ds
      else if -6 < n \<and> n \<le> 0 then zero # CHR ''.'' # replicate (nat (- n)) zero @ ds
      else (if k = 1 then ds else take 1 ds @ CHR ''.'' # drop 1 ds) @ CHR ''e'' #
        (if e < 0 then CHR ''-'' else CHR ''+'') # nat_str (nat \<bar>e\<bar>))"

definition positive_str :: "js_num \<Rightarrow> string" where
  "positive_str x =
     (case decimal_places x of
        None \<Rightarrow> ''e''
      | Some j \<Rightarrow>
         (case strip_zeros (nat \<lfloor>x * 10 ^ j\<rfloor>) of
            (s, z) \<Rightarrow> place_digits (nat_str s) (int (length (nat_str s)) + int z - int j)))"

definition num_str :: "js_num \<Rightarrow> string" where
  "num_str x =
     (if x = 0 then ''0'' else if x < 0 then CHR ''-'' # positive_str (- x) else positive_str x)"

section \<open>Reading a plain decimal back\<close>

definition read_decimal :: "string \<Rightarrow> js_num" where
  "read_decimal t =
     (let whole = takeWhile (\<lambda>c. c \<noteq> CHR ''.'') t; rest = dropWhile (\<lambda>c. c \<noteq> CHR ''.'') t
      in of_nat (read_radix 10 (whole @ tl rest)) / 10 ^ length (tl rest))"

definition read_num :: "string \<Rightarrow> js_num" where
  "read_num t =
     (if t \<noteq> [] \<and> hd t = CHR ''-'' then - read_decimal (tl t) else read_decimal t)"

lemma read_whole: "CHR ''.'' \<notin> set t \<Longrightarrow> read_decimal t = of_nat (read_radix 10 t)"
proof -
  assume t: "CHR ''.'' \<notin> set t"
  then have "takeWhile (\<lambda>c. c \<noteq> CHR ''.'') t = t" "dropWhile (\<lambda>c. c \<noteq> CHR ''.'') t = []"
    by (auto simp: takeWhile_eq_all_conv dropWhile_eq_Nil_conv)
  then show ?thesis unfolding read_decimal_def Let_def by (simp only: append_Nil2 list.sel list.size power_0 div_by_1)
qed

lemma read_point:
  "CHR ''.'' \<notin> set w \<Longrightarrow> read_decimal (w @ CHR ''.'' # f) = of_nat (read_radix 10 (w @ f)) / 10 ^ length f"
proof -
  assume w: "CHR ''.'' \<notin> set w"
  then have "takeWhile (\<lambda>c. c \<noteq> CHR ''.'') (w @ CHR ''.'' # f) = w"
      "dropWhile (\<lambda>c. c \<noteq> CHR ''.'') (w @ CHR ''.'' # f) = CHR ''.'' # f"
    by (auto simp: takeWhile_append dropWhile_append takeWhile_eq_all_conv dropWhile_eq_Nil_conv)
  then show ?thesis by (simp add: read_decimal_def)
qed

lemma digits_plain: "list_all is_digit ds \<Longrightarrow> CHR ''.'' \<notin> set ds \<and> CHR ''-'' \<notin> set ds \<and> CHR ''e'' \<notin> set ds"
  by (auto simp: list_all_iff is_digit_def less_eq_char_def)

lemma place_digits_reads:
  assumes "list_all is_digit ds" and "CHR ''e'' \<notin> set (place_digits ds n)"
  shows "read_decimal (place_digits ds n) = of_nat (read_radix 10 ds) * 10 powi (n - int (length ds))"
proof -
  let ?k = "int (length ds)" and ?v = "of_nat (read_radix 10 ds) :: js_num"
  have plain: "CHR ''.'' \<notin> set ds" using digits_plain [OF assms(1)] by simp
  consider (whole) "?k \<le> n" "n \<le> 21" | (point) "n < ?k" "0 < n" "n \<le> 21" | (small) "-6 < n" "n \<le> 0" "n < ?k"
    | (exp) "21 < n \<or> n \<le> -6" by linarith
  then show ?thesis
  proof cases
    case whole
    then have "read_decimal (place_digits ds n) = of_nat (read_radix 10 (ds @ replicate (nat (n - ?k)) (CHR ''0'')))"
      using plain by (simp add: place_digits_def Let_def read_whole)
    also have "\<dots> = ?v * 10 ^ nat (n - ?k)"
      by (simp add: read_append read_zeros)
    finally show ?thesis using whole by (simp add: power_int_def)
  next
    case point
    have "CHR ''.'' \<notin> set (take (nat n) ds)" using plain by (meson in_set_takeD)
    then have "read_decimal (place_digits ds n) =
        of_nat (read_radix 10 (take (nat n) ds @ drop (nat n) ds)) / 10 ^ length (drop (nat n) ds)"
      using point by (simp add: place_digits_def Let_def read_point del: append_take_drop_id)
    also have "length (drop (nat n) ds) = nat (?k - n)" using point by simp
    finally show ?thesis using point by (simp add: power_int_def field_simps)
  next
    case small
    then have "read_decimal (place_digits ds n) =
        of_nat (read_radix 10 ([CHR ''0''] @ replicate (nat (- n)) (CHR ''0'') @ ds)) / 10 ^ (nat (- n) + length ds)"
      using read_point [of "[CHR ''0'']" "replicate (nat (- n)) (CHR ''0'') @ ds"]
      by (simp add: place_digits_def Let_def)
    also have "read_radix 10 ([CHR ''0''] @ replicate (nat (- n)) (CHR ''0'') @ ds) = read_radix 10 ds"
      using read_append [of 10 "replicate (Suc (nat (- n))) (CHR ''0'')" ds] read_zeros [of 10 "Suc (nat (- n))"]
      by simp
    also have "nat (- n) + length ds = nat (?k - n)" using small by simp
    finally show ?thesis using small by (simp add: power_int_def field_simps)
  next
    case exp
    then have "CHR ''e'' \<in> set (place_digits ds n)" by (auto simp: place_digits_def Let_def)
    with assms(2) show ?thesis by simp
  qed
qed

lemma decimal_places_whole:
  assumes "decimal_places x = Some j" and "0 \<le> x"
  shows "of_nat (nat \<lfloor>x * 10 ^ j\<rfloor>) = x * 10 ^ j"
proof -
  obtain a b where q: "quotient_of x = (a, b)" by fastforce
  then have x: "x = of_int a / of_int b" and b: "0 < b"
    by (simp_all add: quotient_of_div quotient_of_denom_pos)
  have "b dvd 10 ^ j"
    using find_SomeD(1) [OF assms(1) [unfolded decimal_places_def]] q by simp
  then obtain c where c: "10 ^ j = b * c" by (rule dvdE)
  have "of_int (10 ^ j) = (of_int (b * c) :: js_num)"
    by (rule arg_cong [OF c])
  then have "x * 10 ^ j = of_int (a * c)"
    using b by (simp add: x)
  then show ?thesis
    using assms(2) by (simp add: of_nat_nat del: of_int_mult) (metis floor_of_int of_nat_nat of_int_of_nat_eq
      mult_nonneg_nonneg of_int_0_le_iff zero_le_numeral zero_le_power)
qed

lemma positive_str_reads:
  assumes "0 < x" and "CHR ''e'' \<notin> set (positive_str x)"
  shows "read_decimal (positive_str x) = x"
proof -
  obtain j where j: "decimal_places x = Some j"
    using assms(2) by (cases "decimal_places x") (auto simp: positive_str_def)
  obtain s z where sz: "strip_zeros (nat \<lfloor>x * 10 ^ j\<rfloor>) = (s, z)" by fastforce
  have "of_nat (s * 10 ^ z) = x * 10 ^ j"
    using decimal_places_whole [OF j] strip_zeros_value [OF sz] assms(1) by simp
  then have "x = of_nat s * 10 ^ z / 10 ^ j"
    by (simp add: field_simps)
  also have "\<dots> = of_nat s * 10 powi (int z - int j)"
    by (simp add: power_int_diff)
  finally have "x = of_nat s * 10 powi (int z - int j)" .
  moreover have "read_decimal (positive_str x) = of_nat (read_radix 10 (nat_str s)) * 10 powi (int z - int j)"
    using place_digits_reads [of "nat_str s" "int (length (nat_str s)) + int z - int j"] assms(2)
      nat_str_digits [of s]
    by (simp add: positive_str_def j sz nat_str_def)
  ultimately show ?thesis
    by (simp add: nat_str_def read_nat_radix)
qed

text \<open>The characters of a plain rendering.\<close>

definition number_char :: "char \<Rightarrow> bool" where
  "number_char c = (is_digit c \<or> c = CHR ''.'' \<or> c = CHR ''-'')"

lemma place_digits_chars:
  assumes "list_all is_digit ds" and "CHR ''e'' \<notin> set (place_digits ds n)"
  shows "list_all (\<lambda>c. is_digit c \<or> c = CHR ''.'') (place_digits ds n)"
proof -
  have "list_all is_digit (take k ds)" "list_all is_digit (drop k ds)" for k
    using assms(1) by (auto simp: list_all_iff dest: in_set_takeD in_set_dropD)
  then show ?thesis
    using assms by (auto simp: place_digits_def Let_def list_all_iff is_digit_def split: if_splits)
qed

lemma positive_str_chars:
  assumes "CHR ''e'' \<notin> set (positive_str x)"
  shows "list_all (\<lambda>c. is_digit c \<or> c = CHR ''.'') (positive_str x)"
  using assms nat_str_digits place_digits_chars
  by (auto simp: positive_str_def nat_str_def split: option.splits prod.splits)

lemma positive_str_not_Nil: "positive_str x \<noteq> []"
proof -
  have "nat_str s \<noteq> []" for s
    by (simp add: nat_str_def nat_radix.simps [of 10 s])
  then show ?thesis
    by (auto simp: positive_str_def place_digits_def Let_def split: option.splits prod.splits)
qed

lemma num_str_chars: "CHR ''e'' \<notin> set (num_str x) \<Longrightarrow> list_all number_char (num_str x)"
  using positive_str_chars [of x] positive_str_chars [of "- x"]
  by (auto simp: num_str_def number_char_def is_digit_def list_all_iff)

lemma num_str_not_Nil [simp]: "num_str x \<noteq> []"
  by (simp add: num_str_def positive_str_not_Nil)

lemma read_num_str:
  assumes "CHR ''e'' \<notin> set (num_str x)"
  shows "read_num (num_str x) = x"
proof -
  have hd: "hd (positive_str x) \<noteq> CHR ''-''" if "CHR ''e'' \<notin> set (positive_str x)"
    using positive_str_chars [OF that] positive_str_not_Nil [of x]
    by (cases "positive_str x") (auto simp: is_digit_def less_eq_char_def)
  consider "x = 0" | "x < 0" | "0 < x" by linarith
  then show ?thesis
  proof cases
    case 1
    then show ?thesis
      by (simp add: num_str_def read_num_def read_decimal_def read_radix_def digit_val_def)
  next
    case 2
    with assms show ?thesis
      using positive_str_reads [of "- x"] by (simp add: num_str_def read_num_def)
  next
    case 3
    with assms show ?thesis
      using positive_str_reads [of x] hd by (simp add: num_str_def read_num_def)
  qed
qed

lemma num_str_example:
  "num_str (- 5 / 4) = ''-1.25''" "read_num ''-1.25'' = - 5 / 4" "num_str (1 / 8) = ''0.125''"
  by code_simp+

end
