(* ===== verification/Jcs.thy ===== *)
theory Jcs
  imports Numerals "HOL-Library.Word"
begin

text \<open>
  \<open>packages/reading-engine/src/jcs.ts\<close>, the RFC 8785 canonical form that the assembly identity is
  hashed from. Texts are lists of UTF-16 code units, as JavaScript strings are, so the surrogate
  checks are modelled at their width.
\<close>

section \<open>Values and errors\<close>

type_synonym units = "16 word list"

definition units :: "string \<Rightarrow> units" where
  "units s = map (\<lambda>c. of_nat (of_char c)) s"

text \<open>
  What \<open>typeof\<close> and the prototype test tell apart. A non-finite number carries its name, another
  type (\<open>bigint\<close>, \<open>function\<close>, \<open>symbol\<close>) the name of the type. An object is the list of its
  own enumerable string keys, which are distinct.
\<close>

datatype jvalue =
    JUndefined
  | JNullValue
  | JBoolean bool
  | JNumber js_num
  | JNonFinite string
  | JText units
  | JOther string
  | JArray "jvalue list"
  | JObject "(units \<times> jvalue) list"
  | JInstance

datatype jcs_problem =
    UnpairedHigh | UnpairedLow | NonFinite string | NeedsExponent string | UndefinedValue
  | UndefinedProperty units | NotIJson string | NotPlain

text \<open>\<open>CanonicalizationError\<close>: what is wrong, and the path.\<close>

datatype jcs_error = JcsError jcs_problem units

section \<open>Strings\<close>

text \<open>Each short escape is a backslash and one character.\<close>

definition short_escapes :: "(16 word \<times> string) list" where
  "short_escapes =
     [(0x08, [CHR 0x5C, CHR ''b'']), (0x09, [CHR 0x5C, CHR ''t'']), (0x0a, [CHR 0x5C, CHR ''n'']),
      (0x0c, [CHR 0x5C, CHR ''f'']), (0x0d, [CHR 0x5C, CHR ''r'']), (0x22, [CHR 0x5C, CHR 0x22]),
      (0x5c, [CHR 0x5C, CHR 0x5C])]"

definition quote_unit :: "16 word" where
  "quote_unit = 0x22"

definition is_high :: "16 word \<Rightarrow> bool" where
  "is_high c = (0xd800 \<le> c \<and> c \<le> 0xdbff)"

definition is_low :: "16 word \<Rightarrow> bool" where
  "is_low c = (0xdc00 \<le> c \<and> c \<le> 0xdfff)"

definition control_escape :: "16 word \<Rightarrow> units" where
  "control_escape c = units (CHR 0x5C # CHR ''u'' # pad_start 4 (CHR ''0'') (hex_str (unat c)))"

fun escape_units :: "units \<Rightarrow> units \<Rightarrow> jcs_error + units" where
  "escape_units path [] = Inr []"
| "escape_units path (c # cs) =
     (case map_of short_escapes c of
        Some e \<Rightarrow> and_then (escape_units path cs) (\<lambda>r. Inr (units e @ r))
      | None \<Rightarrow>
         if c < 0x20 then and_then (escape_units path cs) (\<lambda>r. Inr (control_escape c @ r))
         else if is_high c then
           (case cs of
              [] \<Rightarrow> Inl (JcsError UnpairedHigh path)
            | d # ds \<Rightarrow>
                if \<not> is_low d then Inl (JcsError UnpairedHigh path)
                else and_then (escape_units path ds) (\<lambda>r. Inr (c # d # r)))
         else if is_low c then Inl (JcsError UnpairedLow path)
         else and_then (escape_units path cs) (\<lambda>r. Inr (c # r)))"

definition canonical_string :: "units \<Rightarrow> units \<Rightarrow> jcs_error + units" where
  "canonical_string value path =
     and_then (escape_units path value) (\<lambda>body. Inr (quote_unit # body @ [quote_unit]))"

section \<open>Numbers\<close>

definition canonical_number :: "js_num \<Rightarrow> units \<Rightarrow> jcs_error + units" where
  "canonical_number value path =
     (let rendered = num_str value in
      if CHR ''e'' \<in> set rendered \<or> CHR ''E'' \<in> set rendered then Inl (JcsError (NeedsExponent rendered) path)
      else if rendered = ''-0'' then Inr (units ''0'') else Inr (units rendered))"

section \<open>Values\<close>

fun joined :: "units list \<Rightarrow> units" where
  "joined [] = []"
| "joined [x] = x"
| "joined (x # xs) = x @ units '','' @ joined xs"

definition key_path :: "units \<Rightarrow> units \<Rightarrow> units" where
  "key_path path key = (if path \<noteq> [] then path @ units ''.'' @ key else key)"

definition index_path :: "units \<Rightarrow> nat \<Rightarrow> units" where
  "index_path path i = path @ units (''['' @ nat_str i @ '']'')"

text \<open>
  One turn of the loop over the sorted keys. The outcome of the property's value is computed
  beforehand: the recursive call has no effect but its result, which is read only here.
\<close>

definition member_text :: "units \<Rightarrow> units \<times> bool \<times> (jcs_error + units) \<Rightarrow> jcs_error + units" where
  "member_text path m =
     (case m of (key, absent, child) \<Rightarrow>
       if absent then Inl (JcsError (UndefinedProperty key) path)
       else and_then (canonical_string key path) (\<lambda>k. and_then child (\<lambda>v. Inr (k @ units '':'' @ v))))"

definition by_key :: "units \<times> 'a \<Rightarrow> units \<times> 'a \<Rightarrow> int" where
  "by_key a b = cmp_asc (fst a) (fst b)"

lemma size_enumerate [termination_simp]:
  "(i, v) \<in> set (enumerate n vs) \<Longrightarrow> size v < Suc (size_list size vs)"
proof -
  assume "(i, v) \<in> set (enumerate n vs)"
  then have "v \<in> set vs" by (auto simp: enumerate_eq_zip dest: set_zip_rightD)
  then show ?thesis by (metis less_Suc_eq_le order_refl size_list_estimation')
qed

fun canonicalize :: "jvalue \<Rightarrow> units \<Rightarrow> jcs_error + units" where
  "canonicalize JNullValue path = Inr (units ''null'')"
| "canonicalize (JBoolean b) path = Inr (units (if b then ''true'' else ''false''))"
| "canonicalize (JText s) path = canonical_string s path"
| "canonicalize (JNumber n) path = canonical_number n path"
| "canonicalize (JNonFinite name) path = Inl (JcsError (NonFinite name) path)"
| "canonicalize JUndefined path = Inl (JcsError UndefinedValue path)"
| "canonicalize (JOther name) path = Inl (JcsError (NotIJson name) path)"
| "canonicalize JInstance path = Inl (JcsError NotPlain path)"
| "canonicalize (JArray vs) path =
     and_then (map_throw (\<lambda>r. r) (map (\<lambda>(i, v). canonicalize v (index_path path i)) (enumerate 0 vs)))
       (\<lambda>parts. Inr (units ''['' @ joined parts @ units '']''))"
| "canonicalize (JObject es) path =
     and_then (map_throw (member_text path) (js_sort by_key
         (map (\<lambda>(k, v). (k, v = JUndefined, canonicalize v (key_path path k))) es)))
       (\<lambda>parts. Inr (units ''{'' @ joined parts @ units ''}''))"

definition jcs_canonicalize :: "jvalue \<Rightarrow> jcs_error + units" where
  "jcs_canonicalize value = canonicalize value []"

section \<open>Encoded units form a prefix code\<close>

lemma units_simps [simp]:
  "units [] = []" "units (c # s) = of_nat (of_char c) # units s" "units (s @ t) = units s @ units t"
  by (simp_all add: units_def)

lemma inj_units: "units s = units t \<longleftrightarrow> s = t"
proof -
  have "inj (\<lambda>c. of_nat (of_char c) :: 16 word)"
  proof (rule injI)
    fix c d :: char
    assume "(of_nat (of_char c) :: 16 word) = of_nat (of_char d)"
    then have "unat (of_nat (of_char c) :: 16 word) = unat (of_nat (of_char d) :: 16 word)" by simp
    moreover have "(of_char x :: nat) < 2 ^ 16" for x by (rule less_trans [of _ 256]) simp_all
    ultimately have "(of_char c :: nat) = of_char d"
      by (simp add: unat_of_nat take_bit_nat_eq_self_iff)
    then show "c = d" by simp
  qed
  then show ?thesis
    by (simp add: units_def inj_map_eq_map)
qed

definition enc :: "16 word \<Rightarrow> units" where
  "enc c = (case map_of short_escapes c of
     Some e \<Rightarrow> units e
   | None \<Rightarrow> if c < 0x20 then control_escape c else [c])"

lemma escape_units_enc: "escape_units path s = Inr a \<Longrightarrow> a = concat (map enc s)"
proof (induction path s arbitrary: a rule: escape_units.induct)
  case (2 path c cs)
  have plain: "map_of short_escapes d = None \<and> \<not> d < 0x20" if "is_high d \<or> is_low d" for d
    using that by (auto simp: is_high_def is_low_def short_escapes_def word_le_nat_alt word_less_nat_alt)
  show ?case
  proof (cases "map_of short_escapes c")
    case None
    show ?thesis
    proof (cases "c < 0x20")
      case True
      with None 2 show ?thesis by (auto simp: and_then_Inr enc_def)
    next
      case False
      show ?thesis
      proof (cases "is_high c")
        case True
        with False None "2.prems" obtain d ds r where "cs = d # ds" "is_low d" "escape_units path ds = Inr r" "a = c # d # r"
          by (auto simp: and_then_Inr split: list.splits if_splits)
        moreover from this have "r = concat (map enc ds)"
          using "2.IH"(2) [OF None False True \<open>cs = d # ds\<close>] \<open>is_low d\<close> by simp
        moreover have "enc c = [c]" "enc d = [d]"
          using True False None plain [of d] \<open>is_low d\<close> by (simp_all add: enc_def)
        ultimately show ?thesis by simp
      next
        case nh: False
        with False None 2 show ?thesis by (auto simp: and_then_Inr enc_def split: if_splits)
      qed
    qed
  next
    case (Some e)
    with 2 show ?thesis by (auto simp: and_then_Inr enc_def)
  qed
qed simp

lemma hex_two: "n < 32 \<Longrightarrow> length (hex_str n) \<le> 4"
  by (simp add: hex_str_def nat_radix.simps [of 16 n] nat_radix.simps [of 16 "n div 16"] nat_radix.simps [of 16 0])

lemma control_escape_prefix:
  assumes "c < 0x20" and "d < 0x20" and "control_escape c @ x = control_escape d @ y"
  shows "c = d \<and> x = y"
proof -
  have u: "unat c < 32" "unat d < 32"
    using assms(1,2) by (simp_all add: word_less_nat_alt)
  then have "length (control_escape c) = length (control_escape d)"
    by (simp add: control_escape_def units_def length_pad_start hex_two)
  with assms(3) have "control_escape c = control_escape d" "x = y"
    by (simp_all add: append_eq_append_conv)
  then have "pad_start 4 (CHR ''0'') (hex_str (unat c)) = pad_start 4 (CHR ''0'') (hex_str (unat d))"
    by (simp add: control_escape_def inj_units)
  then have "read_radix 16 (hex_str (unat c)) = read_radix 16 (hex_str (unat d))"
    by (metis read_pad_start)
  then have "unat c = unat d" by (simp add: hex_str_def read_nat_radix)
  with \<open>x = y\<close> show ?thesis by (simp add: word_unat_eq_iff)
qed

lemma enc_cases:
  obtains (short) e where "map_of short_escapes c = Some e" "enc c = units e"
  | (control) "map_of short_escapes c = None" "c < 0x20" "enc c = control_escape c"
  | (plain) "c \<noteq> 0x22" "c \<noteq> 0x5c" "enc c = [c]"
proof (cases "map_of short_escapes c")
  case None
  then have "c \<noteq> 0x22" "c \<noteq> 0x5c" by (auto simp: short_escapes_def split: if_splits)
  then show ?thesis using None control plain by (cases "c < 0x20") (simp_all add: enc_def)
qed (use short in \<open>simp add: enc_def\<close>)

lemma short_form:
  "map_of short_escapes c = Some e \<Longrightarrow> \<exists>z. e = [CHR 0x5C, z] \<and> z \<noteq> CHR ''u''"
  by (auto simp: short_escapes_def split: if_splits)

lemma short_inj:
  "map_of short_escapes c = Some e \<Longrightarrow> map_of short_escapes d = Some e \<Longrightarrow> c = d"
  by (auto simp: short_escapes_def split: if_splits)

lemma enc_not_quote: "enc c \<noteq> [] \<and> hd (enc c) \<noteq> quote_unit"
  by (cases rule: enc_cases [of c]) (auto simp: control_escape_def quote_unit_def dest!: short_form)

lemma enc_prefix: "enc c @ x = enc d @ y \<Longrightarrow> c = d \<and> x = y"
proof -
  assume eq: "enc c @ x = enc d @ y"
  show ?thesis
  proof (cases rule: enc_cases [of c])
    case (short e)
    then obtain z where z: "e = [CHR 0x5C, z]" "z \<noteq> CHR ''u''" by (auto dest: short_form)
    show ?thesis
    proof (cases rule: enc_cases [of d])
      case s: (short f)
      then obtain w where "f = [CHR 0x5C, w]" by (auto dest: short_form)
      with s short z eq show ?thesis
        using short_inj [of c e d] inj_units [of "[z]" "[w]"] by simp
    next
      case control
      with short z eq show ?thesis
        using inj_units [of "[z]" "[CHR ''u'']"] by (simp add: control_escape_def)
    next
      case plain
      with short z eq show ?thesis by simp
    qed
  next
    case control
    show ?thesis
    proof (cases rule: enc_cases [of d])
      case s: (short f)
      then obtain w where "f = [CHR 0x5C, w]" "w \<noteq> CHR ''u''" by (auto dest: short_form)
      with s control eq show ?thesis
        using inj_units [of "[w]" "[CHR ''u'']"] by (simp add: control_escape_def)
    next
      case second: control
      have "control_escape c @ x = control_escape d @ y"
        using eq by (simp only: control(3) second(3))
      then show ?thesis
        by (rule control_escape_prefix [OF control(2) second(2)])
    next
      case plain
      with control eq show ?thesis by (simp add: control_escape_def)
    qed
  next
    case plain
    show ?thesis
    proof (cases rule: enc_cases [of d])
      case s: (short f)
      then obtain w where "f = [CHR 0x5C, w]" by (auto dest: short_form)
      with s plain eq show ?thesis by simp
    next
      case control
      with plain eq show ?thesis by (simp add: control_escape_def)
    next
      case p: plain
      with plain eq show ?thesis by simp
    qed
  qed
qed

lemma quoted_prefix:
  "concat (map enc s) @ quote_unit # r = concat (map enc t) @ quote_unit # r' \<Longrightarrow> s = t \<and> r = r'"
proof (induction s arbitrary: t)
  case Nil
  then show ?case
    using enc_not_quote [of "hd t"] by (cases t; cases "enc (hd t)") auto
next
  case (Cons c s)
  show ?case
  proof (cases t)
    case Nil
    with Cons.prems show ?thesis
      using enc_not_quote [of c] by (cases "enc c") auto
  next
    case (Cons d t')
    with Cons.prems have "enc c @ (concat (map enc s) @ quote_unit # r) = enc d @ (concat (map enc t') @ quote_unit # r')"
      by simp
    from enc_prefix [OF this] Cons.IH Cons show ?thesis by simp
  qed
qed

lemma canonical_string_prefix:
  assumes "canonical_string s p = Inr a" and "canonical_string t q = Inr b" and "a @ r = b @ r'"
  shows "s = t \<and> r = r'"
proof -
  have "a = quote_unit # concat (map enc s) @ [quote_unit]" "b = quote_unit # concat (map enc t) @ [quote_unit]"
    using assms(1,2) by (auto simp: canonical_string_def and_then_Inr dest!: escape_units_enc)
  with assms(3) show ?thesis
    by (intro quoted_prefix) simp
qed

section \<open>Numbers\<close>

text \<open>The structural units after which a canonical value can stand, or the end.\<close>

definition closes :: "units \<Rightarrow> bool" where
  "closes r = (r = [] \<or> hd r \<in> set (units '',]}''))"

lemma canonical_number_text:
  assumes "canonical_number v p = Inr a"
  shows "a = units (num_str v)" "CHR ''e'' \<notin> set (num_str v)"
proof -
  have "num_str v \<noteq> ''-0''" if "CHR ''e'' \<notin> set (num_str v)"
  proof
    assume z: "num_str v = ''-0''"
    then have "v = read_num ''-0''" using read_num_str [OF that] by simp
    also have "\<dots> = 0" by (simp add: read_num_def read_decimal_def read_radix_def digit_val_def)
    finally show False using z by (simp add: num_str_def)
  qed
  then show "a = units (num_str v)" "CHR ''e'' \<notin> set (num_str v)"
    using assms by (auto simp: canonical_number_def Let_def split: if_splits)
qed

definition number_unit :: "16 word \<Rightarrow> bool" where
  "number_unit u = (\<exists>c. number_char c \<and> u = of_nat (of_char c))"

lemma number_units: "list_all number_char s \<Longrightarrow> list_all number_unit (units s)"
  by (auto simp: list_all_iff units_def number_unit_def)

lemma number_unit_range: "number_unit u \<Longrightarrow> u = 0x2d \<or> u = 0x2e \<or> (0x30 \<le> u \<and> u \<le> 0x39)"
proof -
  assume "number_unit u"
  then obtain c where c: "number_char c" "u = of_nat (of_char c)" by (auto simp: number_unit_def)
  then consider "c = CHR ''.''" | "c = CHR ''-''" | "is_digit c" by (auto simp: number_char_def)
  then show ?thesis
  proof cases
    case 3
    define n :: nat where "n = of_char c"
    have "48 \<le> n" "n \<le> 57"
      using 3 by (simp_all add: is_digit_def less_eq_char_def n_def)
    moreover have "u = of_nat n" using c(2) by (simp add: n_def)
    moreover have "unat (of_nat n :: 16 word) = n"
      using \<open>n \<le> 57\<close> by (simp add: unat_of_nat take_bit_nat_eq_self_iff)
    ultimately show ?thesis by (simp add: word_le_nat_alt)
  qed (simp_all add: c)
qed

lemma closes_not_number: "closes r \<Longrightarrow> r \<noteq> [] \<Longrightarrow> \<not> number_unit (hd r)"
  by (auto simp: closes_def dest!: number_unit_range)

lemma canonical_number_prefix:
  assumes "canonical_number v p = Inr a" and "canonical_number w q = Inr b" and "a @ r = b @ r'"
    and "closes r" and "closes r'"
  shows "v = w \<and> r = r'"
proof -
  have take: "takeWhile number_unit (units (num_str x) @ t) = units (num_str x)"
    if "CHR ''e'' \<notin> set (num_str x)" "closes t" for x t
  proof -
    have "takeWhile number_unit t = []"
      using closes_not_number [OF that(2)] by (cases t) auto
    then show ?thesis
      using number_units [OF num_str_chars [OF that(1)]] by (simp add: takeWhile_append list_all_iff)
  qed
  note a = canonical_number_text [OF assms(1)] and b = canonical_number_text [OF assms(2)]
  have "units (num_str v) = units (num_str w)"
    using assms(3) take [OF a(2) assms(4)] take [OF b(2) assms(5)] by (simp add: a(1) b(1))
  then have "num_str v = num_str w" by (simp add: inj_units)
  moreover from this have "v = w"
    using read_num_str [OF a(2)] read_num_str [OF b(2)] by metis
  moreover from calculation have "a = b" by (simp only: a(1) b(1))
  ultimately show ?thesis using assms(3) by blast
qed

section \<open>Values\<close>

text \<open>The first unit of a canonical text tells its kind.\<close>

fun value_kind :: "jvalue \<Rightarrow> nat" where
  "value_kind JNullValue = 1"
| "value_kind (JBoolean b) = (if b then 2 else 3)"
| "value_kind (JText s) = 4"
| "value_kind (JNumber n) = 5"
| "value_kind (JArray vs) = 6"
| "value_kind (JObject es) = 7"
| "value_kind _ = 8"

definition unit_kind :: "16 word \<Rightarrow> nat" where
  "unit_kind u = (if u = 0x6e then 1 else if u = 0x74 then 2 else if u = 0x66 then 3
     else if u = quote_unit then 4 else if u = 0x5b then 6 else if u = 0x7b then 7
     else if number_unit u then 5 else 0)"

lemma canonical_head:
  assumes "canonicalize v path = Inr s"
  shows "s \<noteq> [] \<and> unit_kind (hd s) = value_kind v"
proof (cases v)
  case (JNumber n)
  with assms have s: "s = units (num_str n)" "CHR ''e'' \<notin> set (num_str n)"
    by (auto dest: canonical_number_text)
  have "s \<noteq> []" by (simp add: s(1) units_def)
  moreover from this have "number_unit (hd s)"
    using number_units [OF num_str_chars [OF s(2)]] hd_in_set [of s] by (simp add: s(1) list_all_iff)
  ultimately have "s \<noteq> []" "number_unit (hd s)" by blast+
  with number_unit_range [OF this(2)] JNumber show ?thesis
    by (auto simp: unit_kind_def quote_unit_def)
qed ((use assms in \<open>clarsimp simp: unit_kind_def quote_unit_def canonical_string_def and_then_Inr\<close>)+)

text \<open>The normal form: the members of every object in the order of their keys.\<close>

fun norm_value :: "jvalue \<Rightarrow> jvalue" where
  "norm_value (JArray vs) = JArray (map norm_value vs)"
| "norm_value (JObject es) = JObject (js_sort by_key (map (\<lambda>(k, v). (k, norm_value v)) es))"
| "norm_value v = v"

lemma sort_members: "js_sort by_key (map (\<lambda>(k, v). (k, g k v)) es) = map (\<lambda>(k, v). (k, g k v)) (js_sort by_key es)"
  by (rule js_sort_map) (auto simp: by_key_def)

text \<open>A list of texts that each determine their element determines the list.\<close>

lemma joined_prefix:
  assumes "list_all2 T xs ps" and "list_all2 T ys qs" and "joined ps @ c # r = joined qs @ c # r'"
    and "c = 0x5d \<or> c = 0x7d"
    and start: "\<And>x p. T x p \<Longrightarrow> p \<noteq> [] \<and> hd p \<notin> {0x2c, 0x5d, 0x7d}"
    and step: "\<And>x p y q r r'. x \<in> set xs \<Longrightarrow> T x p \<Longrightarrow> T y q \<Longrightarrow> p @ r = q @ r' \<Longrightarrow> closes r \<Longrightarrow> closes r' \<Longrightarrow>
      g x = g y \<and> r = r'"
  shows "map g xs = map g ys \<and> r = r'"
  using assms(1-3) step
proof (induction xs arbitrary: ps ys qs)
  case Nil
  show ?case
  proof (cases ys)
    case (Cons y ys')
    with Nil.prems(2) obtain q qs' where "qs = q # qs'" "T y q" by (auto simp: list_all2_Cons1)
    with Nil.prems(1,3) start [of y q] assms(4) show ?thesis
      by (cases q; cases qs') auto
  qed (use Nil in auto)
next
  case (Cons x xs)
  from Cons.prems(1) obtain p ps' where p: "ps = p # ps'" "T x p" "list_all2 T xs ps'"
    by (auto simp: list_all2_Cons1)
  define rest where "rest = (\<lambda>ts t. if ts = [] then c # t else 0x2c # joined ts @ c # t)"
  have joined_rest: "joined (u # us) @ c # t = u @ rest us t" for u us t
    by (cases us) (simp_all add: rest_def)
  have rest_closes: "closes (rest ts t)" for ts t
    using assms(4) by (auto simp: rest_def closes_def)
  show ?case
  proof (cases ys)
    case Nil
    with Cons.prems(2,3) p start [of x p] assms(4) show ?thesis
      by (cases p; cases ps') auto
  next
    case (Cons y ys')
    with Cons.prems(2) obtain q qs' where q: "qs = q # qs'" "T y q" "list_all2 T ys' qs'"
      by (auto simp: list_all2_Cons1)
    have "p @ rest ps' r = q @ rest qs' r'"
      using Cons.prems(3) by (simp only: p(1) q(1) joined_rest)
    from Cons.prems(4) [OF _ p(2) q(2) this rest_closes rest_closes]
    have eq: "g x = g y" "rest ps' r = rest qs' r'" by simp_all
    have empty: "ps' = [] \<longleftrightarrow> qs' = []"
      using eq(2) assms(4) by (auto simp: rest_def split: if_splits)
    have tails: "joined ps' @ c # r = joined qs' @ c # r'"
      using eq(2) empty by (cases "ps' = []") (auto simp: rest_def)
    have "map g xs = map g ys' \<and> r = r'"
      by (rule Cons.IH [OF p(3) q(3) tails], rule Cons.prems(4)) (simp_all only: list.set insert_iff simp_thms)
    with eq(1) Cons show ?thesis by simp
  qed
qed

text \<open>The texts of an array's elements and of an object's members, in their order.\<close>

lemma array_text:
  assumes "canonicalize (JArray vs) path = Inr s"
  obtains ps where "list_all2 (\<lambda>v p. \<exists>path. canonicalize v path = Inr p) vs ps"
    and "s = 0x5b # joined ps @ [0x5d]"
proof -
  from assms obtain ps where "map_throw (\<lambda>r. r) (map (\<lambda>(i, v). canonicalize v (index_path path i)) (enumerate 0 vs)) = Inr ps"
      and s: "s = 0x5b # joined ps @ [0x5d]"
    by (auto simp: and_then_Inr)
  then have m: "map (\<lambda>(i, v). canonicalize v (index_path path i)) (enumerate 0 vs) = map Inr ps"
    by (simp add: map_throw_Inr)
  have "length vs = length ps" using arg_cong [OF m, of length] by simp
  moreover have "canonicalize (vs ! i) (index_path path i) = Inr (ps ! i)" if "i < length vs" for i
    using arg_cong [OF m, of "\<lambda>xs. xs ! i"] that calculation by (simp add: nth_enumerate_eq)
  ultimately show thesis
    using that [OF _ s] by (auto simp: list_all2_conv_all_nth)
qed

definition member_of :: "units \<times> jvalue \<Rightarrow> units \<Rightarrow> bool" where
  "member_of m p = (\<exists>path k v path'. canonical_string (fst m) path = Inr k \<and>
     canonicalize (snd m) path' = Inr v \<and> p = k @ 0x3a # v)"

lemma object_text:
  assumes "canonicalize (JObject es) path = Inr s"
  obtains ps where "list_all2 member_of (js_sort by_key es) ps" and "s = 0x7b # joined ps @ [0x7d]"
proof -
  let ?f = "\<lambda>(k, v). (k, v = JUndefined, canonicalize v (key_path path k))"
  from assms obtain ps where "map_throw (member_text path) (js_sort by_key (map ?f es)) = Inr ps"
      and s: "s = 0x7b # joined ps @ [0x7d]"
    by (auto simp: and_then_Inr)
  moreover have "js_sort by_key (map ?f es) = map ?f (js_sort by_key es)"
    using sort_members [of "\<lambda>k v. (v = JUndefined, canonicalize v (key_path path k))" es] by simp
  ultimately have "map (member_text path) (map ?f (js_sort by_key es)) = map Inr ps"
    by (simp only: map_throw_Inr)
  then have "list_all2 (\<lambda>m p. member_text path (?f m) = Inr p) (js_sort by_key es) ps"
    by (simp add: list_all2_conv_all_nth list_eq_iff_nth_eq comp_def)
  then have "list_all2 member_of (js_sort by_key es) ps"
    by (rule list_all2_mono) (clarsimp simp: member_of_def member_text_def and_then_Inr split: if_splits, blast)
  then show thesis using that s by blast
qed

lemma member_start: "member_of m p \<Longrightarrow> p \<noteq> [] \<and> hd p \<notin> {0x2c, 0x5d, 0x7d}"
  by (auto simp: member_of_def canonical_string_def and_then_Inr quote_unit_def)

lemma value_start: "canonicalize v path = Inr p \<Longrightarrow> p \<noteq> [] \<and> hd p \<notin> {0x2c, 0x5d, 0x7d}"
proof -
  assume "canonicalize v path = Inr p"
  then have "p \<noteq> []" "unit_kind (hd p) = value_kind v" by (auto dest: canonical_head)
  moreover have "value_kind v \<noteq> 0" by (cases v) simp_all
  moreover have "unit_kind u = 0" if "u \<in> {0x2c, 0x5d, 0x7d}" for u
    using that number_unit_range [of u] by (auto simp: unit_kind_def quote_unit_def word_le_nat_alt)
  ultimately show ?thesis by metis
qed

lemma same_kind:
  assumes "canonicalize v path = Inr s" and "canonicalize w path' = Inr t" and "s @ r = t @ r'"
  shows "value_kind v = value_kind w"
  using canonical_head [OF assms(1)] canonical_head [OF assms(2)] assms(3) by (cases s; cases t) auto

lemma canonicalize_prefix:
  "canonicalize v path = Inr s \<Longrightarrow> canonicalize w path' = Inr t \<Longrightarrow> s @ r = t @ r' \<Longrightarrow>
   closes r \<Longrightarrow> closes r' \<Longrightarrow> norm_value v = norm_value w \<and> r = r'"
proof (induction v arbitrary: w path path' s t r r')
  case (JArray vs)
  obtain ps where ps: "list_all2 (\<lambda>v p. \<exists>path. canonicalize v path = Inr p) vs ps" "s = 0x5b # joined ps @ [0x5d]"
    using array_text [OF JArray.prems(1)] .
  have "value_kind w = 6"
    using same_kind [OF JArray.prems(1,2,3)] by simp
  then obtain ws where w: "w = JArray ws" by (cases w) (auto split: if_splits)
  obtain qs where qs: "list_all2 (\<lambda>v p. \<exists>path. canonicalize v path = Inr p) ws qs" "t = 0x5b # joined qs @ [0x5d]"
    using array_text JArray.prems(2) unfolding w .
  have eq: "joined ps @ 0x5d # r = joined qs @ 0x5d # r'"
    using JArray.prems(3) ps(2) qs(2) by simp
  have "map norm_value vs = map norm_value ws \<and> r = r'"
  proof (rule joined_prefix [OF ps(1) qs(1) eq], simp)
    show "p \<noteq> [] \<and> hd p \<notin> {0x2c, 0x5d, 0x7d}" if "\<exists>path. canonicalize v path = Inr p" for v p
      using that value_start by blast
  qed (use JArray.IH in blast)
  then show ?case by (simp add: w)
next
  case (JObject es)
  obtain ps where ps: "list_all2 member_of (js_sort by_key es) ps" "s = 0x7b # joined ps @ [0x7d]"
    using object_text [OF JObject.prems(1)] .
  have "value_kind w = 7"
    using same_kind [OF JObject.prems(1,2,3)] by simp
  then obtain fs where w: "w = JObject fs" by (cases w) (auto split: if_splits)
  obtain qs where qs: "list_all2 member_of (js_sort by_key fs) qs" "t = 0x7b # joined qs @ [0x7d]"
    using object_text JObject.prems(2) unfolding w .
  have eq: "joined ps @ 0x7d # r = joined qs @ 0x7d # r'"
    using JObject.prems(3) ps(2) qs(2) by simp
  let ?n = "\<lambda>(k, v). (k, norm_value v)"
  have "map ?n (js_sort by_key es) = map ?n (js_sort by_key fs) \<and> r = r'"
  proof (rule joined_prefix [OF ps(1) qs(1) eq], simp)
    fix m p m' q u u'
    assume m: "m \<in> set (js_sort by_key es)" and p: "member_of m p" and q: "member_of m' q"
      and eq: "p @ u = q @ u'" and u: "closes u" "closes u'"
    obtain x k a b where a: "canonical_string (fst m) x = Inr k" "canonicalize (snd m) b = Inr a" "p = k @ 0x3a # a"
      using p by (auto simp: member_of_def)
    obtain y l c d where c: "canonical_string (fst m') y = Inr l" "canonicalize (snd m') d = Inr c" "q = l @ 0x3a # c"
      using q by (auto simp: member_of_def)
    have "k @ (0x3a # a @ u) = l @ (0x3a # c @ u')"
      using eq a(3) c(3) by simp
    from canonical_string_prefix [OF a(1) c(1) this]
    have "fst m = fst m'" "a @ u = c @ u'" by simp_all
    moreover have "(fst m, snd m) \<in> set es" using m by simp
    ultimately show "?n m = ?n m' \<and> u = u'"
      using JObject.IH [of "(fst m, snd m)" "snd m" b a "snd m'" d c u u'] a(2) c(2) u
      by (auto simp: case_prod_unfold)
  qed (rule member_start)
  then show ?case by (simp add: w sort_members)
next
  case JNullValue
  then have "w = JNullValue"
    using same_kind [OF JNullValue.prems(1,2,3)] by (cases w) (auto split: if_splits)
  with JNullValue show ?case by simp
next
  case (JBoolean b)
  then have "w = JBoolean b"
    using same_kind [OF JBoolean.prems(1,2,3)] by (cases w; cases b) (auto split: if_splits)
  with JBoolean show ?case by simp
next
  case (JText x)
  then obtain y where w: "w = JText y"
    using same_kind [OF JText.prems(1,2,3)] by (cases w) (auto split: if_splits)
  with JText canonical_string_prefix [of x path s y path' t r r'] show ?case by simp
next
  case (JNumber x)
  then obtain y where w: "w = JNumber y"
    using same_kind [OF JNumber.prems(1,2,3)] by (cases w) (auto split: if_splits)
  with JNumber canonical_number_prefix [of x path s y path' t r r'] show ?case by simp
qed simp_all

section \<open>Properties\<close>

interpretation member_order: keyed_comparator "by_key :: units \<times> 'a \<Rightarrow> units \<times> 'a \<Rightarrow> int" fst
  by unfold_locales (auto simp: by_key_def cmp_asc_def)

lemma canonical_determines:
  assumes "jcs_canonicalize v = Inr s" and "jcs_canonicalize w = Inr s"
  shows "norm_value v = norm_value w"
proof -
  have "closes []" by (simp add: closes_def)
  with canonicalize_prefix [OF assms(1,2) [unfolded jcs_canonicalize_def] refl] show ?thesis by blast
qed

text \<open>
  C33: two values with the same canonical text are the same value up to the order of object
  members, so a digest of the text binds the value.
\<close>
theorem canonical_text_determines_value:
  assumes "jcs_canonicalize v = Inr s" and "jcs_canonicalize w = Inr s"
  shows "norm_value v = norm_value w"
  using assms by (rule canonical_determines)

theorem canonical_text_determines_value_witness:
  "\<exists>s. jcs_canonicalize (JObject [(units ''b'', JNullValue), (units ''a'', JText (units ''x''))]) = Inr s \<and>
    jcs_canonicalize (JObject [(units ''a'', JText (units ''x'')), (units ''b'', JNullValue)]) = Inr s \<and>
    norm_value (JObject [(units ''b'', JNullValue), (units ''a'', JText (units ''x''))]) =
    norm_value (JObject [(units ''a'', JText (units ''x'')), (units ''b'', JNullValue)])"
proof -
  let ?v = "JObject [(units ''b'', JNullValue), (units ''a'', JText (units ''x''))]"
  let ?w = "JObject [(units ''a'', JText (units ''x'')), (units ''b'', JNullValue)]"
  have "jcs_canonicalize ?v = jcs_canonicalize ?w" "\<not> isl (jcs_canonicalize ?v)"
    by code_simp+
  then obtain s where "jcs_canonicalize ?v = Inr s" "jcs_canonicalize ?w = Inr s"
    by (metis sum.collapse(2))
  then show ?thesis
    using canonical_text_determines_value by blast
qed

text \<open>
  the canonical text of an object does not depend on the order of its members.
\<close>
theorem canonical_text_ignores_member_order:
  assumes "mset es = mset fs" and "distinct (map fst es)"
  shows "jcs_canonicalize (JObject es) = jcs_canonicalize (JObject fs)"
proof -
  let ?f = "\<lambda>(k, v). (k, v = JUndefined, canonicalize v (key_path [] k))"
  have "js_sort by_key (map ?f es) = js_sort by_key (map ?f fs)"
  proof (rule member_order.js_sort_unique)
    show "mset (map ?f es) = mset (map ?f fs)"
      using assms(1) by (simp only: mset_map)
    show "inj_on fst (set (map ?f es))"
      using assms(2) by (auto simp: inj_on_def dest: eq_key_imp_eq_value [OF assms(2)])
  qed
  then show ?thesis
    by (simp add: jcs_canonicalize_def)
qed

theorem canonical_text_ignores_member_order_witness:
  "jcs_canonicalize (JObject [(units ''b'', JNullValue), (units ''a'', JBoolean True)]) =
   jcs_canonicalize (JObject [(units ''a'', JBoolean True), (units ''b'', JNullValue)])"
  by (rule canonical_text_ignores_member_order) simp_all

end
