(* ===== verification/Reading_Types.thy ===== *)
theory Reading_Types
  imports Pattern_Types Jcs
begin

text \<open>
  The wire and engine types of \<open>packages/reading-engine/src/types.ts\<close>. Closed unions the
  code branches on are datatypes; ids, labels and enumerations the engine only compares or copies
  are strings. Instants are the strings the code carries.
\<close>

section \<open>Errors\<close>

text \<open>What the engine throws: a plain \<open>Error\<close>, or one of its error classes with its code.\<close>

datatype engine_error =
    PhaseError string
  | IdentityInconsistent string
  | AssemblyError string string
  | NotCanonical jcs_error
  | NullDereference

section \<open>Phases\<close>

datatype cycle_phase = Emerging | Building | Peak | Reconsidering | Integrating

fun phase_str :: "cycle_phase \<Rightarrow> string" where
  "phase_str Emerging = ''emerging''"
| "phase_str Building = ''building''"
| "phase_str Peak = ''peak''"
| "phase_str Reconsidering = ''reconsidering''"
| "phase_str Integrating = ''integrating''"

lemma phase_str_inj [simp]: "phase_str p = phase_str q \<longleftrightarrow> p = q"
  by (cases p; cases q) simp_all

section \<open>Uncertainty\<close>

record suppressed_feature =
  sf_class :: string
  sf_id :: "string option"
  sf_reason :: string

record qualified_feature =
  qf_id :: string
  qf_qualification :: string

record uncertainty_input =
  un_accuracy :: birth_time_accuracy
  un_window :: "js_num option"
  un_suppressed :: "suppressed_feature list"
  un_qualified :: "qualified_feature list"

section \<open>Calculated input\<close>

record cycle_pass =
  pass_index :: nat
  pass_direction :: string
  pass_exact_at :: string
  pass_speed :: js_num

record normalized_cycle =
  cy_id :: string
  cy_technique :: string
  cy_body :: string
  cy_target :: string
  cy_aspect :: string
  cy_start_at :: string
  cy_exact_at :: string
  cy_end_at :: string
  cy_pass_count :: nat
  cy_passes :: "cycle_pass list"
  cy_orb :: js_num
  cy_importance :: "js_num option"

record context_signal =
  cs_signal_id :: string
  cs_source_id :: string
  cs_allowed_use :: string
  cs_lane :: string
  cs_hash :: "string option"
  cs_permission :: string
  cs_freshness :: string
  cs_label :: "string option"

section \<open>The editorial release\<close>

record eligibility =
  el_fact_classes :: "string list option"
  el_bodies :: "string list option"
  el_aspects :: "string list option"
  el_min_accuracy :: "birth_time_accuracy option"
  el_requires_houses :: "bool option"
  el_techniques :: "string list option"

text \<open>What every editorial object shares: identity, locale and approval status.\<close>

record editorial =
  ob_id :: string
  ob_content_type :: string
  ob_content_version :: string
  ob_locale :: string
  ob_status :: "string option"

record phase_object = editorial +
  ph_parent_cycle_id :: string
  ph_phase :: cycle_phase
  ph_summary :: string
  ph_constructive :: string
  ph_shadow :: string
  ph_eligibility :: "eligibility option"

record cycle_object = editorial +
  co_technique :: string
  co_bodies :: "string list"
  co_targets :: "string list"
  co_aspect :: "string option"
  co_phase_ids :: "string list"
  co_eligibility :: "eligibility option"

record prompt_object = editorial +
  pm_text :: string
  pm_domains :: "string list"
  pm_eligibility :: "eligibility option"

record modifier_object = editorial +
  mo_kind :: string
  mo_body :: string
  mo_precedence :: js_num
  mo_eligibility :: "eligibility option"

record timing_template = editorial +
  tt_text :: string
  tt_placeholders :: "string list"
  tt_is_default :: bool

record fallback_copy = editorial +
  fb_body :: string

record release_info =
  ri_version :: string
  ri_bundle_hash :: string
  ri_supported_locales :: "string list"
  ri_locale_default :: string
  ri_fallbacks :: "(string \<times> string) list"

record release_objects =
  rb_cycles :: "cycle_object list"
  rb_phases :: "phase_object list"
  rb_prompts :: "prompt_object list"
  rb_modifiers :: "modifier_object list"
  rb_timing_templates :: "timing_template list"
  rb_fallbacks :: "fallback_copy list"

record verified_bundle =
  vb_release :: release_info
  vb_objects :: release_objects

section \<open>Engine input\<close>

record chart_input =
  ci_fingerprint :: string
  ci_accuracy :: birth_time_accuracy
  ci_uncertainty :: uncertainty_input

record assembly_input =
  ai_identity_profile :: string
  ai_schema_version :: string
  ai_output_schema :: string
  ai_policy_id :: string
  ai_policy_version :: string
  ai_reading_id :: string
  ai_revision :: nat
  ai_local_date :: string
  ai_timezone :: string
  ai_generation_anchor :: string
  ai_day_start_at :: string
  ai_day_end_at :: string
  ai_chart :: chart_input
  ai_cycles :: "normalized_cycle list"
  ai_release :: verified_bundle
  ai_context :: "context_signal list"
  ai_locale :: string
  ai_domain :: "string option"

record fact =
  fc_id :: string
  fc_class :: string
  fc_technique :: "string option"
  fc_body :: "string option"
  fc_target :: "string option"
  fc_aspect :: "string option"
  fc_phase :: "cycle_phase option"
  fc_orb :: "js_num option"
  fc_first_exact_at :: "string option"
  fc_pass_count :: "nat option"
  fc_start_at :: "string option"
  fc_end_at :: "string option"
  fc_pass_exact_ats :: "string list option"

record context_input =
  cx_signal_id :: string
  cx_source_id :: string
  cx_allowed_use :: string
  cx_lane :: string
  cx_hash :: "string option"

text \<open>
  \<open>AssemblyIdentityFactInput\<close> lists the same thirteen fields as \<open>AssemblyFactInput\<close>;
  the code keeps two types so that the ranking one may grow. The model keeps one record.
\<close>

record assembly_identity =
  id_profile :: string
  id_schema_version :: string
  id_policy_id :: string
  id_policy_version :: string
  id_output_schema :: string
  id_local_date :: string
  id_timezone :: string
  id_generation_anchor :: string
  id_fingerprint :: string
  id_accuracy :: birth_time_accuracy
  id_uncertainty :: uncertainty_input
  id_facts :: "fact list"
  id_release_version :: string
  id_bundle_hash :: string
  id_context :: "context_input list"
  id_locale :: string
  id_domain :: "string option"
  id_revision :: nat

section \<open>Engine output\<close>

record reading_paragraph =
  rp_id :: string
  rp_role :: string
  rp_order :: nat
  rp_text :: string

record daily_reading =
  dr_schema_version :: string
  dr_output_schema :: string
  dr_reading_id :: string
  dr_local_date :: string
  dr_generated_at :: string
  dr_mode :: string
  dr_revision :: nat
  dr_locale :: string
  dr_domain :: "string option"
  dr_paragraphs :: "reading_paragraph list"
  dr_fallback_used :: bool

record fact_ref =
  fr_id :: string
  fr_type :: string
  fr_phase :: "cycle_phase option"
  fr_orb :: "js_num option"
  fr_fingerprint :: "string option"
  fr_technique :: "string option"
  fr_pass_index :: "nat option"

record content_ref =
  cr_fragment_id :: string
  cr_content_version :: string
  cr_release_version :: string
  cr_content_type :: string
  cr_bundle_hash :: "string option"

record context_ref =
  xr_signal_id :: string
  xr_source_id :: string
  xr_allowed_use :: string
  xr_lane :: string
  xr_label :: "string option"

record ranking_factor =
  rf_factor :: string
  rf_weight :: "js_num option"
  rf_reason :: string

record paragraph_evidence =
  pe_id :: string
  pe_role :: string
  pe_order :: nat
  pe_lane :: string
  pe_text_hash :: "string option"
  pe_facts :: "fact_ref list"
  pe_content :: "content_ref list"
  pe_context :: "context_ref list"
  pe_ranking :: "ranking_factor list"

record validation_check =
  vc_check :: string
  vc_result :: string
  vc_detail :: "string option"

record validation_report =
  va_passed :: bool
  va_fallback_used :: bool
  va_checks :: "validation_check list"

record rejection =
  rj_kind :: string
  rj_subject :: string
  rj_reason :: string
  rj_detail :: string

record theme_ref =
  tr_cycle_id :: string
  tr_phase :: cycle_phase
  tr_fragment_ids :: "string list"

record reading_evidence =
  re_schema_version :: string
  re_reading_id :: string
  re_local_date :: string
  re_release_version :: string
  re_fingerprint :: string
  re_mode :: string
  re_policy_version :: string
  re_revision :: nat
  re_primary :: "theme_ref option"
  re_supporting :: "theme_ref option"
  re_paragraphs :: "paragraph_evidence list"
  re_validation :: validation_report
  re_created_at :: string

text \<open>A finalized draft is the evidence with its assembly id.\<close>

record evidence_draft = reading_evidence +
  re_assembly_id :: string

record assembly_outcome =
  ao_identity :: assembly_identity
  ao_canonical :: units
  ao_reading :: daily_reading
  ao_evidence :: reading_evidence
  ao_rejections :: "rejection list"

record assembly_hashes =
  ah_assembly_id :: string
  ah_text_hashes :: "(string \<times> string) list"

end
