(* ===== verification/Instants.thy ===== *)
theory Instants
  imports Text_Ops "HOL-Library.Monad_Syntax"
begin

text \<open>
  Instants as the engine uses them: \<open>Date.parse\<close>, \<open>Date.prototype.toISOString\<close> and the
  proleptic Gregorian calendar behind them (ECMA-262, Time Values and Time Range).

  ECMA-262 fixes \<open>toISOString\<close> and requires \<open>Date.parse\<close> to read its output back, but leaves
  \<open>Date.parse\<close> of other strings to the implementation. The components therefore take the parser
  as a parameter, \<open>dp\<close>, with \<open>None\<close> for \<open>NaN\<close>; the locale \<open>instant_parser\<close> is the law
  they rely on, and \<open>date_parse\<close>, the standard's own date-time format, is its model.
\<close>

section \<open>Days, years and months\<close>

text \<open>\<open>DayFromYear\<close>: the number of days from the epoch to 1 January of \<open>y\<close>.\<close>

definition day_from_year :: "int \<Rightarrow> int" where
  "day_from_year y =
     365 * (y - 1970) + (y - 1969) div 4 - (y - 1901) div 100 + (y - 1601) div 400"

definition leap_year :: "int \<Rightarrow> bool" where
  "leap_year y = (y mod 4 = 0 \<and> (y mod 100 \<noteq> 0 \<or> y mod 400 = 0))"

text \<open>\<open>YearFromTime\<close>: the year whose first day is the last one not after \<open>d\<close>, from an estimate.\<close>

definition year_from_day :: "int \<Rightarrow> int" where
  "year_from_day d =
     (let e = d * 400 div 146097 + 1970 in
      if d < day_from_year e then e - 1
      else if day_from_year (e + 1) \<le> d then e + 1 else e)"

lemma div_succ:
  fixes x n :: int
  assumes "0 < n"
  shows "(x + 1) div n = x div n + (if (x + 1) mod n = 0 then 1 else 0)"
proof (cases "x mod n + 1 = n")
  case True
  then have "x + 1 = n * (x div n) + n"
    using mult_div_mod_eq [of n x] by linarith
  then have "x + 1 = n * (x div n + 1)"
    by (simp only: distrib_left mult_1_right)
  then show ?thesis using assms by simp
next
  case False
  define q r where "q = x div n" and "r = x mod n"
  have r: "0 \<le> r" "r + 1 < n"
    using assms False pos_mod_bound [OF assms, of x] pos_mod_sign [OF assms, of x]
    unfolding r_def by linarith+
  have x: "x + 1 = n * q + (r + 1)"
    by (simp add: q_def r_def)
  have "(x + 1) div n = q" "(x + 1) mod n = r + 1"
    using r by (auto simp: x intro: int_div_pos_eq int_mod_pos_eq)
  with r show ?thesis by (simp add: q_def)
qed

lemma day_from_year_step:
  "day_from_year (y + 1) = day_from_year y + (if leap_year y then 366 else 365)"
proof -
  have shift: "(y - 1968) mod 4 = y mod 4" "(y - 1900) mod 100 = y mod 100" "(y - 1600) mod 400 = y mod 400"
    using mod_mult_self1 [of "y - 1968" 492 4] mod_mult_self1 [of "y - 1900" 19 100]
      mod_mult_self1 [of "y - 1600" 4 400] by simp_all
  have next_year: "y - 1969 + 1 = y - 1968" "y - 1901 + 1 = y - 1900" "y - 1601 + 1 = y - 1600"
    "y + 1 - 1969 = y - 1968" "y + 1 - 1901 = y - 1900" "y + 1 - 1601 = y - 1600"
    by simp_all
  have steps: "(y - 1968) div 4 = (y - 1969) div 4 + (if y mod 4 = 0 then 1 else 0)"
    "(y - 1900) div 100 = (y - 1901) div 100 + (if y mod 100 = 0 then 1 else 0)"
    "(y - 1600) div 400 = (y - 1601) div 400 + (if y mod 400 = 0 then 1 else 0)"
    using div_succ [of 4 "y - 1969"] div_succ [of 100 "y - 1901"] div_succ [of 400 "y - 1601"]
    unfolding next_year shift by (simp_all only: zero_less_numeral HOL.simp_thms)
  have "400 dvd y \<Longrightarrow> 100 dvd y" "100 dvd y \<Longrightarrow> 4 dvd y"
    using dvd_trans [of 100 400 y] dvd_trans [of 4 100 y] by simp_all
  then have "y mod 400 = 0 \<Longrightarrow> y mod 100 = 0" "y mod 100 = 0 \<Longrightarrow> y mod 4 = 0"
    by (simp_all add: mod_eq_0_iff_dvd)
  then show ?thesis
    unfolding day_from_year_def leap_year_def next_year steps
    by (cases "y mod 4 = 0"; cases "y mod 100 = 0"; cases "y mod 400 = 0") simp_all
qed

lemma day_from_year_mono: "x \<le> y \<Longrightarrow> day_from_year x \<le> day_from_year y"
  by (induction y rule: int_ge_induct) (auto simp: day_from_year_step)

lemma year_estimate_low:
  fixes u d :: int
  assumes "146097 * u \<le> 400 * d"
  shows "365 * (u - 1) + u div 4 - (u + 68) div 100 + (u + 368) div 400 \<le> d"
proof -
  have "4 * (u div 4) \<le> u" "u - 31 \<le> 100 * ((u + 68) div 100)" "400 * ((u + 368) div 400) \<le> u + 368"
    using pos_mod_bound [of 100 "u + 68"] pos_mod_sign [of 4 u] pos_mod_sign [of 400 "u + 368"]
    by (simp_all add: minus_mod_eq_mult_div [symmetric])
  then show ?thesis using assms by simp
qed
lemma year_estimate_high:
  fixes u d :: int
  assumes "400 * d < 146097 * (u + 1)"
  shows "d < 365 * (u + 2) + (u + 3) div 4 - (u + 71) div 100 + (u + 371) div 400"
proof -
  have "u \<le> 4 * ((u + 3) div 4)" "100 * ((u + 71) div 100) \<le> u + 71" "u - 28 \<le> 400 * ((u + 371) div 400)"
    using pos_mod_bound [of 4 "u + 3"] pos_mod_sign [of 100 "u + 71"] pos_mod_bound [of 400 "u + 371"]
    by (simp_all add: minus_mod_eq_mult_div [symmetric])
  then show ?thesis using assms by simp
qed
lemma year_from_day_bracket:
  "day_from_year (year_from_day d) \<le> d \<and> d < day_from_year (year_from_day d + 1)"
proof -
  define u where "u = d * 400 div 146097"
  have "146097 * u + d * 400 mod 146097 = d * 400"
    by (simp add: u_def)
  then have u: "146097 * u \<le> 400 * d" "400 * d < 146097 * (u + 1)"
    using pos_mod_bound [of 146097 "d * 400"] pos_mod_sign [of 146097 "d * 400"] by simp_all
  have "day_from_year (u + 1970 - 1) \<le> d" "d < day_from_year (u + 1970 + 2)"
    using year_estimate_low [OF u(1)] year_estimate_high [OF u(2)] by (simp_all add: day_from_year_def add.commute)
  then show ?thesis
    unfolding year_from_day_def u_def [symmetric] Let_def by (auto simp: ac_simps)
qed

lemma year_from_day_unique:
  assumes "day_from_year y \<le> d" "d < day_from_year (y + 1)"
  shows "year_from_day d = y"
proof (rule antisym)
  show "year_from_day d \<le> y"
    using day_from_year_mono [of "y + 1" "year_from_day d"] year_from_day_bracket [of d] assms(2)
    by (cases "y + 1 \<le> year_from_day d") auto
  show "y \<le> year_from_day d"
    using day_from_year_mono [of "year_from_day d + 1" y] year_from_day_bracket [of d] assms(1)
    by (cases "year_from_day d + 1 \<le> y") auto
qed

text \<open>The first day of every month within its year, and one past the last.\<close>

definition month_starts :: "bool \<Rightarrow> int list" where
  "month_starts leap =
     (let l = (if leap then 1 else 0) in
      [0, 31, 59 + l, 90 + l, 120 + l, 151 + l, 181 + l, 212 + l, 243 + l, 273 + l, 304 + l, 334 + l])"

definition month_start :: "bool \<Rightarrow> nat \<Rightarrow> int" where
  "month_start leap m = (if m \<le> 12 then month_starts leap ! (m - 1) else if leap then 366 else 365)"

definition month_of :: "bool \<Rightarrow> int \<Rightarrow> nat" where
  "month_of leap doy = length (filter (\<lambda>s. s \<le> doy) (month_starts leap))"

definition valid_date :: "int \<Rightarrow> nat \<Rightarrow> nat \<Rightarrow> bool" where
  "valid_date y m d =
     (1 \<le> m \<and> m \<le> 12 \<and> 1 \<le> d \<and>
      int d \<le> month_start (leap_year y) (m + 1) - month_start (leap_year y) m)"

definition make_day :: "int \<Rightarrow> nat \<Rightarrow> nat \<Rightarrow> int" where
  "make_day y m d = day_from_year y + month_start (leap_year y) m + int d - 1"

text \<open>Year, month and day of the month of a day.\<close>

definition civil :: "int \<Rightarrow> int \<times> nat \<times> nat" where
  "civil d =
     (let y = year_from_day d; doy = d - day_from_year y; m = month_of (leap_year y) doy
      in (y, m, nat (doy - month_start (leap_year y) m + 1)))"

definition month_ok :: "bool \<Rightarrow> int \<Rightarrow> bool" where
  "month_ok leap doy =
     (let m = month_of leap doy in
      1 \<le> m \<and> m \<le> 12 \<and> month_start leap m \<le> doy \<and> doy < month_start leap (m + 1))"

lemma month_ok_all: "list_all (month_ok True) [0..365]" "list_all (month_ok False) [0..364]"
  by code_simp+

lemma month_ok:
  assumes "0 \<le> doy" "doy < (if leap then 366 else 365)"
  shows "month_ok leap doy"
  using assms month_ok_all by (cases leap) (auto simp: list_all_iff)

lemma civil_make_day:
  assumes "civil d = (y, m, dt)"
  shows "valid_date y m dt" "make_day y m dt = d" "y = year_from_day d"
proof -
  define doy where "doy = d - day_from_year (year_from_day d)"
  from assms have y: "y = year_from_day d" and m: "m = month_of (leap_year y) doy"
    and dt: "dt = nat (doy - month_start (leap_year y) m + 1)"
    by (auto simp: civil_def Let_def doy_def)
  have "0 \<le> doy" "doy < (if leap_year y then 366 else 365)"
    using year_from_day_bracket [of d] by (simp_all add: doy_def y day_from_year_step split: if_splits)
  then have ok: "1 \<le> m \<and> m \<le> 12 \<and> month_start (leap_year y) m \<le> doy \<and>
      doy < month_start (leap_year y) (m + 1)"
    using month_ok [of doy "leap_year y"] by (simp add: month_ok_def Let_def m)
  then have "int dt = doy - month_start (leap_year y) m + 1"
    by (simp add: dt)
  with ok show "valid_date y m dt" "make_day y m dt = d" "y = year_from_day d"
    by (simp_all add: valid_date_def make_day_def) (simp_all add: doy_def y)
qed

section \<open>Rendering\<close>

definition pad_num :: "nat \<Rightarrow> nat \<Rightarrow> string" where
  "pad_num n k = pad_start n (CHR ''0'') (nat_str k)"

definition year_str :: "int \<Rightarrow> string" where
  "year_str y =
     (if 0 \<le> y \<and> y \<le> 9999 then pad_num 4 (nat y)
      else (if y < 0 then ''-'' else ''+'') @ pad_num 6 (nat \<bar>y\<bar>))"

definition date_str :: "int \<Rightarrow> string" where
  "date_str d = (case civil d of (y, m, dt) \<Rightarrow> year_str y @ ''-'' @ pad_num 2 m @ ''-'' @ pad_num 2 dt)"

definition clock_str :: "nat \<Rightarrow> string" where
  "clock_str ms =
     (let s = ms div 1000 in
      pad_num 2 (s div 3600) @ '':'' @ pad_num 2 (s div 60 mod 60) @ '':'' @ pad_num 2 (s mod 60))"

definition time_str :: "nat \<Rightarrow> string" where
  "time_str ms = clock_str ms @ ''.'' @ pad_num 3 (ms mod 1000)"

definition ms_per_day :: int where "ms_per_day = 86400000"

text \<open>\<open>new Date(t).toISOString()\<close> for a time value \<open>t\<close>, in milliseconds.\<close>

definition iso_string :: "int \<Rightarrow> string" where
  "iso_string t = date_str (t div ms_per_day) @ ''T'' @ time_str (nat (t mod ms_per_day)) @ ''Z''"

section \<open>Parsing\<close>

text \<open>\<open>s.replace(/\.\d{3}Z$/, "Z")\<close>.\<close>

definition strip_millis :: "string \<Rightarrow> string" where
  "strip_millis s =
     (let n = length s - 5; e = drop n s in
      if 5 \<le> length s \<and> e ! 0 = CHR ''.'' \<and> list_all (\<lambda>c. CHR ''0'' \<le> c \<and> c \<le> CHR ''9'') (take 3 (drop 1 e)) \<and>
         e ! 4 = CHR ''Z''
      then take n s @ ''Z'' else s)"

definition read_digits :: "nat \<Rightarrow> string \<Rightarrow> (nat \<times> string) option" where
  "read_digits n s =
     (if n \<le> length s \<and> list_all is_digit (take n s) then Some (read_radix 10 (take n s), drop n s) else None)"

fun expect :: "char \<Rightarrow> string \<Rightarrow> string option" where
  "expect c [] = None"
| "expect c (d # s) = (if c = d then Some s else None)"

definition read_year :: "string \<Rightarrow> (int \<times> string) option" where
  "read_year s =
     (case s of
        [] \<Rightarrow> None
      | c # cs \<Rightarrow>
          (if c = CHR ''+'' then map_option (\<lambda>(y, r). (int y, r)) (read_digits 6 cs)
           else if c = CHR ''-'' then
             Option.bind (read_digits 6 cs) (\<lambda>(y, r). if y = 0 then None else Some (- int y, r))
           else map_option (\<lambda>(y, r). (int y, r)) (read_digits 4 s)))"

definition read_seconds :: "string \<Rightarrow> (nat \<times> string) option" where
  "read_seconds s =
     (case expect (CHR '':'') s of
        None \<Rightarrow> Some (0, s)
      | Some s1 \<Rightarrow> do {
          (sec, s2) \<leftarrow> read_digits 2 s1;
          if 59 < sec then None
          else (case expect (CHR ''.'') s2 of
            None \<Rightarrow> Some (sec * 1000, s2)
          | Some s3 \<Rightarrow> do { (ms, s4) \<leftarrow> read_digits 3 s3; Some (sec * 1000 + ms, s4) }) })"

text \<open>The offset in minutes; a time without one is in the host's zone, which is not modelled.\<close>

definition read_zone :: "string \<Rightarrow> int option" where
  "read_zone s =
     (if s = ''Z'' then Some 0
      else (case s of
        [] \<Rightarrow> None
      | c # cs \<Rightarrow>
          (if c = CHR ''+'' \<or> c = CHR ''-'' then do {
             (hh, s1) \<leftarrow> read_digits 2 cs;
             s2 \<leftarrow> expect (CHR '':'') s1;
             (mm, s3) \<leftarrow> read_digits 2 s2;
             if s3 = [] \<and> hh \<le> 23 \<and> mm \<le> 59
             then Some ((if c = CHR ''-'' then - 1 else 1) * int (hh * 60 + mm)) else None }
           else None)))"

definition read_time :: "string \<Rightarrow> int option" where
  "read_time s = do {
     (hh, s1) \<leftarrow> read_digits 2 s;
     s2 \<leftarrow> expect (CHR '':'') s1;
     (mm, s3) \<leftarrow> read_digits 2 s2;
     (ms, s4) \<leftarrow> read_seconds s3;
     offset \<leftarrow> read_zone s4;
     if mm \<le> 59 \<and> (hh \<le> 23 \<or> hh = 24 \<and> mm = 0 \<and> ms = 0)
     then Some (int ((hh * 60 + mm) * 60000 + ms) - offset * 60000) else None }"

text \<open>The largest time value, a hundred million days around the epoch.\<close>

definition max_time :: int where "max_time = 8640000000000000"

definition time_clip :: "int \<Rightarrow> int option" where
  "time_clip t = (if \<bar>t\<bar> \<le> max_time then Some t else None)"

text \<open>
  \<open>Date.parse\<close> on the date-time string format of ECMA-262 with a full date, alone or with a time
  and a zone.
\<close>

definition date_parse :: "string \<Rightarrow> int option" where
  "date_parse s = do {
     (y, s1) \<leftarrow> read_year s;
     s2 \<leftarrow> expect (CHR ''-'') s1;
     (m, s3) \<leftarrow> read_digits 2 s2;
     s4 \<leftarrow> expect (CHR ''-'') s3;
     (d, s5) \<leftarrow> read_digits 2 s4;
     if \<not> valid_date y m d then None
     else if s5 = [] then time_clip (make_day y m d * ms_per_day)
     else do {
       s6 \<leftarrow> expect (CHR ''T'') s5;
       t \<leftarrow> read_time s6;
       time_clip (make_day y m d * ms_per_day + t) } }"

lemmas date_parse_defs =
  date_parse_def read_year_def read_digits_def is_digit_def less_eq_char_def read_radix_def digit_val_def
  valid_date_def month_start_def month_starts_def leap_year_def make_day_def day_from_year_def
  ms_per_day_def read_time_def read_seconds_def read_zone_def time_clip_def max_time_def Let_def

section \<open>Reading a rendered instant back\<close>

lemma nat_str_length: "k < 10 ^ n \<Longrightarrow> 0 < n \<Longrightarrow> length (nat_radix 10 k) \<le> n"
proof (induction n arbitrary: k)
  case (Suc n)
  show ?case
  proof (cases "k < 10")
    case True
    then show ?thesis by (simp add: nat_radix.simps [of 10 k])
  next
    case False
    then have "0 < n" using Suc.prems by (cases n) simp_all
    moreover have "k div 10 < 10 ^ n" using Suc.prems(1) by simp
    ultimately show ?thesis
      using Suc.IH [of "k div 10"] False by (simp add: nat_radix.simps [of 10 k])
  qed
qed simp

lemma pad_num_digits:
  assumes "k < 10 ^ n" "0 < n"
  shows "length (pad_num n k) = n" "list_all is_digit (pad_num n k)"
proof -
  show "length (pad_num n k) = n"
    using nat_str_length [OF assms] by (simp add: pad_num_def length_pad_start nat_str_def)
  show "list_all is_digit (pad_num n k)"
    using nat_str_digits [of k]
    by (auto simp: pad_num_def pad_start_def nat_str_def list_all_iff is_digit_def)
qed

lemma read_pad_num:
  assumes "k < 10 ^ n" "0 < n"
  shows "read_digits n (pad_num n k @ r) = Some (k, r)"
proof -
  have "read_radix 10 (pad_num n k) = k"
    by (simp add: pad_num_def read_pad_start nat_str_def read_nat_radix)
  then show ?thesis
    by (simp add: read_digits_def pad_num_digits [OF assms])
qed

lemma year_bounds:
  assumes "\<bar>d\<bar> \<le> 100000000"
  shows "\<bar>year_from_day d\<bar> < 1000000"
proof -
  let ?y = "year_from_day d"
  have "day_from_year 1000000 > 100000000" "day_from_year (- 999999) < - 100000000"
    by (simp_all add: day_from_year_def)
  then have "\<not> 1000000 \<le> ?y" "\<not> ?y + 1 \<le> - 999999"
    using year_from_day_bracket [of d] day_from_year_mono [of 1000000 ?y]
      day_from_year_mono [of "?y + 1" "- 999999"] assms by auto
  then show ?thesis by auto
qed

lemma read_year_str:
  assumes "\<bar>y\<bar> < 1000000"
  shows "read_year (year_str y @ ''-'' @ r) = Some (y, ''-'' @ r)"
proof (cases "0 \<le> y \<and> y \<le> 9999")
  case True
  have "length (pad_num 4 (nat y)) = 4" "list_all is_digit (pad_num 4 (nat y))"
    using True pad_num_digits [of "nat y" 4] by (simp_all add: nat_less_iff)
  then obtain c cs where c: "pad_num 4 (nat y) = c # cs" "is_digit c"
    by (cases "pad_num 4 (nat y)") simp_all
  then have "c \<noteq> CHR ''+''" "c \<noteq> CHR ''-''" by (auto simp: is_digit_def)
  moreover have "read_digits 4 (pad_num 4 (nat y) @ ''-'' @ r) = Some (nat y, ''-'' @ r)"
    using True by (intro read_pad_num) auto
  ultimately show ?thesis
    using True by (simp add: year_str_def read_year_def c)
next
  case False
  have "read_digits 6 (pad_num 6 (nat \<bar>y\<bar>) @ ''-'' @ r) = Some (nat \<bar>y\<bar>, ''-'' @ r)"
    using assms by (intro read_pad_num) auto
  with False show ?thesis
    by (auto simp: year_str_def read_year_def)
qed

lemma time_sum:
  fixes x :: nat
  assumes "x * 60 + y = z" "z * 60000 + w * 1000 = v * 1000" "v * 1000 + u = ms"
  shows "(x * 60 + y) * 60000 + (w * 1000 + u) = ms"
  using assms by simp

lemma read_time_str:
  assumes "ms < 86400000"
  shows "read_time (time_str ms @ ''Z'') = Some (int ms)"
    and "read_time (clock_str ms @ ''Z'') = Some (int ms - int ms mod 1000)"
proof -
  let ?s = "ms div 1000"
  have d: "read_digits 2 (pad_num 2 (?s div 3600) @ r) = Some (?s div 3600, r)"
    "read_digits 2 (pad_num 2 (?s div 60 mod 60) @ r) = Some (?s div 60 mod 60, r)"
    "read_digits 2 (pad_num 2 (?s mod 60) @ r) = Some (?s mod 60, r)"
    "read_digits 3 (pad_num 3 (ms mod 1000) @ r) = Some (ms mod 1000, r)" for r
    using assms by (auto intro!: read_pad_num)
  have h: "?s div 3600 \<le> 23" "?s div 60 mod 60 \<le> 59" "?s mod 60 \<le> 59"
    using assms pos_mod_bound [of 60 ?s] by (auto simp flip: less_Suc_eq_le)
  have sum: "(?s div 3600 * 60 + ?s div 60 mod 60) * 60000 + (?s mod 60 * 1000 + u) = v"
    if "?s * 1000 + u = v" for u v
  proof -
    have "?s div 3600 = ?s div 60 div 60" by (simp flip: div_mult2_eq)
    then have "?s div 3600 * 60 + ?s div 60 mod 60 = ?s div 60" by simp
    moreover have "?s div 60 * 60000 + ?s mod 60 * 1000 = ?s * 1000"
      using div_mult_mod_eq [of ?s 60] by linarith
    ultimately show ?thesis
      using that by (rule time_sum)
  qed
  have "int ((?s div 3600 * 60 + ?s div 60 mod 60) * 60000 + (?s mod 60 * 1000 + ms mod 1000)) = int ms"
    by (rule arg_cong [OF sum]) simp
  then show "read_time (time_str ms @ ''Z'') = Some (int ms)"
    using h by (simp add: read_time_def time_str_def clock_str_def Let_def d read_seconds_def read_zone_def)
  have "int ((?s div 3600 * 60 + ?s div 60 mod 60) * 60000 + (?s mod 60 * 1000 + 0)) = int (?s * 1000)"
    by (rule arg_cong [OF sum]) simp
  moreover have "int (?s * 1000) = int ms - int ms mod 1000"
    by (simp add: minus_mod_eq_div_mult zdiv_int)
  ultimately show "read_time (clock_str ms @ ''Z'') = Some (int ms - int ms mod 1000)"
    using h by (simp add: read_time_def clock_str_def Let_def d read_seconds_def read_zone_def)
qed

text \<open>The reader of the code's instants gives back the time value a date was rendered from.\<close>

lemma date_parse_day_time:
  assumes "\<bar>t\<bar> \<le> max_time" and "ms = nat (t mod ms_per_day)"
    and time: "read_time w = Some (int ms - k)" and k: "0 \<le> k" "k \<le> int ms"
  shows "date_parse (date_str (t div ms_per_day) @ ''T'' @ w) = Some (t - k)"
proof -
  define d where "d = t div ms_per_day"
  obtain y m dt where c: "civil d = (y, m, dt)" by (cases "civil d")
  note civil = civil_make_day [OF c]
  have d: "\<bar>d\<bar> \<le> 100000000"
    using assms(1) by (auto simp: d_def ms_per_day_def max_time_def abs_le_iff)
  then have y: "\<bar>y\<bar> < 1000000" using civil(3) year_bounds by simp
  have t: "t = d * ms_per_day + int ms"
    by (auto simp: assms(2) d_def ms_per_day_def)
  have "m < 10 ^ 2" "dt < 10 ^ 2"
    using civil(1) by (auto simp: valid_date_def month_start_def month_starts_def Let_def nth_Cons'
        split: if_splits)
  then have digits: "read_digits 2 (pad_num 2 m @ r) = Some (m, r)"
    "read_digits 2 (pad_num 2 dt @ r) = Some (dt, r)" for r
    by (auto intro: read_pad_num)
  have "\<bar>t - k\<bar> \<le> max_time"
    using assms(1) k d t by (auto simp: max_time_def ms_per_day_def)
  then show ?thesis
    unfolding d_def [symmetric] date_str_def c prod.case date_parse_def
    using read_year_str [OF y, of "pad_num 2 m @ ''-'' @ pad_num 2 dt @ ''T'' @ w"] civil(1,2) t
    by (simp add: digits time_clip_def time)
qed

lemma date_parse_iso_string:
  assumes "\<bar>t\<bar> \<le> max_time"
  shows "date_parse (iso_string t) = Some t"
proof -
  have "nat (t mod ms_per_day) < 86400000"
    by (simp add: ms_per_day_def nat_less_iff)
  from date_parse_day_time [OF assms refl, of _ 0] read_time_str(1) [OF this] show ?thesis
    by (simp add: iso_string_def)
qed

lemma strip_millis_iso:
  "strip_millis (iso_string t) =
   date_str (t div ms_per_day) @ ''T'' @ clock_str (nat (t mod ms_per_day)) @ ''Z''"
proof -
  define a where "a = date_str (t div ms_per_day) @ ''T'' @ clock_str (nat (t mod ms_per_day))"
  define ds where "ds = pad_num 3 (nat (t mod ms_per_day) mod 1000)"
  have ds: "length ds = 3" "list_all is_digit ds"
    unfolding ds_def by (rule pad_num_digits; simp)+
  have "iso_string t = a @ ''.'' @ ds @ ''Z''"
    by (simp add: iso_string_def time_str_def a_def ds_def)
  then have "strip_millis (iso_string t) = a @ ''Z''"
    using ds by (simp add: strip_millis_def Let_def nth_append is_digit_def [abs_def])
  then show ?thesis by (simp add: a_def)
qed

lemma date_parse_strip_millis:
  assumes "\<bar>t\<bar> \<le> max_time"
  shows "date_parse (strip_millis (iso_string t)) = Some (t - t mod 1000)"
proof -
  define ms where "ms = nat (t mod ms_per_day)"
  have ms: "ms < 86400000" "int ms mod 1000 = t mod 1000"
    by (simp_all add: ms_def ms_per_day_def nat_less_iff mod_mod_cancel)
  have "int ms mod 1000 \<le> int ms" by (rule zmod_le_nonneg_dividend) simp
  with ms(2) have "0 \<le> t mod 1000" "t mod 1000 \<le> int ms" by simp_all
  then show ?thesis
    using date_parse_day_time [OF assms ms_def, of "clock_str ms @ ''Z''" "t mod 1000"]
      read_time_str(2) [OF ms(1)]
    by (simp add: strip_millis_iso ms_def [symmetric] ms(2))
qed

lemma date_parse_range: "date_parse s = Some t \<Longrightarrow> \<bar>t\<bar> \<le> max_time"
  by (auto simp: date_parse_def time_clip_def Option.bind_eq_Some_conv split: if_splits)

section \<open>The law the engine relies on\<close>

locale instant_parser =
  fixes dp :: "string \<Rightarrow> int option"
  assumes dp_iso: "\<bar>t\<bar> \<le> max_time \<Longrightarrow> dp (iso_string t) = Some t"
    and dp_seconds: "\<bar>t\<bar> \<le> max_time \<Longrightarrow> dp (strip_millis (iso_string t)) = Some (t - t mod 1000)"
    and dp_range: "dp s = Some t \<Longrightarrow> \<bar>t\<bar> \<le> max_time"

interpretation ecma: instant_parser date_parse
  by unfold_locales (simp_all add: date_parse_iso_string date_parse_strip_millis date_parse_range)

end
