(* ===== verification/Phase.thy ===== *)
theory Phase
  imports Reading_Types Instants
begin

text \<open>
  \<open>packages/reading-engine/src/phase.ts\<close>: the lifecycle phase of a cycle at an instant
  (DER-01). Instants are parsed by \<open>dp\<close>.
\<close>

section \<open>The state machine\<close>

definition hour_ms :: int where "hour_ms = 3600000"
definition peak_window_hours :: int where "peak_window_hours = 36"
definition emerging_fraction :: js_num where "emerging_fraction = 1 / 2"

definition instant :: "(string \<Rightarrow> int option) \<Rightarrow> string \<Rightarrow> string \<Rightarrow> engine_error + int" where
  "instant dp v label =
     (case dp v of
        None \<Rightarrow> Inl (PhaseError (''phase: '' @ label @ '' is not a parseable instant: '' @ v))
      | Some t \<Rightarrow> Inr t)"

definition is_active_at ::
  "(string \<Rightarrow> int option) \<Rightarrow> normalized_cycle \<Rightarrow> string \<Rightarrow> engine_error + bool" where
  "is_active_at dp c now =
     and_then (instant dp now ''at'') (\<lambda>t.
     and_then (instant dp (cy_start_at c) ''start_at'') (\<lambda>s.
       if t < s then Inr False
       else and_then (instant dp (cy_end_at c) ''end_at'') (\<lambda>e. Inr (t \<le> e))))"

text \<open>The phase of an active cycle from its start, its pass instants and the instant \<open>t\<close>.\<close>

definition phase_at :: "int \<Rightarrow> int list \<Rightarrow> int \<Rightarrow> cycle_phase" where
  "phase_at start passes t =
     (let peak_window = peak_window_hours * hour_ms in
      if list_ex (\<lambda>p. \<bar>t - p\<bar> \<le> peak_window) passes then Peak
      else
        (let first_pass = hd passes; last_pass = last passes in
         if 1 < length passes \<and> first_pass < t \<and> t < last_pass then Reconsidering
         else if last_pass < t then Integrating
         else
           (let approach = first_pass - start in
            if approach \<le> 0 then Building
            else if of_int (t - start) / of_int approach < emerging_fraction then Emerging
            else Building)))"

definition compute_phase ::
  "(string \<Rightarrow> int option) \<Rightarrow> normalized_cycle \<Rightarrow> string \<Rightarrow> engine_error + cycle_phase option" where
  "compute_phase dp c now =
     and_then (is_active_at dp c now) (\<lambda>active.
       if \<not> active then Inr None
       else
         and_then (instant dp now ''at'') (\<lambda>t.
         and_then (instant dp (cy_start_at c) ''start_at'') (\<lambda>start.
         and_then
           (if cy_passes c \<noteq> []
            then map_throw (\<lambda>p. instant dp (pass_exact_at p) ''pass.exact_at'') (cy_passes c)
            else and_then (instant dp (cy_exact_at c) ''exact_at'') (\<lambda>e. Inr [e]))
           (\<lambda>passes. Inr (Some (phase_at start passes t))))))"

text \<open>Rationals for the decimal literals; \<open>None\<close> is the \<open>default\<close> case.\<close>

fun phase_weight :: "cycle_phase option \<Rightarrow> js_num" where
  "phase_weight (Some Peak) = 1"
| "phase_weight (Some Building) = 75 / 100"
| "phase_weight (Some Reconsidering) = 6 / 10"
| "phase_weight (Some Integrating) = 4 / 10"
| "phase_weight (Some Emerging) = 3 / 10"
| "phase_weight None = 0"

section \<open>Facts\<close>

lemma instant_Inr [simp]: "instant dp v label = Inr t \<longleftrightarrow> dp v = Some t"
  by (simp add: instant_def split: option.splits)

lemma instant_Inl: "(\<exists>e. instant dp v label = Inl e) \<longleftrightarrow> dp v = None"
  by (simp add: instant_def split: option.splits)

text \<open>The pass instants of a cycle: of its passes, or its single exact instant.\<close>

definition pass_strings :: "normalized_cycle \<Rightarrow> string list" where
  "pass_strings c = (if cy_passes c \<noteq> [] then map pass_exact_at (cy_passes c) else [cy_exact_at c])"

lemma map_instant: "map (\<lambda>x. dp (g x)) xs = map Some ps \<Longrightarrow> map (\<lambda>x. instant dp (g x) label) xs = map Inr ps"
proof (induction xs arbitrary: ps)
  case (Cons x xs)
  then show ?case by (cases ps) simp_all
qed simp

lemma compute_phase_parsed:
  assumes "dp now = Some t" "dp (cy_start_at c) = Some s" "dp (cy_end_at c) = Some e"
    and "map dp (pass_strings c) = map Some ps"
  shows "compute_phase dp c now = Inr (if s \<le> t \<and> t \<le> e then Some (phase_at s ps t) else None)"
proof -
  have passes: "(if cy_passes c \<noteq> []
        then map_throw (\<lambda>p. instant dp (pass_exact_at p) ''pass.exact_at'') (cy_passes c)
        else and_then (instant dp (cy_exact_at c) ''exact_at'') (\<lambda>e. Inr [e])) = Inr ps"
  proof (cases "cy_passes c = []")
    case True
    then show ?thesis using assms(4) by (auto simp: pass_strings_def and_then_Inr)
  next
    case False
    have "map (\<lambda>p. instant dp (pass_exact_at p) ''pass.exact_at'') (cy_passes c) = map Inr ps"
      using assms(4) False by (intro map_instant) (simp add: pass_strings_def comp_def)
    with False show ?thesis by (simp add: map_throw_Inr)
  qed
  show ?thesis
    unfolding compute_phase_def is_active_at_def passes by (simp add: instant_def assms(1-3))
qed

lemma phase_at_peak: "phase_at s ps t = Peak \<longleftrightarrow> (\<exists>p \<in> set ps. \<bar>t - p\<bar> \<le> 129600000)"
  by (auto simp: phase_at_def Let_def list_ex_iff peak_window_hours_def hour_ms_def)

lemma phase_at_reconsidering:
  "phase_at s ps t = Reconsidering \<longleftrightarrow>
   \<not> (\<exists>p \<in> set ps. \<bar>t - p\<bar> \<le> 129600000) \<and> 1 < length ps \<and> hd ps < t \<and> t < last ps"
  by (auto simp: phase_at_def Let_def list_ex_iff peak_window_hours_def hour_ms_def)

text \<open>The order in which a cycle with one pass goes through its phases.\<close>

fun phase_order :: "cycle_phase \<Rightarrow> nat" where
  "phase_order Emerging = 0"
| "phase_order Building = 1"
| "phase_order Peak = 2"
| "phase_order Reconsidering = 3"
| "phase_order Integrating = 4"

lemma single_pass_monotone:
  assumes "s \<le> t1" "t1 \<le> t2"
  shows "phase_order (phase_at s [p] t1) \<le> phase_order (phase_at s [p] t2)"
proof -
  have "(of_int (t2 - s) / of_int (p - s) :: rat) < 1 / 2 \<Longrightarrow> (of_int (t1 - s) / of_int (p - s) :: rat) < 1 / 2"
    if "s < p"
    using that assms(2) by (simp add: field_simps)
  then show ?thesis
    using assms by (auto simp: phase_at_def Let_def emerging_fraction_def peak_window_hours_def hour_ms_def)
qed

section \<open>Properties\<close>

definition example_cycle :: normalized_cycle where
  "example_cycle = \<lparr>cy_id = ''cyc_a'', cy_technique = ''transit'', cy_body = ''saturn'', cy_target = ''sun'',
     cy_aspect = ''square'', cy_start_at = ''2026-01-01T00:00:00Z'', cy_exact_at = ''2026-01-21T00:00:00Z'',
     cy_end_at = ''2026-03-22T00:00:00Z'', cy_pass_count = 2,
     cy_passes =
       [\<lparr>pass_index = 1, pass_direction = ''direct'', pass_exact_at = ''2026-01-21T00:00:00Z'', pass_speed = 1\<rparr>,
        \<lparr>pass_index = 2, pass_direction = ''retrograde'', pass_exact_at = ''2026-03-02T00:00:00Z'', pass_speed = 1\<rparr>],
     cy_orb = 2, cy_importance = None\<rparr>"

lemma example_instants:
  "date_parse ''2026-01-01T00:00:00Z'' = Some 1767225600000"
  "date_parse ''2026-01-21T00:00:00Z'' = Some 1768953600000"
  "date_parse ''2026-03-02T00:00:00Z'' = Some 1772409600000"
  "date_parse ''2026-03-22T00:00:00Z'' = Some 1774137600000"
  "date_parse ''2026-02-10T00:00:00Z'' = Some 1770681600000"
  by (simp_all add: date_parse_defs)

text \<open>
  C31: when its instants parse, a cycle has a phase exactly at the instants of its envelope, and it
  is \<open>peak\<close> exactly within 36 hours of a pass, whatever else would apply there.
\<close>
theorem phase_peak_iff_near_pass:
  assumes "dp now = Some t" and "dp (cy_start_at c) = Some s" and "dp (cy_end_at c) = Some e"
    and "map dp (pass_strings c) = map Some ps"
  shows "compute_phase dp c now = Inr (Some Peak) \<longleftrightarrow>
    s \<le> t \<and> t \<le> e \<and> (\<exists>p \<in> set ps. \<bar>t - p\<bar> \<le> 36 * 3600000)"
  unfolding compute_phase_parsed [OF assms] by (auto simp: phase_at_peak)

theorem phase_peak_iff_near_pass_witness:
  "compute_phase date_parse example_cycle ''2026-02-10T00:00:00Z'' \<noteq> Inr (Some Peak)"
  using phase_peak_iff_near_pass [of date_parse "''2026-02-10T00:00:00Z''" 1770681600000 example_cycle
      1767225600000 1774137600000 "[1768953600000, 1772409600000]"]
  by (simp add: example_cycle_def example_instants pass_strings_def)

text \<open>
  \<open>reconsidering\<close> is the interior of a retrograde loop: it needs at least two passes,
  and holds exactly between the first and the last one, away from every pass.
\<close>
theorem phase_reconsidering_iff_inside_loop:
  assumes "dp now = Some t" and "dp (cy_start_at c) = Some s" and "dp (cy_end_at c) = Some e"
    and "map dp (pass_strings c) = map Some ps"
  shows "compute_phase dp c now = Inr (Some Reconsidering) \<longleftrightarrow>
    s \<le> t \<and> t \<le> e \<and> 1 < length (cy_passes c) \<and> hd ps < t \<and> t < last ps \<and>
    (\<forall>p \<in> set ps. 36 * 3600000 < \<bar>t - p\<bar>)"
proof -
  have "1 < length ps \<longleftrightarrow> 1 < length (cy_passes c)"
    using arg_cong [OF assms(4), of length] by (cases "cy_passes c") (simp_all add: pass_strings_def)
  then show ?thesis
    unfolding compute_phase_parsed [OF assms] by (auto simp: phase_at_reconsidering not_le)
qed

theorem phase_reconsidering_iff_inside_loop_witness:
  "compute_phase date_parse example_cycle ''2026-02-10T00:00:00Z'' = Inr (Some Reconsidering)"
  using phase_reconsidering_iff_inside_loop [of date_parse "''2026-02-10T00:00:00Z''" 1770681600000 example_cycle
      1767225600000 1774137600000 "[1768953600000, 1772409600000]"]
  by (simp add: example_cycle_def example_instants pass_strings_def)

text \<open>
  a cycle with a single pass never goes back: later instants of its envelope have the same
  phase or a later one in the order emerging, building, peak, integrating.
\<close>
theorem single_pass_phases_advance:
  assumes "dp (cy_start_at c) = Some s" and "dp (cy_end_at c) = Some e"
    and "map dp (pass_strings c) = [Some p]"
    and "dp now = Some t1" and "dp later = Some t2" and "t1 \<le> t2"
    and "compute_phase dp c now = Inr (Some p1)" and "compute_phase dp c later = Inr (Some p2)"
  shows "phase_order p1 \<le> phase_order p2 \<and> p2 \<noteq> Reconsidering"
proof -
  have ps: "map dp (pass_strings c) = map Some [p]" using assms(3) by simp
  have "p1 = phase_at s [p] t1" "s \<le> t1" "p2 = phase_at s [p] t2"
    using assms(7,8) compute_phase_parsed [OF assms(4,1,2) ps] compute_phase_parsed [OF assms(5,1,2) ps]
    by (auto split: if_splits)
  then show ?thesis
    using single_pass_monotone [OF _ assms(6), of s p] phase_at_reconsidering [of s "[p]" t2] by simp
qed

theorem single_pass_phases_advance_witness:
  "phase_order Emerging \<le> phase_order Integrating \<and> Integrating \<noteq> Reconsidering"
  using single_pass_phases_advance [of date_parse "example_cycle\<lparr>cy_passes := []\<rparr>" 1767225600000 1774137600000
      1768953600000 "''2026-01-01T00:00:00Z''" 1767225600000 "''2026-02-10T00:00:00Z''" 1770681600000
      Emerging Integrating]
    compute_phase_parsed [of date_parse "''2026-01-01T00:00:00Z''" 1767225600000
      "example_cycle\<lparr>cy_passes := []\<rparr>" 1767225600000 1774137600000 "[1768953600000]"]
    compute_phase_parsed [of date_parse "''2026-02-10T00:00:00Z''" 1770681600000
      "example_cycle\<lparr>cy_passes := []\<rparr>" 1767225600000 1774137600000 "[1768953600000]"]
  by (simp add: example_cycle_def example_instants pass_strings_def phase_at_def Let_def
      peak_window_hours_def hour_ms_def emerging_fraction_def)

end
