(* ===== verification/Eligibility.thy ===== *)
theory Eligibility
  imports Reading_Types Source_Allowlist
begin

text \<open>
  \<open>packages/reading-engine/src/eligibility.ts\<close>: the uncertainty constraints on facts, the
  eligibility of editorial objects (DER-18) and the consent and source gate of context signals
  (DER-15).
\<close>

section \<open>The gates\<close>

fun accuracy_rank :: "birth_time_accuracy \<Rightarrow> nat" where
  "accuracy_rank Unknown = 0"
| "accuracy_rank Approximate = 1"
| "accuracy_rank Exact = 2"

definition angle_targets :: "string list" where
  "angle_targets = [''ascendant'', ''midheaven'']"

record eligibility_context =
  ec_accuracy :: birth_time_accuracy
  ec_suppressed :: "string list"
  ec_facts :: "fact list"

text \<open>\<open>(x ?? "").toLowerCase()\<close>.\<close>

definition lower_target :: "fact \<Rightarrow> string" where
  "lower_target f = map to_lower (orelse (fc_target f) [])"

text \<open>A reason code is \<open>Some\<close>; \<open>None\<close> lets the fact, object or signal pass.\<close>

definition fact_suppression_reason :: "fact \<Rightarrow> string list \<Rightarrow> string option" where
  "fact_suppression_reason f suppressed =
     (let target = lower_target f in
      if target \<in> set angle_targets \<and> ''angles'' \<in> set suppressed
      then Some ''uncertainty_angles_suppressed''
      else if target \<in> set angle_targets \<and> ''angle_transits'' \<in> set suppressed
      then Some ''uncertainty_angle_transits_suppressed''
      else if target = ''moon'' \<and> ''moon_time_sensitive'' \<in> set suppressed
      then Some ''uncertainty_moon_time_sensitive_suppressed''
      else None)"

text \<open>The bodies and targets the day's facts name; an empty name is not added.\<close>

definition present_bodies :: "fact list \<Rightarrow> string list" where
  "present_bodies facts =
     concat (map (\<lambda>f. (if truthy (fc_body f) then [the (fc_body f)] else []) @
       (if truthy (fc_target f) then [the (fc_target f)] else [])) facts)"

definition present_aspects :: "fact list \<Rightarrow> string list" where
  "present_aspects facts = map the (filter truthy (map fc_aspect facts))"

definition eligibility_rejection ::
  "eligibility option \<Rightarrow> eligibility_context \<Rightarrow> fact option \<Rightarrow> string option" where
  "eligibility_rejection el ctx candidate =
     (case el of
        None \<Rightarrow> None
      | Some e \<Rightarrow>
         (let classes = orelse (el_fact_classes e) []; bodies = orelse (el_bodies e) [];
              aspects = orelse (el_aspects e) []; techniques = orelse (el_techniques e) [];
              technique = (case candidate of None \<Rightarrow> None | Some f \<Rightarrow> fc_technique f)
          in if el_min_accuracy e \<noteq> None \<and>
               accuracy_rank (ec_accuracy ctx) < accuracy_rank (the (el_min_accuracy e))
             then Some ''eligibility_birth_time_accuracy''
             else if orelse (el_requires_houses e) False \<and> ''houses'' \<in> set (ec_suppressed ctx)
             then Some ''eligibility_requires_houses_suppressed''
             else if classes \<noteq> [] \<and> \<not> list_all (\<lambda>c. c \<in> fc_class ` set (ec_facts ctx)) classes
             then Some ''eligibility_missing_fact_class''
             else if bodies \<noteq> [] \<and> \<not> list_all (\<lambda>b. b \<in> set (present_bodies (ec_facts ctx))) bodies
             then Some ''eligibility_missing_body''
             else if aspects \<noteq> [] \<and> \<not> list_ex (\<lambda>a. a \<in> set (present_aspects (ec_facts ctx))) aspects
             then Some ''eligibility_missing_aspect''
             else if techniques \<noteq> [] \<and> truthy technique \<and> the technique \<notin> set techniques
             then Some ''eligibility_technique_mismatch''
             else None))"

definition context_rejection :: "context_signal \<Rightarrow> string option" where
  "context_rejection s =
     (if cs_permission s \<noteq> ''active'' then Some ''context_permission_inactive''
      else if cs_freshness s \<noteq> ''fresh'' then Some ''context_not_fresh''
      else (case registered_uses (cs_source_id s) of
        None \<Rightarrow> Some ''context_source_not_in_registry_allowlist''
      | Some uses \<Rightarrow>
          if cs_allowed_use s \<notin> set uses then Some ''context_use_not_permitted_for_source'' else None))"

definition context_rejection_row :: "context_signal \<Rightarrow> string \<Rightarrow> rejection" where
  "context_rejection_row s reason =
     \<lparr>rj_kind = ''context'', rj_subject = cs_signal_id s, rj_reason = reason,
      rj_detail = ''source '' @ cs_source_id s @ '' for '' @ cs_allowed_use s\<rparr>"

text \<open>The eligible signals and the rejections, each in the order of the signals.\<close>

fun partition_context :: "context_signal list \<Rightarrow> context_signal list \<times> rejection list" where
  "partition_context [] = ([], [])"
| "partition_context (s # ss) =
     (case partition_context ss of (eligible, rejections) \<Rightarrow>
       (case context_rejection s of
          None \<Rightarrow> (s # eligible, rejections)
        | Some reason \<Rightarrow> (eligible, context_rejection_row s reason # rejections)))"

section \<open>Facts\<close>

text \<open>A signal passes with consent, fresh, from a registered source, for a use it permits.\<close>

definition consented :: "context_signal \<Rightarrow> bool" where
  "consented s =
     (cs_permission s = ''active'' \<and> cs_freshness s = ''fresh'' \<and>
      (\<exists>uses. (cs_source_id s, uses) \<in> set ingestible_sources \<and> cs_allowed_use s \<in> set uses))"

lemma registered_uses_iff: "registered_uses source = Some uses \<longleftrightarrow> (source, uses) \<in> set ingestible_sources"
  using js_map_get_distinct [OF allowlist_keys] js_map_get_Some
  by (auto simp: registered_uses_def)

lemma context_rejection_None: "context_rejection s = None \<longleftrightarrow> consented s"
  by (cases "registered_uses (cs_source_id s)")
    (auto simp: context_rejection_def consented_def simp flip: registered_uses_iff)

lemma partition_context_eligible: "fst (partition_context ss) = filter consented ss"
  by (induction ss) (auto split: prod.splits option.splits simp flip: context_rejection_None)

lemma partition_context_rejections:
  "snd (partition_context ss) =
   map (\<lambda>s. context_rejection_row s (the (context_rejection s))) (filter (\<lambda>s. \<not> consented s) ss)"
  by (induction ss) (auto split: prod.splits option.splits simp flip: context_rejection_None)

lemma excluded_source: "cs_source_id s = ''AMB-12'' \<Longrightarrow> \<not> consented s"
proof
  assume "cs_source_id s = ''AMB-12''" "consented s"
  then have "''AMB-12'' \<in> set (map fst ingestible_sources)"
    by (auto simp: consented_def simp del: set_map simp: set_map) (metis fst_conv image_eqI)
  then show False
    using allowlist_consistent by blast
qed

text \<open>
  the context gate lets exactly the signals through that are permitted, fresh and registered for
  their use, in their order, and turns every other signal into one rejection naming it; nothing is lost.
\<close>
theorem context_gate_partitions:
  "fst (partition_context ss) = filter consented ss \<and>
   map rj_subject (snd (partition_context ss)) = map cs_signal_id (filter (\<lambda>s. \<not> consented s) ss) \<and>
   ''AMB-12'' \<notin> set (map cs_source_id (fst (partition_context ss)))"
  using excluded_source
  by (auto simp: partition_context_eligible partition_context_rejections context_rejection_row_def)

end
