(* ===== verification/Ranking.thy ===== *)
theory Ranking
  imports Phase Eligibility "HOL-Library.Product_Lexorder"
begin

text \<open>
  \<open>packages/reading-engine/src/ranking.ts\<close> (DER-02): the named factors of a fact's score, the
  comparator that orders scored facts and the test for a distinct supporting theme.

  Scores are rationals. Every table entry times its weight has at most four decimal places, so the
  rounding to four places that the code applies to binary floating point returns the nearest double
  of the rational the model computes.
\<close>

section \<open>Tables\<close>

definition body_importance :: "(string \<times> js_num) list" where
  "body_importance =
     [(''pluto'', 1), (''neptune'', 95 / 100), (''uranus'', 9 / 10), (''saturn'', 85 / 100),
      (''jupiter'', 7 / 10), (''true_node'', 6 / 10), (''mars'', 5 / 10), (''sun'', 45 / 100),
      (''venus'', 35 / 100), (''mercury'', 3 / 10), (''moon'', 2 / 10), (''ascendant'', 5 / 10),
      (''midheaven'', 5 / 10)]"

definition target_importance :: "(string \<times> js_num) list" where
  "target_importance =
     [(''sun'', 1), (''moon'', 95 / 100), (''ascendant'', 9 / 10), (''midheaven'', 85 / 100),
      (''saturn'', 6 / 10), (''jupiter'', 55 / 100), (''mars'', 5 / 10), (''venus'', 45 / 100),
      (''mercury'', 4 / 10), (''true_node'', 4 / 10), (''uranus'', 35 / 100), (''neptune'', 35 / 100),
      (''pluto'', 35 / 100)]"

definition aspect_weight :: "(string \<times> js_num) list" where
  "aspect_weight =
     [(''conjunction'', 1), (''opposition'', 9 / 10), (''square'', 85 / 100), (''trine'', 7 / 10),
      (''sextile'', 5 / 10)]"

text \<open>\<open>TABLE[name ?? ""] ?? default\<close>.\<close>

definition table_value :: "(string \<times> js_num) list \<Rightarrow> js_num \<Rightarrow> string option \<Rightarrow> js_num" where
  "table_value table fallback name = orelse (js_map_get table (orelse name [])) fallback"

datatype factor =
    Exactness | BodyImportance | TargetImportance | PhaseFactor | Rarity | TechniqueWeight
  | Angularity | DomainMatch | RepetitionPenalty | Continuity

fun factor_str :: "factor \<Rightarrow> string" where
  "factor_str Exactness = ''exactness''"
| "factor_str BodyImportance = ''body_importance''"
| "factor_str TargetImportance = ''target_importance''"
| "factor_str PhaseFactor = ''phase''"
| "factor_str Rarity = ''rarity''"
| "factor_str TechniqueWeight = ''technique_weight''"
| "factor_str Angularity = ''angularity''"
| "factor_str DomainMatch = ''domain_match''"
| "factor_str RepetitionPenalty = ''repetition_penalty''"
| "factor_str Continuity = ''continuity''"

fun factor_weight :: "factor \<Rightarrow> js_num" where
  "factor_weight Exactness = 30 / 100"
| "factor_weight BodyImportance = 20 / 100"
| "factor_weight TargetImportance = 15 / 100"
| "factor_weight PhaseFactor = 15 / 100"
| "factor_weight Rarity = 10 / 100"
| "factor_weight TechniqueWeight = 5 / 100"
| "factor_weight Angularity = 5 / 100"
| "factor_weight DomainMatch = 10 / 100"
| "factor_weight RepetitionPenalty = - 15 / 100"
| "factor_weight Continuity = 5 / 100"

text \<open>\<open>Math.round\<close> rounds halves up.\<close>

definition round4 :: "js_num \<Rightarrow> js_num" where
  "round4 x = of_int \<lfloor>x * 10000 + 1 / 2\<rfloor> / 10000"

section \<open>Exactness\<close>

definition neutral_exactness :: js_num where
  "neutral_exactness = 1 / 2"

definition fact_passes :: "fact \<Rightarrow> string list" where
  "fact_passes f =
     (if orelse (fc_pass_exact_ats f) [] \<noteq> [] then the (fc_pass_exact_ats f)
      else if truthy (fc_first_exact_at f) then [the (fc_first_exact_at f)] else [])"

text \<open>The index of the first nearest pass.\<close>

definition nearest_pass :: "int \<Rightarrow> int list \<Rightarrow> nat" where
  "nearest_pass t passes =
     foldl (\<lambda>best i. if \<bar>t - passes ! i\<bar> < \<bar>t - passes ! best\<bar> then i else best) 0 [1..<length passes]"

text \<open>Room of the nearest pass on the side of the instant, and the value it normalises to.\<close>

definition pass_room :: "int \<Rightarrow> int \<Rightarrow> int list \<Rightarrow> int \<Rightarrow> nat \<Rightarrow> int" where
  "pass_room start stop passes t i =
     (if passes ! i \<le> t
      then (if Suc i < length passes then passes ! Suc i else stop) - passes ! i
      else passes ! i - (if 0 < i then passes ! (i - 1) else start))"

definition pass_value :: "int \<Rightarrow> int \<Rightarrow> int list \<Rightarrow> int \<Rightarrow> js_num" where
  "pass_value start stop passes t =
     (let i = nearest_pass t passes; distance = \<bar>t - passes ! i\<bar>; room = pass_room start stop passes t i
      in if room \<le> 0 then (if distance = 0 then 1 else 0)
         else max 0 (min 1 (1 - of_int distance / of_int room)))"

text \<open>\<open>(a, b) => a - b\<close>.\<close>

definition cmp_num :: "int \<Rightarrow> int \<Rightarrow> int" where
  "cmp_num a b = a - b"

interpretation num: keyed_comparator cmp_num "\<lambda>x. x"
  by unfold_locales (auto simp: cmp_num_def)

definition exactness :: "(string \<Rightarrow> int option) \<Rightarrow> fact \<Rightarrow> string option \<Rightarrow> js_num \<times> string" where
  "exactness dp f now =
     (case fc_orb f of
        None \<Rightarrow> (neutral_exactness, ''no_orb_scale_treated_as_neutral'')
      | Some orb \<Rightarrow>
          if orb \<le> 0 then (1, ''orb_zero_is_exact'')
          else (case (now, fc_start_at f, fc_end_at f) of
            (Some a, Some s, Some e) \<Rightarrow>
              if fact_passes f = [] then (neutral_exactness, ''envelope_without_pass_treated_as_neutral'')
              else (case (dp a, dp s, dp e, those (map dp (fact_passes f))) of
                (Some t, Some start, Some stop, Some instants) \<Rightarrow>
                  if stop \<le> start then (neutral_exactness, ''degenerate_envelope_treated_as_neutral'')
                  else (pass_value start stop (js_sort cmp_num (uniq instants)) t,
                        ''temporal_distance_to_nearest_pass'')
              | _ \<Rightarrow> (neutral_exactness, ''unparseable_envelope_treated_as_neutral''))
          | _ \<Rightarrow> (neutral_exactness, ''no_orb_ceiling_treated_as_neutral'')))"

section \<open>Scores\<close>

record scored_fact =
  sf_fact :: fact
  sf_score :: js_num
  sf_factors :: "ranking_factor list"

text \<open>
  The options of \<open>scoreFact\<close>; only the presence of the matching cycle object is read.
\<close>

record score_options =
  so_domain :: "string option"
  so_has_object :: bool
  so_seen_recently :: bool
  so_at :: "string option"

text \<open>One call of \<open>add\<close>: the factor, its raw value and its reason.\<close>

definition factor_row :: "factor \<Rightarrow> js_num \<Rightarrow> string \<Rightarrow> ranking_factor" where
  "factor_row factor raw reason =
     \<lparr>rf_factor = factor_str factor, rf_weight = Some (round4 (raw * factor_weight factor)), rf_reason = reason\<rparr>"

definition fact_factors :: "(string \<Rightarrow> int option) \<Rightarrow> fact \<Rightarrow> score_options \<Rightarrow> (factor \<times> js_num \<times> string) list" where
  "fact_factors dp f opts =
     (let unknown = ''unknown''; target = lower_target f
      in [(Exactness, exactness dp f (so_at opts)),
          (BodyImportance, table_value body_importance (1 / 4) (fc_body f),
             ''transiting_'' @ orelse (fc_body f) unknown),
          (TargetImportance, table_value target_importance (1 / 4) (fc_target f),
             ''natal_'' @ orelse (fc_target f) unknown),
          (PhaseFactor, phase_weight (fc_phase f),
             ''phase_'' @ orelse (map_option phase_str (fc_phase f)) ''none''),
          (Rarity, table_value aspect_weight (1 / 2) (fc_aspect f),
             ''aspect_'' @ orelse (fc_aspect f) unknown),
          (TechniqueWeight, if fc_technique f = Some ''transit'' then 1 else 1 / 2,
             ''technique_'' @ orelse (fc_technique f) unknown)] @
         (if target = ''ascendant'' \<or> target = ''midheaven''
          then [(Angularity, 1, ''angular_target_'' @ target)] else []) @
         (if truthy (so_domain opts) \<and> so_has_object opts
          then [(DomainMatch, 1, ''preference_'' @ the (so_domain opts))] else []) @
         (if 1 < orelse (fc_pass_count f) 1
          then [(Continuity, 1, ''multi_pass_'' @ nat_str (the (fc_pass_count f)))] else []) @
         (if so_seen_recently opts then [(RepetitionPenalty, 1, ''primary_in_recent_reading'')] else []))"

definition score_fact :: "(string \<Rightarrow> int option) \<Rightarrow> fact \<Rightarrow> score_options \<Rightarrow> scored_fact" where
  "score_fact dp f opts =
     (let rows = map (\<lambda>(factor, raw, reason). factor_row factor raw reason) (fact_factors dp f opts)
      in \<lparr>sf_fact = f, sf_score = round4 (sum_list (map (\<lambda>r. orelse (rf_weight r) 0) rows)),
          sf_factors = rows\<rparr>)"

text \<open>The sign of the comparator is all that \<open>sort\<close> reads.\<close>

definition compare_scored :: "scored_fact \<Rightarrow> scored_fact \<Rightarrow> int" where
  "compare_scored a b =
     (if sf_score a \<noteq> sf_score b then (if sf_score b < sf_score a then -1 else 1)
      else (let s = orelse (fc_first_exact_at (sf_fact a)) []; t = orelse (fc_first_exact_at (sf_fact b)) []
        in if s \<noteq> t then (if s < t then -1 else 1)
           else cmp_asc (fc_id (sf_fact a)) (fc_id (sf_fact b))))"

definition is_distinct_supporting :: "fact \<Rightarrow> fact \<Rightarrow> bool" where
  "is_distinct_supporting primary candidate =
     (let same_contact = fc_body primary = fc_body candidate \<and> fc_target primary = fc_target candidate \<and>
        fc_aspect primary = fc_aspect candidate
      in \<not> same_contact \<and> fc_id primary \<noteq> fc_id candidate)"

section \<open>The nearest pass\<close>

lemma nearest_fold:
  fixes d :: "nat \<Rightarrow> int"
  defines "r best js \<equiv> foldl (\<lambda>best i. if d i < d best then i else best) best js"
  shows "r best js \<in> insert best (set js) \<and> d (r best js) \<le> d best \<and> (\<forall>j \<in> set js. d (r best js) \<le> d j)"
proof (induction js arbitrary: best)
  case Nil
  then show ?case by (simp add: r_def)
next
  case (Cons j js)
  have "r best (j # js) = r (if d j < d best then j else best) js"
    by (simp add: r_def)
  with Cons.IH [of "if d j < d best then j else best"] show ?case
    by (auto split: if_splits)
qed

lemma nearest_pass:
  assumes "passes \<noteq> []"
  shows "nearest_pass t passes < length passes"
    and "j < length passes \<Longrightarrow> \<bar>t - passes ! nearest_pass t passes\<bar> \<le> \<bar>t - passes ! j\<bar>"
proof -
  have n: "nearest_pass t passes \<in> insert 0 {1..<length passes} \<and>
      \<bar>t - passes ! nearest_pass t passes\<bar> \<le> \<bar>t - passes ! 0\<bar> \<and>
      (\<forall>j \<in> {1..<length passes}. \<bar>t - passes ! nearest_pass t passes\<bar> \<le> \<bar>t - passes ! j\<bar>)"
    unfolding nearest_pass_def
    by (rule nearest_fold [of "\<lambda>i. \<bar>t - passes ! i\<bar>" 0 "[1..<length passes]", unfolded set_upt])
  from n assms show "nearest_pass t passes < length passes"
    by auto
  show "\<bar>t - passes ! nearest_pass t passes\<bar> \<le> \<bar>t - passes ! j\<bar>" if "j < length passes"
    using n that by (cases "j = 0") auto
qed

lemma pass_value_bounds: "0 \<le> pass_value start stop passes t \<and> pass_value start stop passes t \<le> 1"
  by (simp add: pass_value_def Let_def)

lemma exactness_bounds: "0 \<le> fst (exactness dp f now) \<and> fst (exactness dp f now) \<le> 1"
  using pass_value_bounds
  by (auto simp: exactness_def neutral_exactness_def split: option.splits)

text \<open>
  What the value is meant to be: linear on the approach to the first pass and after the last one,
  and between two passes one minus the share of the gap to the nearer of them.
\<close>

definition exactness_curve :: "int \<Rightarrow> int \<Rightarrow> int list \<Rightarrow> int \<Rightarrow> js_num" where
  "exactness_curve start stop passes t =
     (if t \<le> hd passes then of_int (t - start) / of_int (hd passes - start)
      else if last passes \<le> t then of_int (stop - t) / of_int (stop - last passes)
      else (let a = last (filter (\<lambda>p. p \<le> t) passes); b = hd (filter (\<lambda>p. t < p) passes)
        in 1 - of_int (min (t - a) (b - t)) / of_int (b - a)))"

lemma unit_share:
  assumes "0 < room" and "0 \<le> d" and "d \<le> room"
  shows "max 0 (min 1 (1 - of_int d / of_int room)) = (of_int (room - d) / of_int room :: js_num)"
  using assms by (simp add: field_simps max_def min_def)

lemma filter_gap:
  fixes passes :: "int list"
  assumes "sorted_wrt (<) passes" and "Suc k < length passes" and "passes ! k \<le> t" and "t < passes ! Suc k"
  shows "last (filter (\<lambda>p. p \<le> t) passes) = passes ! k" "hd (filter (\<lambda>p. t < p) passes) = passes ! Suc k"
proof -
  have split: "passes = take (Suc k) passes @ drop (Suc k) passes" by simp
  have low: "p \<le> t" if p: "p \<in> set (take (Suc k) passes)" for p
  proof -
    from p obtain j where "j \<le> k" "p = passes ! j"
      using assms(2) by (auto simp: in_set_conv_nth less_Suc_eq_le)
    then show ?thesis
      using sorted_wrt_nth_less [OF assms(1), of j k] assms(2,3) by (cases "j = k") auto
  qed
  have high: "t < p" if p: "p \<in> set (drop (Suc k) passes)" for p
  proof -
    from p obtain i where "i < length passes - Suc k" "p = drop (Suc k) passes ! i"
      by (auto simp: in_set_conv_nth)
    then obtain j where "Suc k \<le> j" "j < length passes" "p = passes ! j"
      by (intro that [of "Suc k + i"]) simp_all
    then show ?thesis
      using sorted_wrt_nth_less [OF assms(1), of "Suc k" j] assms(2,4) by (cases "j = Suc k") auto
  qed
  have "filter (\<lambda>p. p \<le> t) passes = take (Suc k) passes"
    using low high by (subst split, unfold filter_append) (force simp: filter_id_conv filter_empty_conv)
  moreover have "filter (\<lambda>p. t < p) passes = drop (Suc k) passes"
    using low high by (subst split, unfold filter_append) (force simp: filter_id_conv filter_empty_conv)
  ultimately show "last (filter (\<lambda>p. p \<le> t) passes) = passes ! k" "hd (filter (\<lambda>p. t < p) passes) = passes ! Suc k"
    using assms(2) by (simp_all add: take_Suc_conv_app_nth hd_drop_conv_nth)
qed

lemma of_int_share:
  "a < b \<Longrightarrow> 1 - (of_int b - of_int t) / (of_int b - of_int a) = (of_int t - of_int a) / (of_int b - of_int a :: js_num)"
  "a < b \<Longrightarrow> 1 - (of_int t - of_int a) / (of_int b - of_int a) = (of_int b - of_int t) / (of_int b - of_int a :: js_num)"
  by (simp_all add: field_simps)

lemma gap_index:
  fixes passes :: "int list"
  shows "passes \<noteq> [] \<Longrightarrow> hd passes \<le> t \<Longrightarrow> t < last passes \<Longrightarrow>
    \<exists>k. Suc k < length passes \<and> passes ! k \<le> t \<and> t < passes ! Suc k"
proof (induction passes)
  case (Cons p ps)
  show ?case
  proof (cases "ps = [] \<or> t < hd ps")
    case True
    with Cons.prems show ?thesis by (intro exI [of _ 0]) (auto simp: hd_conv_nth split: if_splits)
  next
    case False
    with Cons obtain k where "Suc k < length ps" "ps ! k \<le> t" "t < ps ! Suc k"
      by (auto split: if_splits)
    then show ?thesis by (intro exI [of _ "Suc k"]) simp
  qed
qed simp

lemma pass_value_between:
  assumes "sorted_wrt (<) passes" and "Suc k < length passes" and "passes ! k \<le> t" and "t < passes ! Suc k"
  shows "pass_value start stop passes t =
    1 - of_int (min (t - passes ! k) (passes ! Suc k - t)) / of_int (passes ! Suc k - passes ! k)"
proof -
  let ?n = "nearest_pass t passes"
  have ne: "passes \<noteq> []" using assms(2) by auto
  have near: "\<bar>t - passes ! ?n\<bar> \<le> t - passes ! k" "\<bar>t - passes ! ?n\<bar> \<le> passes ! Suc k - t"
    using nearest_pass(2) [OF ne, of k t] nearest_pass(2) [OF ne, of "Suc k" t] assms(2-4) by auto
  have "?n = k \<or> ?n = Suc k"
  proof (rule ccontr)
    assume "\<not> (?n = k \<or> ?n = Suc k)"
    then consider "?n < k" | "Suc k < ?n" by linarith
    then show False
      using near assms(3,4) sorted_wrt_nth_less [OF assms(1), of ?n k]
        sorted_wrt_nth_less [OF assms(1), of "Suc k" ?n] nearest_pass(1) [OF ne, of t] assms(2)
      by cases auto
  qed
  then show ?thesis
  proof
    assume n: "?n = k"
    have "min (t - passes ! k) (passes ! Suc k - t) = t - passes ! k" using near n assms(3) by simp
    with n assms show ?thesis
      by (simp add: pass_value_def pass_room_def Let_def unit_share of_int_share)
  next
    assume n: "?n = Suc k"
    have "min (t - passes ! k) (passes ! Suc k - t) = passes ! Suc k - t" using near n assms(4) by simp
    with n assms show ?thesis
      by (simp add: pass_value_def pass_room_def Let_def unit_share of_int_share)
  qed
qed

lemma pass_value_early:
  assumes "sorted_wrt (<) passes" and "passes \<noteq> []" and "start \<le> t" and "t \<le> hd passes"
    and "start < hd passes" and "last passes < stop"
  shows "pass_value start stop passes t = of_int (t - start) / of_int (hd passes - start)"
proof -
  let ?n = "nearest_pass t passes"
  have hd0: "hd passes = passes ! 0" using assms(2) by (simp add: hd_conv_nth)
  have "?n = 0"
  proof (rule ccontr)
    assume "?n \<noteq> 0"
    then have "passes ! 0 < passes ! ?n"
      using sorted_wrt_nth_less [OF assms(1), of 0 ?n] nearest_pass(1) [OF assms(2)] by simp
    then show False
      using nearest_pass(2) [OF assms(2), of 0 t] assms(2,4) hd0 by auto
  qed
  moreover have "0 < pass_room start stop passes t 0"
    using assms hd0 sorted_wrt_nth_less [OF assms(1), of 0 1]
    by (auto simp: pass_room_def last_conv_nth split: if_splits)
  ultimately show ?thesis
    using assms hd0
    by (cases "t = hd passes") (simp_all add: pass_value_def pass_room_def Let_def unit_share of_int_share)
qed

lemma pass_value_late:
  assumes "sorted_wrt (<) passes" and "passes \<noteq> []" and "hd passes < t" and "last passes \<le> t"
    and "t \<le> stop" and "last passes < stop"
  shows "pass_value start stop passes t = of_int (stop - t) / of_int (stop - last passes)"
proof -
  let ?n = "nearest_pass t passes" and ?l = "length passes - 1"
  have last: "last passes = passes ! ?l" using assms(2) by (simp add: last_conv_nth)
  have "?n = ?l"
  proof (rule ccontr)
    assume "?n \<noteq> ?l"
    then have "passes ! ?n < passes ! ?l"
      using sorted_wrt_nth_less [OF assms(1), of ?n ?l] nearest_pass(1) [OF assms(2), of t] by simp
    then show False
      using nearest_pass(2) [OF assms(2), of ?l t] assms(2,4) last by auto
  qed
  then show ?thesis
    using assms last by (simp add: pass_value_def pass_room_def Let_def unit_share of_int_share)
qed

text \<open>
  inside an envelope whose edges are not passes the exactness the loop computes is the
  curve it documents: zero at orb entry and exit, one at every pass, linear on the way, and one
  minus the share of the gap to the nearer pass between two of them.
\<close>
theorem exactness_is_documented_curve:
  assumes "sorted_wrt (<) passes" and "passes \<noteq> []" and "start < hd passes" and "last passes < stop"
    and "start \<le> t" and "t \<le> stop"
  shows "pass_value start stop passes t = exactness_curve start stop passes t"
proof -
  consider "t \<le> hd passes" | "hd passes < t" "last passes \<le> t" | "hd passes < t" "t < last passes"
    by linarith
  then show ?thesis
  proof cases
    case 1
    with assms show ?thesis by (simp add: pass_value_early exactness_curve_def)
  next
    case 2
    with assms show ?thesis by (simp add: pass_value_late exactness_curve_def)
  next
    case 3
    obtain k where k: "Suc k < length passes" "passes ! k \<le> t" "t < passes ! Suc k"
      using gap_index [of passes t] 3 assms(2) by auto
    with 3 assms(1) show ?thesis
      by (simp add: pass_value_between exactness_curve_def filter_gap Let_def)
  qed
qed

theorem exactness_is_documented_curve_witness:
  "pass_value 0 100 [20, 40] 25 = exactness_curve 0 100 [20, 40] 25"
  by (rule exactness_is_documented_curve) simp_all

section \<open>The order of scored facts\<close>

text \<open>The key the comparator compares by: descending score, then first exact instant, then id.\<close>

definition rank_key :: "scored_fact \<Rightarrow> js_num \<times> string \<times> string" where
  "rank_key s = (- sf_score s, orelse (fc_first_exact_at (sf_fact s)) [], fc_id (sf_fact s))"

interpretation ranked: keyed_comparator compare_scored rank_key
  by unfold_locales (auto simp: compare_scored_def rank_key_def less_prod_def Let_def cmp_asc_def)

text \<open>
  two runs over the same scored facts, whose ids differ, put them in the same order.
\<close>
theorem ranking_order_independent:
  assumes "mset xs = mset ys" and "inj_on (\<lambda>s. fc_id (sf_fact s)) (set xs)"
  shows "js_sort compare_scored xs = js_sort compare_scored ys"
  using assms(2) by (intro ranked.js_sort_unique [OF assms(1)]) (auto simp: inj_on_def rank_key_def)

definition bare_fact :: "string \<Rightarrow> fact" where
  "bare_fact i = \<lparr>fc_id = i, fc_class = ''cycle_instance'', fc_technique = None, fc_body = None,
     fc_target = None, fc_aspect = None, fc_phase = None, fc_orb = None, fc_first_exact_at = None,
     fc_pass_count = None, fc_start_at = None, fc_end_at = None, fc_pass_exact_ats = None\<rparr>"

definition no_options :: score_options where
  "no_options = \<lparr>so_domain = None, so_has_object = False, so_seen_recently = False, so_at = None\<rparr>"

theorem ranking_order_independent_witness:
  "js_sort compare_scored [score_fact date_parse (bare_fact ''cyc_a'') no_options,
       score_fact date_parse (bare_fact ''cyc_b'') no_options] =
   js_sort compare_scored [score_fact date_parse (bare_fact ''cyc_b'') no_options,
       score_fact date_parse (bare_fact ''cyc_a'') no_options]"
  by (rule ranking_order_independent) (auto simp: score_fact_def bare_fact_def Let_def)

section \<open>What a score is made of\<close>

lemma round4_mono: "x \<le> y \<Longrightarrow> round4 x \<le> round4 y"
  by (simp add: round4_def divide_right_mono floor_mono)

lemma round4_fixed: "round4 (of_int n / 10000) = of_int n / 10000"
proof -
  have "\<lfloor>of_int n + 1 / 2 :: js_num\<rfloor> = n"
    by (simp add: floor_unique)
  then show ?thesis by (simp add: round4_def)
qed

lemma round4_between:
  assumes "of_int m / 10000 \<le> x" and "x \<le> of_int n / 10000"
  shows "of_int m / 10000 \<le> round4 x \<and> round4 x \<le> of_int n / 10000"
  using round4_mono [OF assms(1)] round4_mono [OF assms(2)] by (simp add: round4_fixed)

lemma table_value_bounds:
  assumes "list_all (\<lambda>(_, v). lo \<le> v \<and> v \<le> hi) table" and "lo \<le> d" and "d \<le> hi"
  shows "lo \<le> table_value table d name \<and> table_value table d name \<le> hi"
  using assms by (cases "js_map_get table (orelse name [])")
    (auto simp: table_value_def list_all_iff dest!: js_map_get_Some)

lemma phase_weight_bounds: "0 \<le> phase_weight p \<and> phase_weight p \<le> 1"
  by (cases p rule: phase_weight.cases) simp_all

text \<open>The least and the greatest contribution of each factor.\<close>

fun factor_range :: "factor \<Rightarrow> int \<times> int" where
  "factor_range Exactness = (0, 3000)"
| "factor_range BodyImportance = (400, 2000)"
| "factor_range TargetImportance = (375, 1500)"
| "factor_range PhaseFactor = (0, 1500)"
| "factor_range Rarity = (500, 1000)"
| "factor_range TechniqueWeight = (250, 500)"
| "factor_range Angularity = (500, 500)"
| "factor_range DomainMatch = (1000, 1000)"
| "factor_range RepetitionPenalty = (- 1500, - 1500)"
| "factor_range Continuity = (500, 500)"

definition within_range :: "factor \<Rightarrow> js_num \<Rightarrow> bool" where
  "within_range k w = (of_int (fst (factor_range k)) / 10000 \<le> w \<and> w \<le> of_int (snd (factor_range k)) / 10000)"

lemma factor_within_range:
  assumes "(k, raw, reason) \<in> set (fact_factors dp f opts)"
  shows "within_range k (round4 (raw * factor_weight k))"
proof -
  have t: "2 / 10 \<le> table_value body_importance (1 / 4) (fc_body f) \<and>
      table_value body_importance (1 / 4) (fc_body f) \<le> 1"
    "1 / 4 \<le> table_value target_importance (1 / 4) (fc_target f) \<and>
      table_value target_importance (1 / 4) (fc_target f) \<le> 1"
    "1 / 2 \<le> table_value aspect_weight (1 / 2) (fc_aspect f) \<and>
      table_value aspect_weight (1 / 2) (fc_aspect f) \<le> 1"
    by (rule table_value_bounds; simp add: body_importance_def target_importance_def aspect_weight_def)+
  show ?thesis
    unfolding within_range_def
    using assms t exactness_bounds [of dp f "so_at opts"] phase_weight_bounds [of "fc_phase f"]
    by (cases "exactness dp f (so_at opts)"; intro round4_between)
      (auto simp: fact_factors_def Let_def split: if_splits)
qed

lemma sum_of_factors:
  "of_int 25 / 10000 \<le> (\<Sum>(k, raw, _) \<leftarrow> fact_factors dp f opts. round4 (raw * factor_weight k)) \<and>
   (\<Sum>(k, raw, _) \<leftarrow> fact_factors dp f opts. round4 (raw * factor_weight k)) \<le> of_int 11500 / 10000"
proof -
  let ?w = "\<lambda>(k, raw, _). round4 (raw * factor_weight k)"
  let ?lo = "\<lambda>(k, _, _). of_int (fst (factor_range k)) / 10000 :: js_num"
  let ?hi = "\<lambda>(k, _, _). of_int (snd (factor_range k)) / 10000 :: js_num"
  have "?lo x \<le> ?w x \<and> ?w x \<le> ?hi x" if "x \<in> set (fact_factors dp f opts)" for x
    using factor_within_range [of "fst x" "fst (snd x)" "snd (snd x)"] that
    by (auto simp: within_range_def split: prod.splits)
  then have "sum_list (map ?lo (fact_factors dp f opts)) \<le> sum_list (map ?w (fact_factors dp f opts))"
      "sum_list (map ?w (fact_factors dp f opts)) \<le> sum_list (map ?hi (fact_factors dp f opts))"
    by (auto intro!: sum_list_mono)
  moreover have "of_int 25 / 10000 \<le> sum_list (map ?lo (fact_factors dp f opts))"
    by (simp add: fact_factors_def Let_def case_prod_unfold)
  moreover have "sum_list (map ?hi (fact_factors dp f opts)) \<le> of_int 11500 / 10000"
    by (simp add: fact_factors_def Let_def case_prod_unfold)
  ultimately show ?thesis by linarith
qed

text \<open>
  a fact's score is the rounded sum of the weights recorded as its factors, the six base factors
  come first and no factor is recorded twice; the score is positive and at most 1.15.
\<close>
theorem score_is_sum_of_named_factors:
  "sf_score (score_fact dp f opts) =
     round4 (\<Sum>r \<leftarrow> sf_factors (score_fact dp f opts). orelse (rf_weight r) 0) \<and>
   take 6 (map rf_factor (sf_factors (score_fact dp f opts))) =
     [''exactness'', ''body_importance'', ''target_importance'', ''phase'', ''rarity'', ''technique_weight''] \<and>
   distinct (map rf_factor (sf_factors (score_fact dp f opts))) \<and>
   0 < sf_score (score_fact dp f opts) \<and> sf_score (score_fact dp f opts) \<le> 115 / 100"
proof -
  have sum: "(\<Sum>r \<leftarrow> sf_factors (score_fact dp f opts). orelse (rf_weight r) 0) =
      (\<Sum>(k, raw, _) \<leftarrow> fact_factors dp f opts. round4 (raw * factor_weight k))"
    by (simp add: score_fact_def Let_def comp_def case_prod_unfold factor_row_def)
  have score: "sf_score (score_fact dp f opts) =
      round4 (\<Sum>r \<leftarrow> sf_factors (score_fact dp f opts). orelse (rf_weight r) 0)"
    by (simp add: score_fact_def Let_def)
  have "of_int 25 / 10000 \<le> sf_score (score_fact dp f opts) \<and>
      sf_score (score_fact dp f opts) \<le> of_int 11500 / 10000"
    unfolding score sum using sum_of_factors [of dp f opts] by (intro round4_between) auto
  then have "0 < sf_score (score_fact dp f opts)" "sf_score (score_fact dp f opts) \<le> 115 / 100"
    by (auto intro: less_le_trans [rotated])
  moreover have "take 6 (map rf_factor (sf_factors (score_fact dp f opts))) =
      [''exactness'', ''body_importance'', ''target_importance'', ''phase'', ''rarity'', ''technique_weight'']"
    "distinct (map rf_factor (sf_factors (score_fact dp f opts)))"
    by (auto simp: score_fact_def fact_factors_def factor_row_def Let_def case_prod_unfold)
  ultimately show ?thesis
    using score by blast
qed

end
