(* ===== verification/Identity.thy ===== *)
theory Identity
  imports Phase
begin

text \<open>
  \<open>packages/reading-engine/src/identity.ts\<close>: the preimage of the assembly id, its order, its
  consistency checks and its canonical text.
\<close>

section \<open>Orders\<close>

definition assembly_identity_profile :: string where
  "assembly_identity_profile = ''patternlike.assembly-id.v2''"

definition compare_facts :: "fact \<Rightarrow> fact \<Rightarrow> int" where
  "compare_facts a b =
     (let s = orelse (fc_first_exact_at a) []; t = orelse (fc_first_exact_at b) []
      in if s \<noteq> t then (if s < t then -1 else 1) else cmp_asc (fc_id a) (fc_id b))"

definition compare_context :: "context_input \<Rightarrow> context_input \<Rightarrow> int" where
  "compare_context a b =
     (if cx_source_id a \<noteq> cx_source_id b then (if cx_source_id a < cx_source_id b then -1 else 1)
      else cmp_asc (cx_signal_id a) (cx_signal_id b))"

definition compare_suppressed :: "suppressed_feature \<Rightarrow> suppressed_feature \<Rightarrow> int" where
  "compare_suppressed a b =
     (if sf_class a \<noteq> sf_class b then (if sf_class a < sf_class b then -1 else 1)
      else (let s = orelse (sf_id a) []; t = orelse (sf_id b) []
        in if s \<noteq> t then (if s < t then -1 else 1) else cmp_asc (sf_reason a) (sf_reason b)))"

definition compare_qualified :: "qualified_feature \<Rightarrow> qualified_feature \<Rightarrow> int" where
  "compare_qualified a b =
     (if qf_id a \<noteq> qf_id b then (if qf_id a < qf_id b then -1 else 1)
      else cmp_asc (qf_qualification a) (qf_qualification b))"

interpretation fact_order: keyed_comparator compare_facts "\<lambda>f. (orelse (fc_first_exact_at f) [], fc_id f)"
  by unfold_locales (auto simp: compare_facts_def Let_def cmp_asc_def less_prod_def)

interpretation context_order: keyed_comparator compare_context "\<lambda>c. (cx_source_id c, cx_signal_id c)"
  by unfold_locales (auto simp: compare_context_def cmp_asc_def less_prod_def)

interpretation suppressed_order:
  keyed_comparator compare_suppressed "\<lambda>f. (sf_class f, orelse (sf_id f) [], sf_reason f)"
  by unfold_locales (auto simp: compare_suppressed_def Let_def cmp_asc_def less_prod_def)

interpretation qualified_order: keyed_comparator compare_qualified "\<lambda>f. (qf_id f, qf_qualification f)"
  by unfold_locales (auto simp: compare_qualified_def cmp_asc_def less_prod_def)

section \<open>Projections\<close>

text \<open>
  The declared types have no absent \<open>window_plus_minus_minutes\<close> or \<open>feature_id\<close>: \<open>null\<close> and
  \<open>undefined\<close> are both \<open>None\<close> and \<open>?? null\<close> is the identity.
\<close>

definition project_uncertainty :: "uncertainty_input \<Rightarrow> uncertainty_input" where
  "project_uncertainty u =
     \<lparr>un_accuracy = un_accuracy u, un_window = un_window u,
      un_suppressed = js_sort compare_suppressed
        (map (\<lambda>f. \<lparr>sf_class = sf_class f, sf_id = sf_id f, sf_reason = sf_reason f\<rparr>) (un_suppressed u)),
      un_qualified = js_sort compare_qualified
        (map (\<lambda>f. \<lparr>qf_id = qf_id f, qf_qualification = qf_qualification f\<rparr>) (un_qualified u))\<rparr>"

definition project_identity_fact :: "fact \<Rightarrow> fact" where
  "project_identity_fact f =
     \<lparr>fc_id = fc_id f, fc_class = fc_class f, fc_technique = fc_technique f, fc_body = fc_body f,
      fc_target = fc_target f, fc_aspect = fc_aspect f, fc_phase = fc_phase f, fc_orb = fc_orb f,
      fc_first_exact_at = fc_first_exact_at f, fc_pass_count = fc_pass_count f,
      fc_start_at = fc_start_at f, fc_end_at = fc_end_at f, fc_pass_exact_ats = fc_pass_exact_ats f\<rparr>"

text \<open>\<open>cycle.passes[0]?.exact_at ?? cycle.exact_at\<close>.\<close>

definition first_exact_at :: "normalized_cycle \<Rightarrow> string" where
  "first_exact_at c = (case cy_passes c of [] \<Rightarrow> cy_exact_at c | p # _ \<Rightarrow> pass_exact_at p)"

definition project_cycle ::
  "(string \<Rightarrow> int option) \<Rightarrow> normalized_cycle \<Rightarrow> string \<Rightarrow> engine_error + fact" where
  "project_cycle dp c midpoint =
     and_then (compute_phase dp c midpoint) (\<lambda>phase.
       Inr \<lparr>fc_id = cy_id c, fc_class = ''cycle_instance'', fc_technique = Some (cy_technique c),
         fc_body = Some (cy_body c), fc_target = Some (cy_target c), fc_aspect = Some (cy_aspect c),
         fc_phase = phase, fc_orb = Some (cy_orb c), fc_first_exact_at = Some (first_exact_at c),
         fc_pass_count = Some (cy_pass_count c), fc_start_at = Some (cy_start_at c),
         fc_end_at = Some (cy_end_at c), fc_pass_exact_ats = Some (map pass_exact_at (cy_passes c))\<rparr>)"

definition project_context :: "context_signal \<Rightarrow> context_input" where
  "project_context s =
     \<lparr>cx_signal_id = cs_signal_id s, cx_source_id = cs_source_id s, cx_allowed_use = cs_allowed_use s,
      cx_lane = cs_lane s, cx_hash = cs_hash s\<rparr>"

definition local_day_midpoint ::
  "(string \<Rightarrow> int option) \<Rightarrow> string \<Rightarrow> string \<Rightarrow> engine_error + string" where
  "local_day_midpoint dp day_start day_end =
     (case (dp day_start, dp day_end) of
        (Some start, Some stop) \<Rightarrow>
          if stop \<le> start then
            Inl (IdentityInconsistent (''day_end_at '' @ day_end @ '' must be after day_start_at '' @ day_start))
          else Inr (strip_millis (iso_string (start + (stop - start) div 2)))
      | _ \<Rightarrow> Inl (IdentityInconsistent (''day_start_at/day_end_at are not parseable instants: '' @
               day_start @ '' .. '' @ day_end)))"

definition build_assembly_identity ::
  "assembly_input \<Rightarrow> fact list \<Rightarrow> context_input list \<Rightarrow> engine_error + assembly_identity" where
  "build_assembly_identity input facts context_inputs =
     (let chart = ai_chart input; uncertainty = project_uncertainty (ci_uncertainty chart);
          info = vb_release (ai_release input)
      in if ai_identity_profile input \<noteq> assembly_identity_profile then
           Inl (IdentityInconsistent (''identity_profile '' @ ai_identity_profile input @
             '' is not the profile this engine builds ('' @ assembly_identity_profile @ '')''))
         else if ci_accuracy chart \<noteq> un_accuracy uncertainty then
           Inl (IdentityInconsistent (''effective_accuracy '' @ accuracy_str (ci_accuracy chart) @
             '' disagrees with uncertainty.accuracy '' @ accuracy_str (un_accuracy uncertainty)))
         else Inr
           \<lparr>id_profile = ai_identity_profile input, id_schema_version = ai_schema_version input,
            id_policy_id = ai_policy_id input, id_policy_version = ai_policy_version input,
            id_output_schema = ai_output_schema input, id_local_date = ai_local_date input,
            id_timezone = ai_timezone input, id_generation_anchor = ai_generation_anchor input,
            id_fingerprint = ci_fingerprint chart, id_accuracy = ci_accuracy chart,
            id_uncertainty = uncertainty,
            id_facts = map project_identity_fact (js_sort compare_facts facts),
            id_release_version = ri_version info, id_bundle_hash = ri_bundle_hash info,
            id_context = js_sort compare_context context_inputs, id_locale = ai_locale input,
            id_domain = ai_domain input, id_revision = ai_revision input\<rparr>)"

section \<open>The canonical text\<close>

text \<open>The identity as the JSON value the code passes to \<open>jcsCanonicalize\<close>.\<close>

definition json_object :: "(string \<times> jvalue) list \<Rightarrow> jvalue" where
  "json_object ms = JObject (map (\<lambda>(k, v). (units k, v)) ms)"

definition json_text :: "string \<Rightarrow> jvalue" where
  "json_text s = JText (units s)"

definition nullable :: "('a \<Rightarrow> jvalue) \<Rightarrow> 'a option \<Rightarrow> jvalue" where
  "nullable f x = (case x of None \<Rightarrow> JNullValue | Some y \<Rightarrow> f y)"

definition json_suppressed :: "suppressed_feature \<Rightarrow> jvalue" where
  "json_suppressed f = json_object
     [(''feature_class'', json_text (sf_class f)), (''feature_id'', nullable json_text (sf_id f)),
      (''reason'', json_text (sf_reason f))]"

definition json_qualified :: "qualified_feature \<Rightarrow> jvalue" where
  "json_qualified f = json_object
     [(''feature_id'', json_text (qf_id f)), (''qualification'', json_text (qf_qualification f))]"

definition json_uncertainty :: "uncertainty_input \<Rightarrow> jvalue" where
  "json_uncertainty u = json_object
     [(''accuracy'', json_text (accuracy_str (un_accuracy u))),
      (''window_plus_minus_minutes'', nullable JNumber (un_window u)),
      (''suppressed_features'', JArray (map json_suppressed (un_suppressed u))),
      (''qualified_features'', JArray (map json_qualified (un_qualified u)))]"

definition json_fact :: "fact \<Rightarrow> jvalue" where
  "json_fact f = json_object
     [(''id'', json_text (fc_id f)), (''fact_class'', json_text (fc_class f)),
      (''technique'', nullable json_text (fc_technique f)), (''body'', nullable json_text (fc_body f)),
      (''target'', nullable json_text (fc_target f)), (''aspect'', nullable json_text (fc_aspect f)),
      (''phase'', nullable (\<lambda>p. json_text (phase_str p)) (fc_phase f)),
      (''orb_deg'', nullable JNumber (fc_orb f)),
      (''first_exact_at'', nullable json_text (fc_first_exact_at f)),
      (''pass_count'', nullable (\<lambda>n. JNumber (of_nat n)) (fc_pass_count f)),
      (''start_at'', nullable json_text (fc_start_at f)), (''end_at'', nullable json_text (fc_end_at f)),
      (''pass_exact_ats'', nullable (\<lambda>ps. JArray (map json_text ps)) (fc_pass_exact_ats f))]"

text \<open>\<open>normalized_hash\<close> is a member only when the signal has one.\<close>

definition json_context :: "context_input \<Rightarrow> jvalue" where
  "json_context c = json_object
     ([(''signal_id'', json_text (cx_signal_id c)), (''source_id'', json_text (cx_source_id c)),
       (''allowed_use'', json_text (cx_allowed_use c)), (''evidence_lane'', json_text (cx_lane c))] @
      (case cx_hash c of None \<Rightarrow> [] | Some h \<Rightarrow> [(''normalized_hash'', json_text h)]))"

definition json_identity :: "assembly_identity \<Rightarrow> jvalue" where
  "json_identity i = json_object
     [(''identity_profile'', json_text (id_profile i)), (''schema_version'', json_text (id_schema_version i)),
      (''assembly_policy_id'', json_text (id_policy_id i)),
      (''assembly_policy_version'', json_text (id_policy_version i)),
      (''output_schema'', json_text (id_output_schema i)), (''local_date'', json_text (id_local_date i)),
      (''target_timezone'', json_text (id_timezone i)),
      (''generation_anchor'', json_text (id_generation_anchor i)),
      (''chart_fingerprint'', json_text (id_fingerprint i)),
      (''effective_accuracy'', json_text (accuracy_str (id_accuracy i))),
      (''uncertainty'', json_uncertainty (id_uncertainty i)),
      (''facts'', JArray (map json_fact (id_facts i))),
      (''release_version'', json_text (id_release_version i)),
      (''release_bundle_hash'', json_text (id_bundle_hash i)),
      (''context'', JArray (map json_context (id_context i))), (''locale'', json_text (id_locale i)),
      (''domain_preference'', nullable json_text (id_domain i)),
      (''revision'', JNumber (of_nat (id_revision i)))]"

definition canonicalize_identity :: "assembly_identity \<Rightarrow> jcs_error + units" where
  "canonicalize_identity i = jcs_canonicalize (json_identity i)"

text \<open>\<open>/^[a-f0-9]{64}$/\<close> and the first 32 digits.\<close>

definition render_assembly_id :: "string \<Rightarrow> engine_error + string" where
  "render_assembly_id digest =
     (if length digest = 64 \<and> list_all is_lower_hex digest then Inr (''asm_'' @ take 32 digest)
      else Inl (IdentityInconsistent
        ''assembly id must be rendered from a 64-character lowercase hex SHA-256 digest''))"

section \<open>The text determines the identity\<close>

lemma norm_members:
  assumes "norm_value (json_object ms) = norm_value (json_object ns)" and "distinct (map fst ms)"
    and "map fst ms = map fst ns"
  shows "map (\<lambda>m. norm_value (snd m)) ms = map (\<lambda>m. norm_value (snd m)) ns"
proof -
  let ?g = "\<lambda>m. (units (fst m), norm_value (snd m))"
  have "js_sort by_key (map ?g ms) = js_sort by_key (map ?g ns)"
    using assms(1) by (simp add: json_object_def comp_def case_prod_unfold)
  from arg_cong [OF this, of set] have set: "set (map ?g ms) = set (map ?g ns)"
    by (simp only: set_js_sort)
  have "map fst (map ?g ns) = map units (map fst ns)"
    by simp
  moreover have "distinct (map units (map fst ns))"
    using assms(2,3) by (subst distinct_map) (simp add: inj_on_def inj_units)
  ultimately have dist: "distinct (map fst (map ?g ns))" by (simp only:)
  have len: "length ms = length ns" using assms(3) by (metis length_map)
  show ?thesis
  proof (rule nth_equalityI)
    fix i assume "i < length (map (\<lambda>m. norm_value (snd m)) ms)"
    then have i: "i < length ms" by simp
    then have key: "fst (ms ! i) = fst (ns ! i)"
      using assms(3) len by (metis nth_map)
    have "?g (ms ! i) \<in> set (map ?g ms)" "?g (ns ! i) \<in> set (map ?g ns)"
      using i len by (simp_all only: set_map image_eqI nth_mem)
    then have "norm_value (snd (ms ! i)) = norm_value (snd (ns ! i))"
      using eq_key_imp_eq_value [OF dist] unfolding set key by blast
    then show "map (\<lambda>m. norm_value (snd m)) ms ! i = map (\<lambda>m. norm_value (snd m)) ns ! i"
      using i len by simp
  qed (use len in simp)
qed

lemma norm_length:
  assumes "norm_value (json_object ms) = norm_value (json_object ns)"
  shows "length ms = length ns"
  using arg_cong [OF assms, of "\<lambda>v. case v of JObject es \<Rightarrow> length es | _ \<Rightarrow> 0"]
  by (simp add: json_object_def)

lemma norm_text: "norm_value (json_text s) = norm_value (json_text t) \<longleftrightarrow> s = t"
  by (simp add: json_text_def inj_units)

lemma norm_nullable:
  assumes "\<And>x. norm_value (f x) \<noteq> JNullValue" and "\<And>x y. norm_value (f x) = norm_value (f y) \<Longrightarrow> x = y"
  shows "norm_value (nullable f x) = norm_value (nullable f y) \<longleftrightarrow> x = y"
proof -
  have "JNullValue \<noteq> norm_value (f z)" for z
    using assms(1) [of z] by (rule not_sym)
  then show ?thesis
    by (cases x; cases y) (auto simp: nullable_def assms(1) dest: assms(2))
qed

lemma norm_array:
  assumes "\<And>x y. norm_value (f x) = norm_value (f y) \<Longrightarrow> x = y"
  shows "map (\<lambda>x. norm_value (f x)) xs = map (\<lambda>x. norm_value (f x)) ys \<longleftrightarrow> xs = ys"
proof -
  have "inj (\<lambda>x. norm_value (f x))"
    using assms by (rule injI)
  then show ?thesis by (rule inj_map_eq_map)
qed

lemma accuracy_str_inj [simp]: "accuracy_str a = accuracy_str b \<longleftrightarrow> a = b"
  by (cases a; cases b) simp_all

lemma norm_nullables:
  "norm_value (nullable json_text x) = norm_value (nullable json_text y) \<longleftrightarrow> x = y"
  "norm_value (nullable JNumber u) = norm_value (nullable JNumber v) \<longleftrightarrow> u = v"
  "norm_value (nullable (\<lambda>n. JNumber (of_nat n)) m) = norm_value (nullable (\<lambda>n. JNumber (of_nat n)) n) \<longleftrightarrow> m = n"
  "norm_value (nullable (\<lambda>p. json_text (phase_str p)) p) = norm_value (nullable (\<lambda>p. json_text (phase_str p)) q) \<longleftrightarrow> p = q"
  "norm_value (nullable (\<lambda>ts. JArray (map json_text ts)) xs) =
   norm_value (nullable (\<lambda>ts. JArray (map json_text ts)) ys) \<longleftrightarrow> xs = ys"
  by (rule norm_nullable; simp add: json_text_def inj_units comp_def inj_map_eq_map inj_def)+

lemmas norm_parts = norm_text norm_nullables

lemma norm_suppressed: "norm_value (json_suppressed f) = norm_value (json_suppressed g) \<Longrightarrow> f = g"
  unfolding json_suppressed_def by (drule norm_members) (simp_all add: norm_parts)

lemma norm_qualified: "norm_value (json_qualified f) = norm_value (json_qualified g) \<Longrightarrow> f = g"
  unfolding json_qualified_def by (drule norm_members) (simp_all add: norm_parts)

lemma norm_fact: "norm_value (json_fact f) = norm_value (json_fact g) \<Longrightarrow> f = g"
  unfolding json_fact_def by (drule norm_members) (simp_all add: norm_parts)

lemma norm_context: "norm_value (json_context c) = norm_value (json_context d) \<Longrightarrow> c = d"
proof -
  assume eq: "norm_value (json_context c) = norm_value (json_context d)"
  have "(cx_hash c = None) = (cx_hash d = None)"
    using norm_length [OF eq [unfolded json_context_def]] by (auto split: option.splits)
  then show ?thesis
    using norm_members [OF eq [unfolded json_context_def]]
    by (cases "cx_hash c"; cases "cx_hash d") (simp_all add: norm_parts)
qed

lemma norm_uncertainty: "norm_value (json_uncertainty u) = norm_value (json_uncertainty v) \<Longrightarrow> u = v"
  unfolding json_uncertainty_def
  by (drule norm_members)
    (simp_all add: norm_parts comp_def norm_array [OF norm_suppressed] norm_array [OF norm_qualified])

lemma norm_identity: "norm_value (json_identity i) = norm_value (json_identity j) \<Longrightarrow> i = j"
  unfolding json_identity_def
  by (drule norm_members)
    (simp_all add: norm_parts comp_def norm_array [OF norm_fact] norm_array [OF norm_context] norm_uncertainty)

section \<open>When the text exists\<close>

text \<open>A value every part of which has a canonical form, wherever it stands.\<close>

definition canonical :: "jvalue \<Rightarrow> bool" where
  "canonical v = (\<forall>path. \<exists>s. canonicalize v path = Inr s)"

definition plain_number :: "js_num \<Rightarrow> bool" where
  "plain_number x = (CHR ''e'' \<notin> set (num_str x) \<and> CHR ''E'' \<notin> set (num_str x))"

lemma escape_units_total: "\<exists>r. escape_units path (units s) = Inr r"
proof (induction s)
  case (Cons c s)
  then obtain r where r: "escape_units path (units s) = Inr r" by blast
  have "(of_char c :: nat) < 256" by simp
  then have "unat (of_nat (of_char c) :: 16 word) < 256"
    by (simp add: unat_of_nat take_bit_eq_mod le_less_trans [OF mod_less_eq_dividend])
  then have "\<not> is_high (of_nat (of_char c))" "\<not> is_low (of_nat (of_char c))"
    by (auto simp: is_high_def is_low_def word_le_nat_alt)
  then show ?case
    using r by (auto split: option.splits)
qed simp

lemma canonical_string_total: "\<exists>r. canonical_string (units s) path = Inr r"
  using escape_units_total [of path s] by (auto simp: canonical_string_def)

lemma map_throw_total: "\<forall>x \<in> set xs. \<exists>y. f x = Inr y \<Longrightarrow> \<exists>ys. map_throw f xs = Inr ys"
  by (induction xs) auto

lemma canonical_simps [simp]:
  "canonical JNullValue" "canonical (json_text s)" "canonical (JNumber x) \<longleftrightarrow> plain_number x"
  using canonical_string_total
  by (auto simp: canonical_def json_text_def canonical_number_def plain_number_def Let_def)

lemma canonical_array:
  assumes "list_all canonical vs"
  shows "canonical (JArray vs)"
proof -
  have "\<exists>ps. map_throw (\<lambda>r. r) (map (\<lambda>(i, v). canonicalize v (index_path path i)) (enumerate 0 vs)) = Inr ps" for path
    using assms
    by (intro map_throw_total) (auto simp: list_all_iff canonical_def enumerate_eq_zip dest!: set_zip_rightD)
  then show ?thesis
    by (auto simp: canonical_def and_then_Inr)
qed

lemma canonical_object:
  assumes "list_all (\<lambda>m. canonical (snd m)) ms"
  shows "canonical (json_object ms)"
proof -
  have "\<exists>ps. map_throw (member_text path) (js_sort by_key
      (map (\<lambda>(k, v). (k, v = JUndefined, canonicalize v (key_path path k))) (map (\<lambda>(k, v). (units k, v)) ms))) = Inr ps"
    for path
  proof (intro map_throw_total ballI)
    fix x assume "x \<in> set (js_sort by_key
      (map (\<lambda>(k, v). (k, v = JUndefined, canonicalize v (key_path path k))) (map (\<lambda>(k, v). (units k, v)) ms)))"
    then obtain k v where m: "(k, v) \<in> set ms"
      and x: "x = (units k, v = JUndefined, canonicalize v (key_path path (units k)))"
      by auto
    have "canonical v" using assms m by (auto simp: list_all_iff)
    then obtain s where s: "canonicalize v (key_path path (units k)) = Inr s"
      unfolding canonical_def by blast
    moreover from this have "v \<noteq> JUndefined" by auto
    moreover obtain r where "canonical_string (units k) path = Inr r"
      using canonical_string_total by blast
    ultimately show "\<exists>y. member_text path x = Inr y"
      by (simp add: x member_text_def)
  qed
  then show ?thesis
    by (auto simp: canonical_def json_object_def and_then_Inr)
qed

lemma canonical_nullable: "canonical (nullable f x) \<longleftrightarrow> (case x of None \<Rightarrow> True | Some y \<Rightarrow> canonical (f y))"
  by (simp add: nullable_def split: option.splits)

text \<open>The numbers of an identity: the uncertainty window, the orbs, the pass counts and the revision.\<close>

definition fact_numbers :: "fact \<Rightarrow> js_num list" where
  "fact_numbers f =
     (case fc_orb f of None \<Rightarrow> [] | Some x \<Rightarrow> [x]) @ (case fc_pass_count f of None \<Rightarrow> [] | Some n \<Rightarrow> [of_nat n])"

definition identity_numbers :: "assembly_identity \<Rightarrow> js_num list" where
  "identity_numbers i =
     (case un_window (id_uncertainty i) of None \<Rightarrow> [] | Some w \<Rightarrow> [w]) @
     concat (map fact_numbers (id_facts i)) @ [of_nat (id_revision i)]"

lemma canonical_leaves:
  "canonical (json_suppressed f)" "canonical (json_qualified q)" "canonical (json_context c)"
  unfolding json_suppressed_def json_qualified_def json_context_def
  by (rule canonical_object; simp add: canonical_nullable split: option.splits)+

lemma canonical_fact:
  assumes "list_all plain_number (fact_numbers f)"
  shows "canonical (json_fact f)"
  unfolding json_fact_def using assms
  by (intro canonical_object)
    (simp add: fact_numbers_def canonical_nullable canonical_array list_all_iff split: option.splits)

lemma canonical_identity: "list_all plain_number (identity_numbers i) \<Longrightarrow> canonical (json_identity i)"
proof -
  assume n: "list_all plain_number (identity_numbers i)"
  have "canonical (json_uncertainty (id_uncertainty i))"
    unfolding json_uncertainty_def using n
    by (intro canonical_object)
      (simp add: identity_numbers_def canonical_nullable canonical_array list_all_iff canonical_leaves
        split: option.splits)
  moreover have "canonical (json_fact f)" if "f \<in> set (id_facts i)" for f
  proof (rule canonical_fact)
    have "set (fact_numbers f) \<subseteq> set (identity_numbers i)"
      using that by (auto simp: identity_numbers_def)
    with n show "list_all plain_number (fact_numbers f)"
      by (auto simp: list_all_iff)
  qed
  moreover have "plain_number (of_nat (id_revision i))"
    using n by (simp add: identity_numbers_def)
  ultimately show ?thesis
    unfolding json_identity_def
    by (intro canonical_object)
      (simp add: canonical_array list_all_iff canonical_nullable canonical_leaves split: option.splits)
qed

section \<open>Properties\<close>

definition example_identity :: assembly_identity where
  "example_identity =
     \<lparr>id_profile = assembly_identity_profile, id_schema_version = ''0.3.0'', id_policy_id = ''p'',
      id_policy_version = ''1'', id_output_schema = ''daily-reading-v3'', id_local_date = ''2026-01-02'',
      id_timezone = ''UTC'', id_generation_anchor = ''a'', id_fingerprint = ''f'', id_accuracy = Exact,
      id_uncertainty = \<lparr>un_accuracy = Exact, un_window = None, un_suppressed = [], un_qualified = []\<rparr>,
      id_facts = [], id_release_version = ''r'', id_bundle_hash = ''h'', id_context = [],
      id_locale = ''en-US'', id_domain = None, id_revision = 1\<rparr>"

lemma example_identity_canonical: "\<exists>s. canonicalize_identity example_identity = Inr s"
proof -
  have "num_str 1 = ''1''" by code_simp
  then have "list_all plain_number (identity_numbers example_identity)"
    by (simp add: identity_numbers_def example_identity_def plain_number_def)
  then show ?thesis
    using canonical_identity by (auto simp: canonicalize_identity_def jcs_canonicalize_def canonical_def)
qed

text \<open>
  the bytes the assembly id is hashed from determine every field of the identity: inputs
  that differ in anything the preimage carries have different texts.
\<close>
theorem identity_text_is_injective:
  assumes "canonicalize_identity i = Inr s" and "canonicalize_identity j = Inr s"
  shows "i = j"
  by (rule norm_identity) (rule canonical_determines [OF assms [unfolded canonicalize_identity_def]])

theorem identity_text_is_injective_witness:
  "\<exists>s. canonicalize_identity example_identity = Inr s \<and>
    (\<forall>j. canonicalize_identity j = Inr s \<longrightarrow> example_identity = j)"
  using example_identity_canonical identity_text_is_injective by blast

definition bare_signal :: "string \<Rightarrow> context_input" where
  "bare_signal i = \<lparr>cx_signal_id = i, cx_source_id = ''USR-01'', cx_allowed_use = ''tone'',
     cx_lane = ''user_and_context'', cx_hash = None\<rparr>"

text \<open>
  the identity does not depend on the order in which eligible facts and context signals arrive.
\<close>
theorem identity_ignores_input_order:
  assumes "mset fs = mset gs" and "inj_on fc_id (set fs)"
    and "mset cs = mset ds" and "inj_on (\<lambda>c. (cx_source_id c, cx_signal_id c)) (set cs)"
  shows "build_assembly_identity input fs cs = build_assembly_identity input gs ds"
proof -
  have facts: "js_sort compare_facts fs = js_sort compare_facts gs"
    using assms(2) by (intro fact_order.js_sort_unique [OF assms(1)]) (auto simp: inj_on_def)
  have signals: "js_sort compare_context cs = js_sort compare_context ds"
    by (rule context_order.js_sort_unique [OF assms(3,4)])
  show ?thesis
    unfolding build_assembly_identity_def facts signals ..
qed

text \<open>
  the frozen midpoint of a local day whose bounds are whole seconds reads back as an instant
  inside the day.
\<close>
theorem midpoint_inside_day:
  assumes "instant_parser dp" and "local_day_midpoint dp day_start day_end = Inr m"
    and "dp day_start = Some start" and "dp day_end = Some stop"
    and "start mod 1000 = 0" and "\<bar>start\<bar> \<le> max_time" and "\<bar>stop\<bar> \<le> max_time"
  shows "\<exists>t. dp m = Some t \<and> start \<le> t \<and> t < stop \<and> t mod 1000 = 0"
proof -
  define mid where "mid = start + (stop - start) div 2"
  have less: "start < stop" and m: "m = strip_millis (iso_string mid)"
    using assms(2-4) by (auto simp: local_day_midpoint_def mid_def split: if_splits)
  then have mid: "start \<le> mid" "mid < stop" by (simp_all add: mid_def)
  define low where "low = mid - mid mod 1000"
  have low: "low = 1000 * (mid div 1000)" by (simp add: low_def minus_mod_eq_mult_div)
  have "dp m = Some low"
    using instant_parser.dp_seconds [OF assms(1), of mid] assms(6,7) mid by (simp add: m low_def)
  moreover have "start \<le> low"
  proof -
    have "start = 1000 * (start div 1000)"
      using assms(5) by auto
    also have "\<dots> \<le> low"
      using zdiv_mono1 [OF mid(1), of 1000] by (simp add: low)
    finally show ?thesis .
  qed
  moreover have "low < stop"
    using mid(2) pos_mod_sign [of 1000 mid] by (simp add: low_def)
  moreover have "low mod 1000 = 0"
    by (simp add: low)
  ultimately show ?thesis by (intro exI [of _ low] conjI)
qed

theorem midpoint_inside_day_witness:
  "\<exists>m t. local_day_midpoint date_parse ''2026-01-02T00:00:00Z'' ''2026-01-03T00:00:00Z'' = Inr m \<and>
    date_parse m = Some t \<and> 1767312000000 \<le> t \<and> t < 1767398400000 \<and> t mod 1000 = 0"
proof -
  have days: "date_parse ''2026-01-02T00:00:00Z'' = Some 1767312000000"
    "date_parse ''2026-01-03T00:00:00Z'' = Some 1767398400000"
    by (simp_all add: date_parse_defs)
  then obtain m where m: "local_day_midpoint date_parse ''2026-01-02T00:00:00Z'' ''2026-01-03T00:00:00Z'' = Inr m"
    by (simp add: local_day_midpoint_def)
  show ?thesis
    using midpoint_inside_day [OF ecma.instant_parser_axioms m days] m by (simp add: max_time_def)
qed

theorem identity_ignores_input_order_witness:
  "build_assembly_identity input [] [bare_signal ''a'', bare_signal ''b''] =
   build_assembly_identity input [] [bare_signal ''b'', bare_signal ''a'']"
  by (rule identity_ignores_input_order) (simp_all add: bare_signal_def)

end
