(* ===== verification/Assembly.thy ===== *)
theory Assembly
  imports Ranking Identity
begin

text \<open>
  \<open>packages/reading-engine/src/assemble.ts\<close>: the deterministic daily reading. Every step that may
  throw has the type \<open>engine_error + _\<close>; a \<open>!\<close> assertion on a value that could be missing is a
  branch to \<open>NullDereference\<close>, which \<open>assembly_never_dereferences_null\<close> shows is never taken.
\<close>

section \<open>Locale and approval\<close>

definition resolve_locale :: "assembly_input \<Rightarrow> engine_error + string" where
  "resolve_locale input =
     (let info = vb_release (ai_release input); configured = js_map_get (ri_fallbacks info) (ai_locale input)
      in if ai_locale input \<in> set (ri_supported_locales info) then Inr (ai_locale input)
         else if truthy configured \<and> the configured \<in> set (ri_supported_locales info) then Inr (the configured)
         else if ri_locale_default info \<notin> set (ri_supported_locales info) then
           Inl (AssemblyError ''locale_default_not_supported''
             (''release '' @ ri_version info @ '' declares locale_default '' @ ri_locale_default info @
              '', which is not in supported_locales''))
         else Inr (ri_locale_default info))"

text \<open>The comparator of \<open>approved\<close> never answers 0: equal ids keep their order.\<close>

definition compare_ids :: "'a editorial_scheme \<Rightarrow> 'a editorial_scheme \<Rightarrow> int" where
  "compare_ids a b = (if ob_id a < ob_id b then -1 else 1)"

definition is_approved :: "string \<Rightarrow> 'a editorial_scheme \<Rightarrow> bool" where
  "is_approved locale ob = (orelse (ob_status ob) ''approved'' = ''approved'' \<and> ob_locale ob = locale)"

definition approved :: "'a editorial_scheme list \<Rightarrow> string \<Rightarrow> 'a editorial_scheme list" where
  "approved objects locale = js_sort compare_ids (filter (is_approved locale) objects)"

section \<open>Timing templates\<close>

definition iso_date :: "(string \<Rightarrow> int option) \<Rightarrow> string \<Rightarrow> engine_error + string" where
  "iso_date dp value =
     (case dp value of
        None \<Rightarrow> Inl (AssemblyError ''invalid_instant'' (''not a parseable instant: '' @ value))
      | Some t \<Rightarrow> Inr (take 10 (iso_string t)))"

text \<open>The names \<open>[a-z_]+\<close> of \<open>PLACEHOLDER_RE\<close>.\<close>

definition name_char :: "char \<Rightarrow> bool" where
  "name_char c = (CHR ''a'' \<le> c \<and> c \<le> CHR ''z'' \<or> c = CHR ''_'')"

text \<open>
  \<open>replace\<close> with a global expression: the leftmost match of \<open>{name}\<close> is replaced and the scan goes
  on behind it. Only the five own names of \<open>values\<close> are looked up.
\<close>

function fill_placeholders ::
  "string \<Rightarrow> string list \<Rightarrow> (string \<times> string) list \<Rightarrow> string \<Rightarrow> engine_error + string" where
  "fill_placeholders tid declared vals [] = Inr []"
| "fill_placeholders tid declared vals (c # cs) =
     (let name = takeWhile name_char cs; rest = dropWhile name_char cs in
      if c = CHR ''{'' \<and> name \<noteq> [] \<and> rest \<noteq> [] \<and> hd rest = CHR ''}'' then
        (if name \<notin> set declared then
           Inl (AssemblyError ''timing_undeclared_placeholder''
             (''template '' @ tid @ '' uses {'' @ name @ ''}, which it does not declare''))
         else (case map_of vals name of
             None \<Rightarrow> Inl (AssemblyError ''timing_unknown_placeholder''
               (''template '' @ tid @ '' uses unknown placeholder {'' @ name @ ''}''))
           | Some v \<Rightarrow> and_then (fill_placeholders tid declared vals (tl rest)) (\<lambda>r. Inr (v @ r))))
      else and_then (fill_placeholders tid declared vals cs) (\<lambda>r. Inr (c # r)))"
  by pat_completeness auto
termination
  by (relation "measure (\<lambda>(_, _, _, cs). length cs)")
    (auto simp: less_Suc_eq_le intro: le_trans [OF diff_le_self length_dropWhile_le])

declare fill_placeholders.simps(2) [simp del]

definition render_timing_template ::
  "(string \<Rightarrow> int option) \<Rightarrow> timing_template \<Rightarrow> normalized_cycle \<Rightarrow> string \<Rightarrow> engine_error + string" where
  "render_timing_template dp template c phase =
     and_then (iso_date dp (cy_start_at c)) (\<lambda>start_date.
     and_then (iso_date dp (first_exact_at c)) (\<lambda>exact_date.
     and_then (iso_date dp (cy_end_at c)) (\<lambda>end_date.
       fill_placeholders (ob_id template) (tt_placeholders template)
         [(''start_date'', start_date), (''exact_date'', exact_date), (''end_date'', end_date),
          (''orb'', num_str (cy_orb c)), (''phase'', phase)] (tt_text template))))"

section \<open>Paragraphs\<close>

record builder =
  bu_paragraphs :: "reading_paragraph list"
  bu_evidence :: "paragraph_evidence list"

definition content_ref_of :: "'a editorial_scheme \<Rightarrow> assembly_input \<Rightarrow> content_ref" where
  "content_ref_of ob input =
     (let info = vb_release (ai_release input) in
      \<lparr>cr_fragment_id = ob_id ob, cr_content_version = ob_content_version ob,
       cr_release_version = ri_version info, cr_content_type = ob_content_type ob,
       cr_bundle_hash = Some (ri_bundle_hash info)\<rparr>)"

definition fact_ref_of :: "fact \<Rightarrow> string \<Rightarrow> fact_ref" where
  "fact_ref_of f fingerprint =
     \<lparr>fr_id = fc_id f, fr_type = fc_class f, fr_phase = fc_phase f, fr_orb = fc_orb f,
      fr_fingerprint = Some fingerprint, fr_technique = fc_technique f, fr_pass_index = Some 1\<rparr>"

text \<open>What a call of \<open>push\<close> contributes besides the numbering.\<close>

record para =
  pa_role :: string
  pa_text :: string
  pa_lane :: string
  pa_facts :: "fact_ref list"
  pa_content :: "content_ref list"
  pa_context :: "context_ref list"
  pa_ranking :: "ranking_factor list"

definition push :: "string \<Rightarrow> builder \<Rightarrow> para \<Rightarrow> builder" where
  "push reading_id b p =
     (let order = length (bu_paragraphs b) + 1; pid = reading_id @ ''.p'' @ nat_str order in
      \<lparr>bu_paragraphs = bu_paragraphs b @
         [\<lparr>rp_id = pid, rp_role = pa_role p, rp_order = order, rp_text = pa_text p\<rparr>],
       bu_evidence = bu_evidence b @
         [\<lparr>pe_id = pid, pe_role = pa_role p, pe_order = order, pe_lane = pa_lane p, pe_text_hash = None,
           pe_facts = pa_facts p, pe_content = pa_content p, pe_context = pa_context p,
           pe_ranking = pa_ranking p\<rparr>]\<rparr>)"

section \<open>Editorial lookups\<close>

definition find_cycle_object :: "cycle_object list \<Rightarrow> fact \<Rightarrow> cycle_object option" where
  "find_cycle_object objects f =
     List.find (\<lambda>ob. Some (co_technique ob) = fc_technique f \<and>
       (truthy (fc_body f) \<longrightarrow> the (fc_body f) \<in> set (co_bodies ob)) \<and>
       (truthy (fc_target f) \<longrightarrow> the (fc_target f) \<in> set (co_targets ob)) \<and>
       (co_aspect ob \<noteq> None \<longrightarrow> co_aspect ob = fc_aspect f)) objects"

definition find_phase_object :: "phase_object list \<Rightarrow> cycle_object \<Rightarrow> cycle_phase \<Rightarrow> phase_object option" where
  "find_phase_object phases ob phase =
     List.find (\<lambda>p. ph_parent_cycle_id p = ob_id ob \<and> ph_phase p = phase \<and>
       ob_id p \<in> set (co_phase_ids ob)) phases"

section \<open>The steps of the assembly\<close>

definition reject :: "string \<Rightarrow> string \<Rightarrow> string \<Rightarrow> string \<Rightarrow> rejection" where
  "reject kind subject reason detail =
     \<lparr>rj_kind = kind, rj_subject = subject, rj_reason = reason, rj_detail = detail\<rparr>"

definition compare_cycles :: "normalized_cycle \<Rightarrow> normalized_cycle \<Rightarrow> int" where
  "compare_cycles a b =
     (let s = first_exact_at a; t = first_exact_at b
      in if s \<noteq> t then (if s < t then -1 else 1) else cmp_asc (cy_id a) (cy_id b))"

interpretation cycle_order: keyed_comparator compare_cycles "\<lambda>c. (first_exact_at c, cy_id c)"
  by unfold_locales (auto simp: compare_cycles_def Let_def cmp_asc_def less_prod_def)

definition null_str :: "string option \<Rightarrow> string" where
  "null_str s = orelse s ''null''"

text \<open>Steps 2 and 3: the fact of an active, unsuppressed cycle, or the rejection of the cycle.\<close>

definition classify_cycle ::
  "(string \<Rightarrow> int option) \<Rightarrow> string \<Rightarrow> string list \<Rightarrow> normalized_cycle \<Rightarrow> engine_error + (rejection + fact)" where
  "classify_cycle dp midpoint suppressed c =
     and_then (project_cycle dp c midpoint) (\<lambda>f. Inr
       (if fc_phase f = None then
          Inl (reject ''cycle'' (cy_id c) ''cycle_not_active_on_target_date''
            (cy_start_at c @ ''..'' @ cy_end_at c @ '' excludes '' @ midpoint))
        else (case fact_suppression_reason f suppressed of
          Some reason \<Rightarrow> Inl (reject ''cycle'' (cy_id c) reason (''target '' @ null_str (fc_target f)))
        | None \<Rightarrow> Inr f)))"

record gathered =
  ga_facts :: "fact list"
  ga_active :: "(string \<times> normalized_cycle) list"
  ga_rejections :: "rejection list"

fun gather_facts ::
  "(string \<Rightarrow> int option) \<Rightarrow> string \<Rightarrow> string list \<Rightarrow> normalized_cycle list \<Rightarrow> engine_error + gathered" where
  "gather_facts dp midpoint suppressed [] = Inr \<lparr>ga_facts = [], ga_active = [], ga_rejections = []\<rparr>"
| "gather_facts dp midpoint suppressed (c # cs) =
     and_then (classify_cycle dp midpoint suppressed c) (\<lambda>r.
     and_then (gather_facts dp midpoint suppressed cs) (\<lambda>g. Inr
       (case r of
          Inl row \<Rightarrow> g\<lparr>ga_rejections := row # ga_rejections g\<rparr>
        | Inr f \<Rightarrow> g\<lparr>ga_facts := f # ga_facts g, ga_active := (cy_id c, c) # ga_active g\<rparr>)))"

text \<open>The approved objects of the resolved locale.\<close>

record approved_objects =
  ap_cycles :: "cycle_object list"
  ap_phases :: "phase_object list"
  ap_prompts :: "prompt_object list"
  ap_modifiers :: "modifier_object list"
  ap_timing :: "timing_template list"
  ap_fallbacks :: "fallback_copy list"

definition approved_objects_of :: "assembly_input \<Rightarrow> string \<Rightarrow> approved_objects" where
  "approved_objects_of input locale =
     (let obs = vb_objects (ai_release input) in
      \<lparr>ap_cycles = approved (rb_cycles obs) locale, ap_phases = approved (rb_phases obs) locale,
       ap_prompts = approved (rb_prompts obs) locale, ap_modifiers = approved (rb_modifiers obs) locale,
       ap_timing = approved (rb_timing_templates obs) locale,
       ap_fallbacks = approved (rb_fallbacks obs) locale\<rparr>)"

text \<open>Step 5: the scored fact, or the rejection of the fact.\<close>

definition rank_fact ::
  "(string \<Rightarrow> int option) \<Rightarrow> assembly_input \<Rightarrow> string \<Rightarrow> string \<Rightarrow> approved_objects \<Rightarrow> eligibility_context \<Rightarrow>
   fact \<Rightarrow> engine_error + (rejection + scored_fact)" where
  "rank_fact dp input locale midpoint obs ctx f =
     (case find_cycle_object (ap_cycles obs) f of
        None \<Rightarrow> Inr (Inl (reject ''cycle'' (fc_id f) ''no_editorial_cycle_object''
          (null_str (fc_body f) @ '' '' @ null_str (fc_aspect f) @ '' '' @ null_str (fc_target f) @
           '' in locale '' @ locale)))
      | Some ob \<Rightarrow>
         (case eligibility_rejection (co_eligibility ob) ctx (Some f) of
            Some reason \<Rightarrow> Inr (Inl (reject ''content'' (ob_id ob) reason (''for fact '' @ fc_id f)))
          | None \<Rightarrow>
             (case fc_phase f of
                None \<Rightarrow> Inl NullDereference
              | Some phase \<Rightarrow>
                 if find_phase_object (ap_phases obs) ob phase = None then
                   Inr (Inl (reject ''content'' (ob_id ob) ''no_editorial_phase_object''
                     (''phase '' @ phase_str phase @ '' in locale '' @ locale)))
                 else Inr (Inr (score_fact dp f
                   \<lparr>so_domain = ai_domain input, so_has_object = True, so_seen_recently = False,
                    so_at = Some midpoint\<rparr>)))))"

fun sort_out :: "('e + ('r + 'a)) list \<Rightarrow> 'e + ('a list \<times> 'r list)" where
  "sort_out [] = Inr ([], [])"
| "sort_out (x # xs) =
     and_then x (\<lambda>r. and_then (sort_out xs) (\<lambda>(kept, rows). Inr
       (case r of Inl row \<Rightarrow> (kept, row # rows) | Inr y \<Rightarrow> (y # kept, rows))))"

text \<open>Step 6: the first distinct supporting theme, and the themes not selected.\<close>

definition select_supporting :: "fact \<Rightarrow> scored_fact list \<Rightarrow> scored_fact option \<times> scored_fact list" where
  "select_supporting primary rest =
     (let distinct_theme = (\<lambda>s. is_distinct_supporting primary (sf_fact s)) in
      (List.find distinct_theme rest,
       takeWhile (\<lambda>s. \<not> distinct_theme s) rest @ tl (dropWhile (\<lambda>s. \<not> distinct_theme s) rest)))"

definition not_selected :: "scored_fact option \<Rightarrow> scored_fact \<Rightarrow> rejection" where
  "not_selected supporting s =
     reject ''cycle'' (fc_id (sf_fact s))
       (if supporting \<noteq> None then ''not_selected_lower_rank'' else ''supporting_not_distinct_from_primary'')
       (''score '' @ num_str (sf_score s))"

text \<open>The reviewed phase object of a scored theme.\<close>

definition theme_object ::
  "approved_objects \<Rightarrow> scored_fact \<Rightarrow> engine_error + (cycle_phase \<times> phase_object)" where
  "theme_object obs s =
     (case find_cycle_object (ap_cycles obs) (sf_fact s) of
        None \<Rightarrow> Inl NullDereference
      | Some ob \<Rightarrow>
         (case fc_phase (sf_fact s) of
            None \<Rightarrow> Inl NullDereference
          | Some phase \<Rightarrow>
             (case find_phase_object (ap_phases obs) ob phase of
                None \<Rightarrow> Inl NullDereference
              | Some p \<Rightarrow> Inr (phase, p))))"

section \<open>Validation\<close>

definition check_row :: "string \<Rightarrow> string \<Rightarrow> string option \<Rightarrow> validation_check" where
  "check_row check result detail = \<lparr>vc_check = check, vc_result = result, vc_detail = detail\<rparr>"

definition pass_check :: "string \<Rightarrow> validation_check" where
  "pass_check check = check_row check ''pass'' None"

definition fail_check :: "string \<Rightarrow> string \<Rightarrow> validation_check" where
  "fail_check check code = check_row check ''fail'' (Some code)"

definition check_unless :: "bool \<Rightarrow> string \<Rightarrow> string \<Rightarrow> validation_check" where
  "check_unless bad check code = (if bad then fail_check check code else pass_check check)"

definition unprovenanced :: "paragraph_evidence \<Rightarrow> bool" where
  "unprovenanced p = (pe_content p = [] \<and> pe_role p \<noteq> ''context_label'')"

definition bad_timing :: "paragraph_evidence \<Rightarrow> bool" where
  "bad_timing p =
     (pe_role p = ''timing'' \<and>
      (pe_facts p = [] \<or> \<not> list_ex (\<lambda>c. cr_content_type c = ''timing_template'') (pe_content p)))"

definition laundered :: "paragraph_evidence \<Rightarrow> bool" where
  "laundered p = (pe_lane p = ''celestial_facts'' \<and> pe_context p \<noteq> [])"

definition run_validation ::
  "paragraph_evidence list \<Rightarrow> fact list \<Rightarrow> fact \<Rightarrow> fact option \<Rightarrow> validation_check list" where
  "run_validation evidence eligible_facts primary supporting =
     (let ids = map fc_id eligible_facts in
      [pass_check ''schema'',
       check_unless (List.find unprovenanced evidence \<noteq> None) ''provenance'' ''paragraph_without_content_ref'',
       check_unless (List.find bad_timing evidence \<noteq> None) ''dates'' ''timing_without_fact_or_template'',
       check_unless (List.find (\<lambda>f. fr_id f \<notin> set ids) (concat (map pe_facts evidence)) \<noteq> None)
         ''unsupported_facts'' ''fact_outside_eligible_set'',
       check_row ''fatalism'' ''skip'' (Some ''deterministic_mode''),
       check_row ''diagnosis'' ''skip'' (Some ''deterministic_mode''),
       check_unless (List.find laundered evidence \<noteq> None) ''source_laundering'' ''context_presented_as_celestial'',
       pass_check ''eligibility_allowlist'',
       pass_check ''uncertainty_constraints'',
       pass_check ''consent_freshness'',
       check_unless (case supporting of None \<Rightarrow> False | Some s \<Rightarrow> \<not> is_distinct_supporting primary s)
         ''repetition'' ''supporting_repeats_primary''])"

section \<open>The outcomes\<close>

text \<open>The parts of the reading and of the evidence that both outcomes fill in the same way.\<close>

definition reading_of :: "assembly_input \<Rightarrow> string \<Rightarrow> bool \<Rightarrow> reading_paragraph list \<Rightarrow> daily_reading" where
  "reading_of input locale fallback paragraphs =
     \<lparr>dr_schema_version = ''0.3.0'', dr_output_schema = ''daily-reading-v3'',
      dr_reading_id = ai_reading_id input, dr_local_date = ai_local_date input,
      dr_generated_at = ai_generation_anchor input, dr_mode = ''deterministic'',
      dr_revision = ai_revision input, dr_locale = locale, dr_domain = ai_domain input,
      dr_paragraphs = paragraphs, dr_fallback_used = fallback\<rparr>"

definition evidence_of ::
  "assembly_input \<Rightarrow> theme_ref option \<Rightarrow> theme_ref option \<Rightarrow> bool \<Rightarrow> paragraph_evidence list \<Rightarrow>
   validation_check list \<Rightarrow> reading_evidence" where
  "evidence_of input primary supporting fallback paragraphs checks =
     \<lparr>re_schema_version = ''0.3.0'', re_reading_id = ai_reading_id input,
      re_local_date = ai_local_date input, re_release_version = ri_version (vb_release (ai_release input)),
      re_fingerprint = ci_fingerprint (ai_chart input), re_mode = ''deterministic'',
      re_policy_version = ai_policy_version input, re_revision = ai_revision input,
      re_primary = primary, re_supporting = supporting, re_paragraphs = paragraphs,
      re_validation = \<lparr>va_passed = True, va_fallback_used = fallback, va_checks = checks\<rparr>,
      re_created_at = ai_generation_anchor input\<rparr>"

text \<open>What the run has fixed before it ranks the candidate facts.\<close>

record assembly_start =
  st_locale :: string
  st_midpoint :: string
  st_gathered :: gathered
  st_eligible :: "context_signal list"
  st_rejections :: "rejection list"
  st_identity :: assembly_identity
  st_canonical :: units
  st_objects :: approved_objects

definition fallback_outcome ::
  "assembly_input \<Rightarrow> assembly_start \<Rightarrow> rejection list \<Rightarrow> string \<Rightarrow> validation_check list \<Rightarrow>
   engine_error + assembly_outcome" where
  "fallback_outcome input start rejections reason prior_checks =
     (case ap_fallbacks (st_objects start) of
        [] \<Rightarrow> Inl (AssemblyError ''fallback_missing_for_locale''
          (''release '' @ ri_version (vb_release (ai_release input)) @
           '' has no approved universal daily_fallback for locale '' @ st_locale start))
      | fallback # _ \<Rightarrow>
         (let pid = ai_reading_id input @ ''.p1'';
              checks = prior_checks @ [check_row ''other'' ''pass'' (Some reason)]
          in Inr
           \<lparr>ao_identity = st_identity start, ao_canonical = st_canonical start,
            ao_reading = reading_of input (st_locale start) True
              [\<lparr>rp_id = pid, rp_role = ''safety_fallback'', rp_order = 1, rp_text = fb_body fallback\<rparr>],
            ao_evidence = evidence_of input None None True
              [\<lparr>pe_id = pid, pe_role = ''safety_fallback'', pe_order = 1, pe_lane = ''operational'',
                pe_text_hash = None, pe_facts = [], pe_content = [content_ref_of fallback input],
                pe_context = [], pe_ranking = []\<rparr>] checks,
            ao_rejections = rejections\<rparr>))"

fun eligible_prompts :: "prompt_object list \<Rightarrow> eligibility_context \<Rightarrow> prompt_object list \<times> rejection list" where
  "eligible_prompts [] ctx = ([], [])"
| "eligible_prompts (p # ps) ctx =
     (case eligible_prompts ps ctx of (eligible, rows) \<Rightarrow>
       (case eligibility_rejection (pm_eligibility p) ctx None of
          Some reason \<Rightarrow> (eligible, reject ''content'' (ob_id p) reason ''reflection prompt'' # rows)
        | None \<Rightarrow> (p # eligible, rows)))"

definition choose_prompt :: "string option \<Rightarrow> prompt_object list \<Rightarrow> prompt_object option" where
  "choose_prompt domain eligible =
     (if eligible = [] then None
      else (case (if truthy domain then List.find (\<lambda>p. the domain \<in> set (pm_domains p)) eligible else None) of
        Some p \<Rightarrow> Some p
      | None \<Rightarrow> Some (hd eligible)))"


definition select_prompt ::
  "prompt_object list \<Rightarrow> assembly_input \<Rightarrow> eligibility_context \<Rightarrow> prompt_object option \<times> rejection list" where
  "select_prompt prompts input ctx =
     (case eligible_prompts prompts ctx of (eligible, rows) \<Rightarrow> (choose_prompt (ai_domain input) eligible, rows))"

section \<open>The paragraphs of the chapter\<close>

definition celestial_para ::
  "string \<Rightarrow> string \<Rightarrow> fact_ref list \<Rightarrow> content_ref list \<Rightarrow> ranking_factor list \<Rightarrow> para" where
  "celestial_para role body facts content ranking =
     \<lparr>pa_role = role, pa_text = body, pa_lane = ''celestial_facts'', pa_facts = facts,
      pa_content = content, pa_context = [], pa_ranking = ranking\<rparr>"

definition theme_para ::
  "assembly_input \<Rightarrow> string \<Rightarrow> scored_fact \<Rightarrow> phase_object \<Rightarrow> para" where
  "theme_para input role s ob =
     celestial_para role (ph_summary ob) [fact_ref_of (sf_fact s) (ci_fingerprint (ai_chart input))]
       [content_ref_of ob input] (sf_factors s)"

text \<open>The phase and the reviewed object of the supporting theme, when there is one.\<close>

definition supporting_object ::
  "approved_objects \<Rightarrow> scored_fact option \<Rightarrow> engine_error + (scored_fact \<times> cycle_phase \<times> phase_object) option" where
  "supporting_object obs supporting =
     (case supporting of
        None \<Rightarrow> Inr None
      | Some s \<Rightarrow> and_then (theme_object obs s) (\<lambda>(phase, ob). Inr (Some (s, phase, ob))))"

definition timing_step ::
  "(string \<Rightarrow> int option) \<Rightarrow> assembly_input \<Rightarrow> string \<Rightarrow> approved_objects \<Rightarrow> (string \<times> normalized_cycle) list \<Rightarrow>
   fact \<Rightarrow> cycle_phase \<Rightarrow> engine_error + (para list \<times> rejection list)" where
  "timing_step dp input locale obs active primary phase =
     (case (case List.find tt_is_default (ap_timing obs) of
        Some t \<Rightarrow> Some t
      | None \<Rightarrow> (case ap_timing obs of [] \<Rightarrow> None | t # _ \<Rightarrow> Some t)) of
        None \<Rightarrow> Inr ([], [reject ''content'' (''timing_template:'' @ locale)
          ''timing_template_missing_for_locale'' (''no approved template in locale '' @ locale)])
      | Some template \<Rightarrow>
         (case js_map_get active (fc_id primary) of
            None \<Rightarrow> Inl NullDereference
          | Some c \<Rightarrow> and_then (render_timing_template dp template c (phase_str phase)) (\<lambda>body. Inr
              ([celestial_para ''timing'' body [fact_ref_of primary (ci_fingerprint (ai_chart input))]
                 [content_ref_of template input] []], []))))"

definition prompt_step ::
  "assembly_input \<Rightarrow> string \<Rightarrow> approved_objects \<Rightarrow> eligibility_context \<Rightarrow> fact \<Rightarrow> para list \<times> rejection list" where
  "prompt_step input locale obs ctx primary =
     (case select_prompt (ap_prompts obs) input ctx of (prompt, rows) \<Rightarrow>
       (case prompt of
          Some p \<Rightarrow> ([celestial_para ''reflection'' (pm_text p)
            [fact_ref_of primary (ci_fingerprint (ai_chart input))] [content_ref_of p input] []], rows)
        | None \<Rightarrow> ([], rows @ [reject ''content'' (''prompt:'' @ locale) ''no_reflection_prompt_for_locale''
            (''no approved prompt survived eligibility in locale '' @ locale)])))"

definition notice_step :: "assembly_input \<Rightarrow> string \<Rightarrow> approved_objects \<Rightarrow> para list \<times> rejection list" where
  "notice_step input locale obs =
     (let qualified = un_qualified (ci_uncertainty (ai_chart input)) in
      if qualified = [] then ([], [])
      else (case List.find (\<lambda>m. mo_kind m = ''uncertainty'') (ap_modifiers obs) of
        Some m \<Rightarrow> ([\<lparr>pa_role = ''uncertainty_notice'', pa_text = mo_body m, pa_lane = ''operational'',
          pa_facts = [], pa_content = [content_ref_of m input], pa_context = [], pa_ranking = []\<rparr>], [])
      | None \<Rightarrow> ([], [reject ''content'' (''uncertainty_modifier:'' @ locale)
          ''no_uncertainty_modifier_for_locale''
          (nat_str (length qualified) @ '' qualified feature(s) unannounced'')])))"

definition context_ref_of :: "context_signal \<Rightarrow> context_ref" where
  "context_ref_of s =
     \<lparr>xr_signal_id = cs_signal_id s, xr_source_id = cs_source_id s, xr_allowed_use = cs_allowed_use s,
      xr_lane = cs_lane s, xr_label = (if truthy (cs_label s) then cs_label s else None)\<rparr>"

definition label_step :: "assembly_input \<Rightarrow> approved_objects \<Rightarrow> context_signal list \<Rightarrow> para list" where
  "label_step input obs eligible =
     (if eligible = [] then []
      else (case List.find (\<lambda>m. mo_kind m = ''domain'') (ap_modifiers obs) of
        None \<Rightarrow> []
      | Some m \<Rightarrow> [\<lparr>pa_role = ''context_label'', pa_text = mo_body m, pa_lane = ''user_and_context'',
          pa_facts = [], pa_content = [content_ref_of m input], pa_context = map context_ref_of eligible,
          pa_ranking = []\<rparr>]))"

section \<open>The assembly\<close>

definition theme_ref_of :: "scored_fact \<Rightarrow> cycle_phase \<Rightarrow> phase_object \<Rightarrow> theme_ref" where
  "theme_ref_of s phase ob = \<lparr>tr_cycle_id = fc_id (sf_fact s), tr_phase = phase, tr_fragment_ids = [ob_id ob]\<rparr>"

record daily_chapter =
  ch_paras :: "para list"
  ch_rejections :: "rejection list"
  ch_primary :: theme_ref
  ch_supporting :: "theme_ref option"

text \<open>Step 7: the paragraphs in their fixed role order, with the gaps recorded on the way.\<close>

definition chapter_paras ::
  "assembly_input \<Rightarrow> scored_fact \<Rightarrow> phase_object \<Rightarrow> (scored_fact \<times> cycle_phase \<times> phase_object) option \<Rightarrow>
   para list \<Rightarrow> para list" where
  "chapter_paras input primary ob support others =
     theme_para input ''primary_theme'' primary ob #
     (case support of None \<Rightarrow> [] | Some (s, _, sob) \<Rightarrow> [theme_para input ''supporting_theme'' s sob]) @
     celestial_para ''phase_context'' (ph_constructive ob)
       [fact_ref_of (sf_fact primary) (ci_fingerprint (ai_chart input))] [content_ref_of ob input] [] #
     others"

definition assemble_chapter ::
  "(string \<Rightarrow> int option) \<Rightarrow> assembly_input \<Rightarrow> string \<Rightarrow> approved_objects \<Rightarrow> eligibility_context \<Rightarrow>
   (string \<times> normalized_cycle) list \<Rightarrow> context_signal list \<Rightarrow> scored_fact \<Rightarrow> scored_fact option \<Rightarrow>
   engine_error + daily_chapter" where
  "assemble_chapter dp input locale obs ctx active eligible primary supporting =
     and_then (theme_object obs primary) (\<lambda>(phase, ob).
     and_then (supporting_object obs supporting) (\<lambda>support.
     and_then (timing_step dp input locale obs active (sf_fact primary) phase) (\<lambda>(timing, timing_rows).
       let (prompt, prompt_rows) = prompt_step input locale obs ctx (sf_fact primary);
           (notice, notice_rows) = notice_step input locale obs
       in Inr \<lparr>ch_paras = chapter_paras input primary ob support
                 (timing @ prompt @ notice @ label_step input obs eligible),
               ch_rejections = timing_rows @ prompt_rows @ notice_rows,
               ch_primary = theme_ref_of primary phase ob,
               ch_supporting = map_option (\<lambda>(s, sphase, sob). theme_ref_of s sphase sob) support\<rparr>)))"

text \<open>Steps 1 to 4.\<close>

definition suppressed_classes :: "assembly_input \<Rightarrow> string list" where
  "suppressed_classes input = map sf_class (un_suppressed (ci_uncertainty (ai_chart input)))"

definition identity_text :: "assembly_identity \<Rightarrow> engine_error + units" where
  "identity_text i = (case canonicalize_identity i of Inl e \<Rightarrow> Inl (NotCanonical e) | Inr t \<Rightarrow> Inr t)"

definition begin_assembly :: "(string \<Rightarrow> int option) \<Rightarrow> assembly_input \<Rightarrow> engine_error + assembly_start" where
  "begin_assembly dp input =
     and_then (resolve_locale input) (\<lambda>locale.
     and_then (local_day_midpoint dp (ai_day_start_at input) (ai_day_end_at input)) (\<lambda>midpoint.
     and_then (gather_facts dp midpoint (suppressed_classes input) (js_sort compare_cycles (ai_cycles input))) (\<lambda>g.
     (case partition_context (ai_context input) of (eligible, context_rows) \<Rightarrow>
     and_then (build_assembly_identity input (ga_facts g) (map project_context eligible)) (\<lambda>identity.
     and_then (identity_text identity) (\<lambda>canonical. Inr
       \<lparr>st_locale = locale, st_midpoint = midpoint, st_gathered = g, st_eligible = eligible,
        st_rejections = ga_rejections g @ context_rows, st_identity = identity, st_canonical = canonical,
        st_objects = approved_objects_of input locale\<rparr>))))))"

definition eligibility_ctx :: "assembly_input \<Rightarrow> assembly_start \<Rightarrow> eligibility_context" where
  "eligibility_ctx input start =
     \<lparr>ec_accuracy = ci_accuracy (ai_chart input), ec_suppressed = suppressed_classes input,
      ec_facts = ga_facts (st_gathered start)\<rparr>"

text \<open>Step 5: the scored facts and the rejections of the others.\<close>

definition rank_candidates ::
  "(string \<Rightarrow> int option) \<Rightarrow> assembly_input \<Rightarrow> assembly_start \<Rightarrow>
   engine_error + (scored_fact list \<times> rejection list)" where
  "rank_candidates dp input start =
     sort_out (map (rank_fact dp input (st_locale start) (st_midpoint start) (st_objects start)
       (eligibility_ctx input start)) (ga_facts (st_gathered start)))"

text \<open>Steps 6 to 8, once a primary theme has been scored.\<close>

definition publish_themes ::
  "(string \<Rightarrow> int option) \<Rightarrow> assembly_input \<Rightarrow> assembly_start \<Rightarrow> rejection list \<Rightarrow> scored_fact \<Rightarrow>
   scored_fact list \<Rightarrow> engine_error + assembly_outcome" where
  "publish_themes dp input start rejections primary rest =
     (case select_supporting (sf_fact primary) rest of (supporting, others) \<Rightarrow>
       and_then (assemble_chapter dp input (st_locale start) (st_objects start) (eligibility_ctx input start)
         (ga_active (st_gathered start)) (st_eligible start) primary supporting) (\<lambda>ch.
         let builder = foldl (push (ai_reading_id input)) \<lparr>bu_paragraphs = [], bu_evidence = []\<rparr> (ch_paras ch);
             rows = rejections @ map (not_selected supporting) others @ ch_rejections ch;
             checks = run_validation (bu_evidence builder) (ga_facts (st_gathered start)) (sf_fact primary)
               (map_option sf_fact supporting)
         in if list_ex (\<lambda>c. vc_result c = ''fail'') checks then
              fallback_outcome input start rows ''validation_rejected'' checks
            else Inr
              \<lparr>ao_identity = st_identity start, ao_canonical = st_canonical start,
               ao_reading = reading_of input (st_locale start) False (bu_paragraphs builder),
               ao_evidence = evidence_of input (Some (ch_primary ch)) (ch_supporting ch) False
                 (bu_evidence builder) checks,
               ao_rejections = rows\<rparr>))"

definition assemble_reading ::
  "(string \<Rightarrow> int option) \<Rightarrow> assembly_input \<Rightarrow> engine_error + assembly_outcome" where
  "assemble_reading dp input =
     and_then (begin_assembly dp input) (\<lambda>start.
     and_then (rank_candidates dp input start) (\<lambda>(kept, ranking_rows).
       let rejections = st_rejections start @ ranking_rows
       in (case js_sort compare_scored kept of
             [] \<Rightarrow> fallback_outcome input start rejections ''no_eligible_theme'' []
           | primary # rest \<Rightarrow> publish_themes dp input start rejections primary rest)))"

section \<open>Stamping the digests\<close>

text \<open>The record of hashes is keyed by paragraph id; the last entry of a key counts.\<close>

definition stamp_paragraph ::
  "(string \<times> string) list \<Rightarrow> paragraph_evidence \<Rightarrow> engine_error + paragraph_evidence" where
  "stamp_paragraph hashes p =
     (case js_map_get hashes (pe_id p) of
        None \<Rightarrow> Inl (AssemblyError ''missing_text_hash''
          (''no text hash supplied for paragraph '' @ pe_id p))
      | Some h \<Rightarrow> Inr (p\<lparr>pe_text_hash := Some h\<rparr>))"

definition finalize_reading :: "assembly_outcome \<Rightarrow> assembly_hashes \<Rightarrow> engine_error + evidence_draft" where
  "finalize_reading outcome hashes =
     (let e = ao_evidence outcome in
      and_then (map_throw (stamp_paragraph (ah_text_hashes hashes)) (re_paragraphs e)) (\<lambda>paragraphs.
        Inr (reading_evidence.extend (e\<lparr>re_paragraphs := paragraphs\<rparr>)
          (evidence_draft.fields (ah_assembly_id hashes)))))"

end
