(* ===== verification/Assembly_Example.thy ===== *)
theory Assembly_Example
  imports Assembly
begin

text \<open>One published reading, evaluated step by step: the input the assembly's properties are applied to.\<close>

section \<open>An example\<close>

definition example_info :: release_info where
  "example_info = \<lparr>ri_version = ''2026.1'', ri_bundle_hash = ''b0'', ri_supported_locales = [''en''],
     ri_locale_default = ''en'', ri_fallbacks = []\<rparr>"

definition example_chart :: chart_input where
  "example_chart = \<lparr>ci_fingerprint = ''fp'', ci_accuracy = Exact,
     ci_uncertainty = \<lparr>un_accuracy = Exact, un_window = None, un_suppressed = [],
       un_qualified = [\<lparr>qf_id = ''moon'', qf_qualification = ''sign_may_change''\<rparr>]\<rparr>\<rparr>"

definition example_objects :: release_objects where
  "example_objects =
     \<lparr>rb_cycles = [\<lparr>ob_id = ''co1'', ob_content_type = ''cycle'', ob_content_version = ''1'', ob_locale = ''en'',
        ob_status = None, co_technique = ''transit'', co_bodies = [''saturn''], co_targets = [''sun''],
        co_aspect = Some ''square'', co_phase_ids = [''ph1''], co_eligibility = None\<rparr>],
      rb_phases = [\<lparr>ob_id = ''ph1'', ob_content_type = ''phase'', ob_content_version = ''1'', ob_locale = ''en'',
        ob_status = None, ph_parent_cycle_id = ''co1'', ph_phase = Reconsidering, ph_summary = ''s'',
        ph_constructive = ''c'', ph_shadow = ''d'', ph_eligibility = None\<rparr>],
      rb_prompts = [],
      rb_modifiers = [\<lparr>ob_id = ''mo1'', ob_content_type = ''modifier'', ob_content_version = ''1'',
        ob_locale = ''en'', ob_status = None, mo_kind = ''uncertainty'', mo_body = ''n'', mo_precedence = 0,
        mo_eligibility = None\<rparr>,
       \<lparr>ob_id = ''mo2'', ob_content_type = ''modifier'', ob_content_version = ''1'',
        ob_locale = ''en'', ob_status = None, mo_kind = ''domain'', mo_body = ''l'', mo_precedence = 0,
        mo_eligibility = None\<rparr>],
      rb_timing_templates = [\<lparr>ob_id = ''tt1'', ob_content_type = ''timing_template'', ob_content_version = ''1'',
        ob_locale = ''en'', ob_status = None, tt_text = ''{phase} until {end_date}'',
        tt_placeholders = [''phase'', ''end_date''], tt_is_default = True\<rparr>],
      rb_fallbacks = []\<rparr>"

definition example_signal :: context_signal where
  "example_signal = \<lparr>cs_signal_id = ''sig'', cs_source_id = ''AMB-04'', cs_allowed_use = ''tone'',
     cs_lane = ''user_and_context'', cs_hash = None, cs_permission = ''active'', cs_freshness = ''fresh'',
     cs_label = None\<rparr>"

definition example_input :: assembly_input where
  "example_input =
     \<lparr>ai_identity_profile = assembly_identity_profile, ai_schema_version = ''0.3.0'',
      ai_output_schema = ''daily-reading-v3'', ai_policy_id = ''daily-reading-deterministic'',
      ai_policy_version = ''1'', ai_reading_id = ''r'', ai_revision = 1, ai_local_date = ''2026-02-09'',
      ai_timezone = ''UTC'', ai_generation_anchor = ''2026-02-09T00:00:00Z'',
      ai_day_start_at = ''2026-02-09T12:00:00Z'', ai_day_end_at = ''2026-02-10T12:00:00Z'',
      ai_chart = example_chart, ai_cycles = [example_cycle],
      ai_release = \<lparr>vb_release = example_info, vb_objects = example_objects\<rparr>,
      ai_context = [example_signal], ai_locale = ''en'', ai_domain = None\<rparr>"

section \<open>Its evaluation\<close>

definition example_midpoint :: string where
  "example_midpoint = ''2026-02-10T00:00:00Z''"

definition example_fact :: fact where
  "example_fact = \<lparr>fc_id = ''cyc_a'', fc_class = ''cycle_instance'', fc_technique = Some ''transit'',
     fc_body = Some ''saturn'', fc_target = Some ''sun'', fc_aspect = Some ''square'',
     fc_phase = Some Reconsidering, fc_orb = Some 2, fc_first_exact_at = Some ''2026-01-21T00:00:00Z'',
     fc_pass_count = Some 2, fc_start_at = Some ''2026-01-01T00:00:00Z'', fc_end_at = Some ''2026-03-22T00:00:00Z'',
     fc_pass_exact_ats = Some [''2026-01-21T00:00:00Z'', ''2026-03-02T00:00:00Z'']\<rparr>"

definition example_gathered :: gathered where
  "example_gathered = \<lparr>ga_facts = [example_fact], ga_active = [(''cyc_a'', example_cycle)], ga_rejections = []\<rparr>"

lemma example_locale: "resolve_locale example_input = Inr ''en''"
  by (simp add: resolve_locale_def example_input_def example_info_def)

lemma example_day_ends:
  "date_parse ''2026-02-09T12:00:00Z'' = Some 1770638400000"
  "date_parse ''2026-02-10T12:00:00Z'' = Some 1770724800000"
  by (simp_all add: date_parse_defs)

lemma example_iso:
  "iso_string 1770681600000 = ''2026-02-10T00:00:00.000Z''"
  "iso_string 1767225600000 = ''2026-01-01T00:00:00.000Z''"
  "iso_string 1768953600000 = ''2026-01-21T00:00:00.000Z''"
  "iso_string 1774137600000 = ''2026-03-22T00:00:00.000Z''"
  "strip_millis ''2026-02-10T00:00:00.000Z'' = ''2026-02-10T00:00:00Z''"
  by code_simp+

lemma example_midday:
  "local_day_midpoint date_parse (ai_day_start_at example_input) (ai_day_end_at example_input) = Inr example_midpoint"
  by (simp add: local_day_midpoint_def example_input_def example_day_ends example_iso example_midpoint_def)

lemma example_phase: "compute_phase date_parse example_cycle example_midpoint = Inr (Some Reconsidering)"
proof -
  have "map date_parse (pass_strings example_cycle) = map Some [1768953600000, 1772409600000]"
    by (simp add: pass_strings_def example_cycle_def example_instants)
  from compute_phase_parsed [where dp = date_parse and now = example_midpoint and c = example_cycle, OF _ _ _ this]
  show ?thesis
    by (simp add: example_midpoint_def example_instants example_cycle_def phase_at_def Let_def
      peak_window_hours_def hour_ms_def)
qed

lemma example_projected: "project_cycle date_parse example_cycle example_midpoint = Inr example_fact"
  unfolding project_cycle_def example_phase and_then_simps
  by (simp add: example_cycle_def example_fact_def first_exact_at_def)

lemma example_gathering:
  "gather_facts date_parse example_midpoint [] [example_cycle] = Inr example_gathered"
proof -
  have "fc_phase example_fact = Some Reconsidering" "fact_suppression_reason example_fact [] = None"
    "cy_id example_cycle = ''cyc_a''"
    by (simp_all add: example_fact_def example_cycle_def fact_suppression_reason_def lower_target_def Let_def)
  then show ?thesis
    by (simp add: classify_cycle_def example_projected example_gathered_def)
qed

lemma example_approved:
  "approved_objects_of example_input ''en'' =
   \<lparr>ap_cycles = rb_cycles example_objects, ap_phases = rb_phases example_objects, ap_prompts = [],
    ap_modifiers = rb_modifiers example_objects, ap_timing = rb_timing_templates example_objects, ap_fallbacks = []\<rparr>"
  by (simp add: approved_objects_of_def example_input_def example_objects_def approved_def is_approved_def
    js_sort_def compare_ids_def Let_def)

lemma example_signal_consented: "consented example_signal"
  unfolding consented_def example_signal_def ingestible_sources_def
  by simp

lemma example_context: "partition_context [example_signal] = ([example_signal], [])"
  using example_signal_consented partition_context_eligible [of "[example_signal]"]
    partition_context_rejections [of "[example_signal]"]
  by (cases "partition_context [example_signal]") (simp del: partition_context.simps)

lemma example_identity_exists:
  "\<exists>i t. build_assembly_identity example_input [example_fact] [project_context example_signal] = Inr i \<and> identity_text i = Inr t"
proof -
  have "num_str 1 = ''1''" "num_str 2 = ''2''" by code_simp+
  then obtain i where i: "build_assembly_identity example_input [example_fact] [project_context example_signal] = Inr i"
    and nums: "list_all plain_number (identity_numbers i)"
    by (simp add: build_assembly_identity_def example_input_def example_chart_def example_fact_def
      identity_numbers_def fact_numbers_def project_uncertainty_def project_identity_fact_def js_sort_def
      plain_number_def Let_def)
  obtain t where "canonicalize (json_identity i) [] = Inr t"
    using canonical_identity [OF nums] by (auto simp: canonical_def)
  then show ?thesis
    using i by (simp add: identity_text_def canonicalize_identity_def jcs_canonicalize_def)
qed

lemma example_begins:
  "\<exists>i t. begin_assembly date_parse example_input = Inr
     \<lparr>st_locale = ''en'', st_midpoint = example_midpoint, st_gathered = example_gathered, st_eligible = [example_signal],
      st_rejections = [], st_identity = i, st_canonical = t, st_objects = approved_objects_of example_input ''en''\<rparr>"
proof -
  obtain i t where "build_assembly_identity example_input [example_fact] [project_context example_signal] = Inr i" "identity_text i = Inr t"
    using example_identity_exists by auto
  moreover have "js_sort compare_cycles (ai_cycles example_input) = [example_cycle]"
    and "suppressed_classes example_input = []" and "ai_context example_input = [example_signal]"
    by (simp_all add: example_input_def js_sort_def suppressed_classes_def example_chart_def)
  ultimately show ?thesis
    using example_gathering
    by (simp add: begin_assembly_def example_locale example_midday example_context del: partition_context.simps)
      (simp add: example_gathered_def)
qed

text \<open>The score of the example's one fact; its value plays no part.\<close>

definition example_scored :: scored_fact where
  "example_scored = score_fact date_parse example_fact
     \<lparr>so_domain = None, so_has_object = True, so_seen_recently = False, so_at = Some example_midpoint\<rparr>"

lemma example_scored_fact: "sf_fact example_scored = example_fact"
  by (simp add: example_scored_def score_fact_def Let_def)

lemma example_found:
  "find_cycle_object (rb_cycles example_objects) example_fact = Some (hd (rb_cycles example_objects))"
  "find_phase_object (rb_phases example_objects) (hd (rb_cycles example_objects)) Reconsidering =
   Some (hd (rb_phases example_objects))"
  by (simp_all add: find_cycle_object_def find_phase_object_def example_objects_def example_fact_def)

lemma example_ranked:
  assumes "st_locale start = ''en''" and "st_midpoint start = example_midpoint"
    and "st_gathered start = example_gathered" and "st_objects start = approved_objects_of example_input ''en''"
  shows "rank_candidates date_parse example_input start = Inr ([example_scored], [])"
proof -
  have "fc_phase example_fact = Some Reconsidering" "ai_domain example_input = None"
    "co_eligibility (hd (rb_cycles example_objects)) = None"
    by (simp_all add: example_fact_def example_input_def example_objects_def)
  then show ?thesis
    by (simp add: rank_candidates_def assms example_gathered_def rank_fact_def example_approved example_found
      eligibility_rejection_def example_scored_def)
qed

lemma example_timing:
  "timing_step date_parse example_input ''en'' (approved_objects_of example_input ''en'')
     (ga_active example_gathered) example_fact Reconsidering =
   Inr ([celestial_para ''timing'' ''reconsidering until 2026-03-22''
     [fact_ref_of example_fact ''fp''] [content_ref_of (hd (rb_timing_templates example_objects)) example_input] []], [])"
proof -
  let ?t = "hd (rb_timing_templates example_objects)"
  have filled: "fill_placeholders ''tt1'' [''phase'', ''end_date''] [(''start_date'', a), (''exact_date'', b),
      (''end_date'', ''2026-03-22''), (''orb'', c), (''phase'', ''reconsidering'')] ''{phase} until {end_date}'' =
    Inr ''reconsidering until 2026-03-22''" for a b c
    by (simp add: fill_placeholders.simps(2) name_char_def less_eq_char_def)
  have dates: "iso_date date_parse (cy_start_at example_cycle) = Inr ''2026-01-01''"
    "iso_date date_parse (first_exact_at example_cycle) = Inr ''2026-01-21''"
    "iso_date date_parse (cy_end_at example_cycle) = Inr ''2026-03-22''"
    by (simp_all add: iso_date_def example_cycle_def first_exact_at_def example_instants example_iso)
  have "ob_id ?t = ''tt1''" "tt_placeholders ?t = [''phase'', ''end_date'']" "tt_text ?t = ''{phase} until {end_date}''"
    by (simp_all add: example_objects_def)
  then have rendered: "render_timing_template date_parse ?t example_cycle ''reconsidering'' =
      Inr ''reconsidering until 2026-03-22''"
    by (simp add: render_timing_template_def dates filled)
  have "List.find tt_is_default (rb_timing_templates example_objects) = Some ?t"
    "js_map_get (ga_active example_gathered) (fc_id example_fact) = Some example_cycle"
    "ci_fingerprint (ai_chart example_input) = ''fp''"
    by (simp_all add: example_objects_def example_gathered_def example_fact_def js_map_get_def
      example_input_def example_chart_def)
  then show ?thesis
    by (simp add: timing_step_def example_approved rendered)
qed

lemma example_chapter:
  "\<exists>ch. assemble_chapter date_parse example_input ''en'' (approved_objects_of example_input ''en'') ctx
     (ga_active example_gathered) [example_signal] example_scored None = Inr ch \<and>
     map pa_text (ch_paras ch) = [''s'', ''c'', ''reconsidering until 2026-03-22'', ''n'', ''l''] \<and>
     pa_facts (ch_paras ch ! 0) \<noteq> [] \<and> pa_context (ch_paras ch ! 4) \<noteq> []"
proof -
  have "theme_object (approved_objects_of example_input ''en'') example_scored =
      Inr (Reconsidering, hd (rb_phases example_objects))"
  proof -
    have "fc_phase example_fact = Some Reconsidering" by (simp add: example_fact_def)
    then show ?thesis
      by (simp add: theme_object_def example_scored_fact example_approved example_found)
  qed
  moreover obtain prows where
    "prompt_step example_input ''en'' (approved_objects_of example_input ''en'') ctx example_fact = ([], prows)"
    by (simp add: prompt_step_def select_prompt_def example_approved choose_prompt_def)
  moreover obtain m rows where "notice_step example_input ''en'' (approved_objects_of example_input ''en'') =
      ([m], rows)" "pa_text m = ''n''"
    by (simp add: notice_step_def example_approved) (simp add: example_input_def example_chart_def example_objects_def)
  moreover obtain x where "label_step example_input (approved_objects_of example_input ''en'') [example_signal] = [x]"
    "pa_text x = ''l''" "pa_context x \<noteq> []"
    by (simp add: label_step_def example_approved) (simp add: example_objects_def)
  ultimately show ?thesis
    by (simp add: assemble_chapter_def supporting_object_def example_scored_fact example_timing
      chapter_paras_def theme_para_def celestial_para_def Let_def)
      (simp add: example_objects_def)
qed

end
