(* ===== verification/Assembly_Correct.thy ===== *)
theory Assembly_Correct
  imports Assembly_Example
begin

text \<open>
  What the assembly of \<open>Assembly\<close> guarantees: no assertion of the code fails, every paragraph
  is reviewed text of an approved object over an active and unsuppressed cycle, and the outcome
  does not depend on the order of the cycles.
\<close>

section \<open>Gathering and ranking\<close>

lemma rank_fact_kept:
  assumes "rank_fact dp input locale midpoint obs ctx f = Inr (Inr s)"
  shows "sf_fact s = f \<and> (\<exists>phase p. theme_object obs s = Inr (phase, p) \<and> fc_phase f = Some phase \<and>
    p \<in> set (ap_phases obs))"
  using assms
  by (auto simp: rank_fact_def score_fact_def theme_object_def Let_def find_phase_object_def
    split: option.splits if_splits dest: find_SomeD)

lemma rank_fact_Inl:
  "fc_phase f \<noteq> None \<Longrightarrow> rank_fact dp input locale midpoint obs ctx f \<noteq> Inl e"
  by (auto simp: rank_fact_def split: option.splits)

lemma sort_out_kept:
  "sort_out xs = Inr (kept, rows) \<Longrightarrow> s \<in> set kept \<Longrightarrow> Inr (Inr s) \<in> set xs"
proof (induction xs arbitrary: kept rows)
  case (Cons x xs)
  from Cons.prems(1) obtain r k where "x = Inr r" "sort_out xs = Inr k"
    by (auto simp: and_then_Inr)
  with Cons show ?case by (cases k; cases r) auto
qed simp

lemma sort_out_Inl: "sort_out xs = Inl e \<Longrightarrow> Inl e \<in> set xs"
  by (induction xs) (auto simp: and_then_Inl split: prod.splits)

text \<open>Where a fact of the candidate set comes from.\<close>

definition active_fact ::
  "(string \<Rightarrow> int option) \<Rightarrow> string \<Rightarrow> string list \<Rightarrow> normalized_cycle list \<Rightarrow> fact \<Rightarrow> bool" where
  "active_fact dp midpoint suppressed cycles f =
     (\<exists>c \<in> set cycles. project_cycle dp c midpoint = Inr f \<and> fc_phase f \<noteq> None \<and>
       fact_suppression_reason f suppressed = None)"

lemma classify_cycle_kept:
  "classify_cycle dp midpoint suppressed c = Inr (Inr f) \<Longrightarrow>
   project_cycle dp c midpoint = Inr f \<and> fc_phase f \<noteq> None \<and> fact_suppression_reason f suppressed = None"
  by (auto simp: classify_cycle_def and_then_Inr split: if_splits option.splits)

lemma project_cycle_id: "project_cycle dp c midpoint = Inr f \<Longrightarrow> fc_id f = cy_id c"
  by (auto simp: project_cycle_def and_then_Inr)

lemma gather_facts_kept:
  assumes "gather_facts dp midpoint suppressed cs = Inr g" and "f \<in> set (ga_facts g)"
  shows "active_fact dp midpoint suppressed cs f \<and> fc_id f \<in> fst ` set (ga_active g)"
  using assms
proof (induction cs arbitrary: g)
  case (Cons c cs)
  from Cons.prems(1) obtain r h where r: "classify_cycle dp midpoint suppressed c = Inr r"
    and h: "gather_facts dp midpoint suppressed cs = Inr h"
    and g: "g = (case r of Inl row \<Rightarrow> h\<lparr>ga_rejections := row # ga_rejections h\<rparr>
      | Inr f \<Rightarrow> h\<lparr>ga_facts := f # ga_facts h, ga_active := (cy_id c, c) # ga_active h\<rparr>)"
    by (auto simp: and_then_Inr)
  show ?case
  proof (cases "f \<in> set (ga_facts h)")
    case True
    then show ?thesis
      using Cons.IH [OF h] g by (cases r) (auto simp: active_fact_def)
  next
    case False
    then have "r = Inr f" using g Cons.prems(2) by (cases r) auto
    then show ?thesis
      using classify_cycle_kept [of dp midpoint suppressed c f] r g project_cycle_id [of dp c midpoint f]
      by (auto simp: active_fact_def)
  qed
qed simp

lemma gather_facts_Inl:
  "gather_facts dp midpoint suppressed cs = Inl e \<Longrightarrow> \<exists>c. compute_phase dp c midpoint = Inl e"
  by (induction cs) (auto simp: and_then_Inl classify_cycle_def project_cycle_def)

lemma map_throw_Inl: "map_throw f xs = Inl e \<Longrightarrow> \<exists>x. f x = Inl e"
  by (induction xs) (auto simp: and_then_Inl)

lemma instant_not_null: "instant dp v label \<noteq> Inl NullDereference"
  by (simp add: instant_def split: option.splits)

lemma compute_phase_not_null: "compute_phase dp c now \<noteq> Inl NullDereference"
  using instant_not_null
  by (auto simp: compute_phase_def is_active_at_def and_then_Inl Let_def split: if_splits dest!: map_throw_Inl)

lemma midpoint_not_null: "local_day_midpoint dp a b \<noteq> Inl NullDereference"
  by (simp add: local_day_midpoint_def split: option.splits)

lemma identity_not_null: "build_assembly_identity input facts cx \<noteq> Inl NullDereference"
  by (simp add: build_assembly_identity_def Let_def)

lemma identity_text_not_null: "identity_text i \<noteq> Inl NullDereference"
  by (simp add: identity_text_def split: sum.splits)

lemma locale_not_null: "resolve_locale input \<noteq> Inl NullDereference"
  by (simp add: resolve_locale_def Let_def)

lemma fallback_not_null: "fallback_outcome input start rows reason checks \<noteq> Inl NullDereference"
  by (simp add: fallback_outcome_def Let_def split: list.splits)

lemma fill_not_null: "fill_placeholders tid declared vals cs \<noteq> Inl NullDereference"
proof (induction tid declared vals cs rule: fill_placeholders.induct)
  case (2 tid declared vals c cs)
  then show ?case
    by (auto simp: fill_placeholders.simps(2) [of tid declared vals c cs] Let_def and_then_Inl split: option.splits if_splits)
qed simp

lemma render_not_null: "render_timing_template dp t c phase \<noteq> Inl NullDereference"
  using fill_not_null
  by (auto simp: render_timing_template_def and_then_Inl iso_date_def split: option.splits)

section \<open>The paragraphs\<close>

text \<open>The content references an approved object of the resolved locale can give.\<close>

definition approved_refs :: "assembly_input \<Rightarrow> approved_objects \<Rightarrow> content_ref set" where
  "approved_refs input obs =
     (\<lambda>ob. content_ref_of ob input) ` set (ap_phases obs) \<union> (\<lambda>ob. content_ref_of ob input) ` set (ap_prompts obs) \<union>
     (\<lambda>ob. content_ref_of ob input) ` set (ap_modifiers obs) \<union> (\<lambda>ob. content_ref_of ob input) ` set (ap_timing obs) \<union>
     (\<lambda>ob. content_ref_of ob input) ` set (ap_fallbacks obs)"

text \<open>The reviewed texts of the approved objects.\<close>

definition approved_texts :: "approved_objects \<Rightarrow> string set" where
  "approved_texts obs =
     ph_summary ` set (ap_phases obs) \<union> ph_constructive ` set (ap_phases obs) \<union> pm_text ` set (ap_prompts obs) \<union>
     mo_body ` set (ap_modifiers obs) \<union> fb_body ` set (ap_fallbacks obs)"

definition sound_para ::
  "assembly_input \<Rightarrow> approved_objects \<Rightarrow> fact list \<Rightarrow> context_signal list \<Rightarrow> para \<Rightarrow> bool" where
  "sound_para input obs facts eligible p =
     ((\<exists>c \<in> approved_refs input obs. pa_content p = [c]) \<and>
      (pa_role p \<noteq> ''timing'' \<longrightarrow> pa_text p \<in> approved_texts obs) \<and>
      (pa_role p = ''timing'' \<longrightarrow> pa_facts p \<noteq> [] \<and> (\<exists>t \<in> set (ap_timing obs). pa_content p = [content_ref_of t input])) \<and>
      set (pa_facts p) \<subseteq> (\<lambda>f. fact_ref_of f (ci_fingerprint (ai_chart input))) ` set facts \<and>
      (pa_lane p = ''celestial_facts'' \<longrightarrow> pa_context p = []) \<and>
      set (pa_context p) \<subseteq> context_ref_of ` set eligible)"

lemma theme_para_sound:
  assumes "sf_fact s \<in> set facts" and "p \<in> set (ap_phases obs)" and "role \<noteq> ''timing''"
  shows "sound_para input obs facts eligible (theme_para input role s p)"
  using assms
  by (auto simp: sound_para_def theme_para_def celestial_para_def approved_refs_def approved_texts_def)

lemma phase_context_sound:
  assumes "f \<in> set facts" and "p \<in> set (ap_phases obs)"
  shows "sound_para input obs facts eligible (celestial_para ''phase_context'' (ph_constructive p)
    [fact_ref_of f (ci_fingerprint (ai_chart input))] [content_ref_of p input] [])"
  using assms
  by (auto simp: sound_para_def celestial_para_def approved_refs_def approved_texts_def)

definition timing_choice :: "timing_template list \<Rightarrow> timing_template option" where
  "timing_choice ts =
     (case List.find tt_is_default ts of
        Some t \<Rightarrow> Some t | None \<Rightarrow> (case ts of [] \<Rightarrow> None | t # _ \<Rightarrow> Some t))"

lemma timing_choice_in: "timing_choice ts = Some t \<Longrightarrow> t \<in> set ts"
  by (auto simp: timing_choice_def split: option.splits list.splits dest: find_SomeD)

lemma timing_step_sound:
  assumes "timing_step dp input locale obs active f phase = Inr (ps, rows)" and "f \<in> set facts" and "p \<in> set ps"
  shows "sound_para input obs facts eligible p"
proof -
  from assms(1,3) obtain t body where "timing_choice (ap_timing obs) = Some t"
    and p: "p = celestial_para ''timing'' body [fact_ref_of f (ci_fingerprint (ai_chart input))] [content_ref_of t input] []"
    by (auto simp: timing_step_def and_then_Inr simp flip: timing_choice_def split: option.splits)
  from timing_choice_in [OF this(1)] show ?thesis
    using assms(2) by (auto simp: p sound_para_def celestial_para_def approved_refs_def)
qed

lemma timing_step_not_null:
  assumes "js_map_get active (fc_id f) \<noteq> None"
  shows "timing_step dp input locale obs active f phase \<noteq> Inl NullDereference"
  using assms render_not_null
  by (auto simp: timing_step_def and_then_Inl split: option.splits)

lemma eligible_prompts_subset: "set (fst (eligible_prompts ps ctx)) \<subseteq> set ps"
  by (induction ps) (auto split: prod.splits option.splits)

lemma choose_prompt_in: "choose_prompt d ps = Some p \<Longrightarrow> p \<in> set ps"
  by (auto simp: choose_prompt_def split: if_splits option.splits dest!: find_SomeD find_SomeD [OF sym])

lemma prompt_step_sound:
  assumes "p \<in> set (fst (prompt_step input locale obs ctx f))" and "f \<in> set facts"
  shows "sound_para input obs facts eligible p"
proof -
  from assms(1) obtain pm where "choose_prompt (ai_domain input) (fst (eligible_prompts (ap_prompts obs) ctx)) = Some pm"
    and p: "p = celestial_para ''reflection'' (pm_text pm) [fact_ref_of f (ci_fingerprint (ai_chart input))] [content_ref_of pm input] []"
    by (auto simp: prompt_step_def select_prompt_def split: prod.splits option.splits)
  then have "pm \<in> set (ap_prompts obs)"
    using choose_prompt_in eligible_prompts_subset by blast
  then show ?thesis
    using assms(2) by (auto simp: p sound_para_def celestial_para_def approved_refs_def approved_texts_def)
qed

lemma notice_step_sound:
  assumes "p \<in> set (fst (notice_step input locale obs))"
  shows "sound_para input obs facts eligible p"
  using assms
  by (auto simp: notice_step_def Let_def sound_para_def approved_refs_def approved_texts_def
    split: if_splits option.splits dest!: find_SomeD find_SomeD [OF sym])

lemma label_step_sound:
  assumes "p \<in> set (label_step input obs eligible)"
  shows "sound_para input obs facts eligible p"
  using assms
  by (auto simp: label_step_def sound_para_def approved_refs_def approved_texts_def
    split: if_splits option.splits dest!: find_SomeD find_SomeD [OF sym])

text \<open>A theme the ranking kept: its reviewed objects are found again.\<close>

definition themed :: "approved_objects \<Rightarrow> fact list \<Rightarrow> scored_fact \<Rightarrow> bool" where
  "themed obs facts s =
     (sf_fact s \<in> set facts \<and> (\<exists>phase p. theme_object obs s = Inr (phase, p) \<and> p \<in> set (ap_phases obs)))"

lemma assemble_chapter_not_null:
  assumes "themed obs facts primary" and "\<And>s. supporting = Some s \<Longrightarrow> themed obs facts s"
    and "js_map_get active (fc_id (sf_fact primary)) \<noteq> None"
  shows "assemble_chapter dp input locale obs ctx active eligible primary supporting \<noteq> Inl NullDereference"
proof -
  obtain phase p where p: "theme_object obs primary = Inr (phase, p)"
    using assms(1) by (auto simp: themed_def)
  obtain support where s: "supporting_object obs supporting = Inr support"
    using assms(2) by (cases supporting) (auto simp: supporting_object_def themed_def)
  show ?thesis
    using timing_step_not_null [OF assms(3), of dp input "locale" obs phase]
    by (auto simp: assemble_chapter_def p s and_then_Inl Let_def split: prod.splits)
qed

lemma assemble_chapter_Inr:
  assumes "assemble_chapter dp input locale obs ctx active eligible primary supporting = Inr ch"
  obtains phase p support timing rows where "theme_object obs primary = Inr (phase, p)"
    and "supporting_object obs supporting = Inr support"
    and "timing_step dp input locale obs active (sf_fact primary) phase = Inr (timing, rows)"
    and "ch_paras ch = chapter_paras input primary p support
      (timing @ fst (prompt_step input locale obs ctx (sf_fact primary)) @
       fst (notice_step input locale obs) @ label_step input obs eligible)"
  using assms by (auto simp: assemble_chapter_def and_then_Inr Let_def case_prod_unfold)

lemma chapter_paras_sound:
  assumes "sf_fact primary \<in> set facts" and "p \<in> set (ap_phases obs)"
    and "\<And>x ph q. support = Some (x, ph, q) \<Longrightarrow> sf_fact x \<in> set facts \<and> q \<in> set (ap_phases obs)"
    and "list_all (sound_para input obs facts eligible) others"
  shows "list_all (sound_para input obs facts eligible) (chapter_paras input primary p support others)"
  using assms
  by (auto simp: chapter_paras_def theme_para_sound phase_context_sound split: option.splits)

lemma assemble_chapter_sound:
  assumes "themed obs facts primary" and "\<And>s. supporting = Some s \<Longrightarrow> themed obs facts s"
    and "assemble_chapter dp input locale obs ctx active eligible primary supporting = Inr ch"
  shows "list_all (sound_para input obs facts eligible) (ch_paras ch)"
proof (rule assemble_chapter_Inr [OF assms(3)])
  fix phase p support timing rows
  assume p: "theme_object obs primary = Inr (phase, p)" and s: "supporting_object obs supporting = Inr support"
    and tm: "timing_step dp input locale obs active (sf_fact primary) phase = Inr (timing, rows)"
    and ch: "ch_paras ch = chapter_paras input primary p support
      (timing @ fst (prompt_step input locale obs ctx (sf_fact primary)) @
       fst (notice_step input locale obs) @ label_step input obs eligible)"
  have f: "sf_fact primary \<in> set facts" "p \<in> set (ap_phases obs)"
    using assms(1) p by (auto simp: themed_def)
  have "sf_fact x \<in> set facts \<and> q \<in> set (ap_phases obs)" if "support = Some (x, ph, q)" for x ph q
    using assms(2) s that by (cases supporting) (auto simp: supporting_object_def themed_def)
  then show ?thesis
    unfolding ch using timing_step_sound [OF tm f(1)] prompt_step_sound [OF _ f(1)]
    by (intro chapter_paras_sound f) (auto simp: list_all_iff notice_step_sound label_step_sound)
qed

section \<open>Numbering\<close>

definition paragraph_of :: "string \<Rightarrow> nat \<Rightarrow> para \<Rightarrow> reading_paragraph" where
  "paragraph_of rid i p =
     \<lparr>rp_id = rid @ ''.p'' @ nat_str (i + 1), rp_role = pa_role p, rp_order = i + 1, rp_text = pa_text p\<rparr>"

definition evidence_row :: "string \<Rightarrow> nat \<Rightarrow> para \<Rightarrow> paragraph_evidence" where
  "evidence_row rid i p =
     \<lparr>pe_id = rid @ ''.p'' @ nat_str (i + 1), pe_role = pa_role p, pe_order = i + 1, pe_lane = pa_lane p,
      pe_text_hash = None, pe_facts = pa_facts p, pe_content = pa_content p, pe_context = pa_context p,
      pe_ranking = pa_ranking p\<rparr>"

lemma mapi_snoc: "mapi f (xs @ [x]) = mapi f xs @ [f (length xs) x]"
  by (simp add: mapi_def enumerate_append_eq)

lemma pushed:
  "foldl (push rid) \<lparr>bu_paragraphs = [], bu_evidence = []\<rparr> ps =
   \<lparr>bu_paragraphs = mapi (paragraph_of rid) ps, bu_evidence = mapi (evidence_row rid) ps\<rparr>"
  by (induction ps rule: rev_induct)
    (simp_all add: mapi_snoc push_def paragraph_of_def evidence_row_def Let_def, simp add: mapi_def)

section \<open>The steps of a run\<close>

lemma tl_dropWhile_in: "x \<in> set (tl (dropWhile P xs)) \<Longrightarrow> x \<in> set xs"
  by (induction xs) (auto split: if_splits)

lemma select_supporting_in:
  assumes "select_supporting f rest = (supporting, others)"
  shows "supporting = Some s \<Longrightarrow> s \<in> set rest \<and> is_distinct_supporting f (sf_fact s)"
    and "set others \<subseteq> set rest"
  using assms
  by (auto simp: select_supporting_def Let_def dest: find_SomeD set_takeWhileD tl_dropWhile_in)

text \<open>What the first steps have established when the ranking starts.\<close>

definition started :: "(string \<Rightarrow> int option) \<Rightarrow> assembly_input \<Rightarrow> assembly_start \<Rightarrow> bool" where
  "started dp input start =
     (resolve_locale input = Inr (st_locale start) \<and>
      local_day_midpoint dp (ai_day_start_at input) (ai_day_end_at input) = Inr (st_midpoint start) \<and>
      gather_facts dp (st_midpoint start) (suppressed_classes input) (js_sort compare_cycles (ai_cycles input)) =
        Inr (st_gathered start) \<and>
      st_eligible start = filter consented (ai_context input) \<and>
      st_objects start = approved_objects_of input (st_locale start))"

lemma begin_assembly_Inr: "begin_assembly dp input = Inr start \<Longrightarrow> started dp input start"
  by (cases "partition_context (ai_context input)")
    (auto simp: begin_assembly_def and_then_Inr started_def simp flip: partition_context_eligible)

lemma begin_assembly_not_null: "begin_assembly dp input \<noteq> Inl NullDereference"
proof
  assume "begin_assembly dp input = Inl NullDereference"
  then show False
    using locale_not_null midpoint_not_null identity_not_null identity_text_not_null
      compute_phase_not_null
    by (auto simp: begin_assembly_def and_then_Inl dest!: gather_facts_Inl split: prod.split_asm)
qed

lemma started_active:
  assumes "started dp input start" and "f \<in> set (ga_facts (st_gathered start))"
  shows "active_fact dp (st_midpoint start) (suppressed_classes input) (ai_cycles input) f"
    and "js_map_get (ga_active (st_gathered start)) (fc_id f) \<noteq> None" and "fc_phase f \<noteq> None"
proof -
  have "active_fact dp (st_midpoint start) (suppressed_classes input) (js_sort compare_cycles (ai_cycles input)) f \<and>
    fc_id f \<in> fst ` set (ga_active (st_gathered start))"
    using assms gather_facts_kept unfolding started_def by blast
  then show "active_fact dp (st_midpoint start) (suppressed_classes input) (ai_cycles input) f"
    and "js_map_get (ga_active (st_gathered start)) (fc_id f) \<noteq> None" and "fc_phase f \<noteq> None"
    by (auto simp: active_fact_def js_map_get_None)
qed

lemma rank_candidates_not_null:
  assumes "started dp input start"
  shows "rank_candidates dp input start \<noteq> Inl NullDereference"
proof
  assume "rank_candidates dp input start = Inl NullDereference"
  from sort_out_Inl [OF this [unfolded rank_candidates_def]] obtain f where "f \<in> set (ga_facts (st_gathered start))"
    and "rank_fact dp input (st_locale start) (st_midpoint start) (st_objects start)
      (eligibility_ctx input start) f = Inl NullDereference"
    by auto
  with started_active(3) [OF assms] rank_fact_Inl show False by blast
qed

lemma rank_candidates_themed:
  assumes "rank_candidates dp input start = Inr (kept, rows)" and "s \<in> set kept"
  shows "themed (st_objects start) (ga_facts (st_gathered start)) s"
proof -
  from sort_out_kept [OF assms(1) [unfolded rank_candidates_def] assms(2)] obtain f where
    "f \<in> set (ga_facts (st_gathered start))" and "rank_fact dp input (st_locale start) (st_midpoint start)
       (st_objects start) (eligibility_ctx input start) f = Inr (Inr s)"
    by auto
  then show ?thesis
    using rank_fact_kept by (fastforce simp: themed_def)
qed

text \<open>The chapter of a published run.\<close>

lemma publish_themes_not_null:
  assumes "started dp input start"
    and themed: "\<And>s. s \<in> set (primary # rest) \<Longrightarrow> themed (st_objects start) (ga_facts (st_gathered start)) s"
  shows "publish_themes dp input start rejections primary rest \<noteq> Inl NullDereference"
proof -
  obtain supporting others where s: "select_supporting (sf_fact primary) rest = (supporting, others)"
    by fastforce
  have "js_map_get (ga_active (st_gathered start)) (fc_id (sf_fact primary)) \<noteq> None"
    using started_active(2) [OF assms(1)] themed [of primary] by (simp add: themed_def)
  from assemble_chapter_not_null [OF themed _ this, of supporting] select_supporting_in(1) [OF s]
  show ?thesis
    using themed fallback_not_null by (auto simp: publish_themes_def s and_then_Inl Let_def)
qed

text \<open>What an outcome shows: its numbered paragraphs, from sound ones, and its validation.\<close>

definition outcome_of_paras :: "assembly_input \<Rightarrow> assembly_start \<Rightarrow> assembly_outcome \<Rightarrow> para list \<Rightarrow> bool" where
  "outcome_of_paras input start out ps =
     (ps \<noteq> [] \<and>
      list_all (sound_para input (st_objects start) (ga_facts (st_gathered start)) (st_eligible start)) ps \<and>
      dr_paragraphs (ao_reading out) = mapi (paragraph_of (ai_reading_id input)) ps \<and>
      re_paragraphs (ao_evidence out) = mapi (evidence_row (ai_reading_id input)) ps \<and>
      dr_locale (ao_reading out) = st_locale start \<and>
      ao_identity out = st_identity start \<and> ao_canonical out = st_canonical start)"

lemma fallback_paras:
  assumes "fallback_outcome input start rows reason checks = Inr out"
  shows "\<exists>ps. outcome_of_paras input start out ps"
proof -
  from assms obtain fb fs where fb: "ap_fallbacks (st_objects start) = fb # fs"
    by (auto simp: fallback_outcome_def split: list.split_asm)
  let ?p = "\<lparr>pa_role = ''safety_fallback'', pa_text = fb_body fb, pa_lane = ''operational'', pa_facts = [],
    pa_content = [content_ref_of fb input], pa_context = [], pa_ranking = []\<rparr>"
  have one: "nat_str (Suc 0) = ''1''" by code_simp
  have "sound_para input (st_objects start) (ga_facts (st_gathered start)) (st_eligible start) ?p"
    using fb by (simp add: sound_para_def approved_refs_def approved_texts_def)
  moreover have "paragraph_of (ai_reading_id input) 0 ?p =
      \<lparr>rp_id = ai_reading_id input @ ''.p1'', rp_role = ''safety_fallback'', rp_order = 1, rp_text = fb_body fb\<rparr>"
    by (simp add: paragraph_of_def one)
  moreover have "evidence_row (ai_reading_id input) 0 ?p =
      \<lparr>pe_id = ai_reading_id input @ ''.p1'', pe_role = ''safety_fallback'', pe_order = 1, pe_lane = ''operational'',
       pe_text_hash = None, pe_facts = [], pe_content = [content_ref_of fb input], pe_context = [], pe_ranking = []\<rparr>"
    by (simp add: evidence_row_def one)
  ultimately have "outcome_of_paras input start out [?p]"
    using assms
    by (simp add: fallback_outcome_def fb outcome_of_paras_def Let_def reading_of_def evidence_of_def mapi_def)
      (elim subst, simp)
  then show ?thesis ..
qed

text \<open>Sound paragraphs pass every check.\<close>

definition timing_typed :: "assembly_input \<Rightarrow> bool" where
  "timing_typed input =
     (\<forall>t \<in> set (rb_timing_templates (vb_objects (ai_release input))). ob_content_type t = ''timing_template'')"

lemma set_approved: "set (approved obs loc) = {ob \<in> set obs. is_approved loc ob}"
  by (auto simp: approved_def)

lemma set_mapi_subset: "x \<in> set (mapi f ps) \<Longrightarrow> \<exists>i. \<exists>p \<in> set ps. x = f i p"
  unfolding set_mapi using nth_mem by blast

lemma sound_row_checks:
  assumes "sound_para input (approved_objects_of input loc) facts eligible p" and "timing_typed input"
    and "e = evidence_row rid i p"
  shows "\<not> unprovenanced e" and "\<not> bad_timing e" and "\<not> laundered e" and "fr_id ` set (pe_facts e) \<subseteq> fc_id ` set facts"
proof -
  have "cr_content_type (content_ref_of t input) = ''timing_template''"
    if "t \<in> set (ap_timing (approved_objects_of input loc))" for t
    using that assms(2)
    by (simp add: approved_objects_of_def Let_def set_approved timing_typed_def content_ref_of_def)
  then show "\<not> bad_timing e"
    using assms(1,3) by (auto simp: sound_para_def bad_timing_def evidence_row_def)
  show "\<not> unprovenanced e" "\<not> laundered e"
    using assms(1,3) by (auto simp: sound_para_def unprovenanced_def laundered_def evidence_row_def)
  show "fr_id ` set (pe_facts e) \<subseteq> fc_id ` set facts"
    using assms(1,3) by (fastforce simp: sound_para_def evidence_row_def fact_ref_of_def)
qed

lemma sound_evidence_valid:
  assumes "list_all (sound_para input (approved_objects_of input loc) facts eligible) ps" and "timing_typed input"
    and "\<And>s. supporting = Some s \<Longrightarrow> is_distinct_supporting primary s"
  shows "\<not> list_ex (\<lambda>c. vc_result c = ''fail'') (run_validation (mapi (evidence_row rid) ps) facts primary supporting)"
proof -
  let ?es = "mapi (evidence_row rid) ps"
  have row: "\<not> unprovenanced e \<and> \<not> bad_timing e \<and> \<not> laundered e \<and> fr_id ` set (pe_facts e) \<subseteq> fc_id ` set facts"
    if "e \<in> set ?es" for e
    using set_mapi_subset [OF that] sound_row_checks [OF _ assms(2)] assms(1) by (metis list_all_iff)
  have "List.find unprovenanced ?es = None" "List.find bad_timing ?es = None" "List.find laundered ?es = None"
    using row by (auto simp: find_None_iff)
  moreover have "List.find (\<lambda>f. fr_id f \<notin> set (map fc_id facts)) (concat (map pe_facts ?es)) = None"
  proof -
    have "fr_id f \<in> fc_id ` set facts" if "e \<in> set ?es" "f \<in> set (pe_facts e)" for e f
      using row [OF that(1)] that(2) by blast
    then show ?thesis by (auto simp: find_None_iff)
  qed
  moreover have "\<not> (case supporting of None \<Rightarrow> False | Some s \<Rightarrow> \<not> is_distinct_supporting primary s)"
    using assms(3) by (cases supporting) auto
  ultimately show ?thesis
    by (simp add: run_validation_def Let_def check_unless_def pass_check_def check_row_def)
qed

lemma publish_themes_Inr:
  assumes "started dp input start"
    and themed: "\<And>s. s \<in> set (primary # rest) \<Longrightarrow> themed (st_objects start) (ga_facts (st_gathered start)) s"
    and "publish_themes dp input start rejections primary rest = Inr out"
  shows "\<exists>ps. outcome_of_paras input start out ps"
    and "timing_typed input \<Longrightarrow> \<not> dr_fallback_used (ao_reading out) \<and>
      length (va_checks (re_validation (ao_evidence out))) = 11 \<and>
      \<not> list_ex (\<lambda>c. vc_result c = ''fail'') (va_checks (re_validation (ao_evidence out)))"
proof -
  obtain supporting others where s: "select_supporting (sf_fact primary) rest = (supporting, others)"
    by fastforce
  obtain ch where ch: "assemble_chapter dp input (st_locale start) (st_objects start) (eligibility_ctx input start)
      (ga_active (st_gathered start)) (st_eligible start) primary supporting = Inr ch"
    using assms(3) by (auto simp: publish_themes_def s and_then_Inr)
  have sound: "list_all (sound_para input (st_objects start) (ga_facts (st_gathered start)) (st_eligible start)) (ch_paras ch)"
  proof (rule assemble_chapter_sound [OF _ _ ch])
    show "themed (st_objects start) (ga_facts (st_gathered start)) primary" by (rule themed) simp
    show "themed (st_objects start) (ga_facts (st_gathered start)) x" if "supporting = Some x" for x
      by (rule themed) (simp add: select_supporting_in(1) [OF s that])
  qed
  have nonempty: "ch_paras ch \<noteq> []"
    by (rule assemble_chapter_Inr [OF ch]) (simp only: chapter_paras_def list.distinct not_False_eq_True)
  let ?checks = "run_validation (mapi (evidence_row (ai_reading_id input)) (ch_paras ch)) (ga_facts (st_gathered start))
    (sf_fact primary) (map_option sf_fact supporting)"
  note out = assms(3) [unfolded publish_themes_def s prod.case ch and_then_simps Let_def pushed builder.simps]
  show "\<exists>ps. outcome_of_paras input start out ps"
  proof (cases "list_ex (\<lambda>c. vc_result c = ''fail'') ?checks")
    case True
    then show ?thesis using out fallback_paras by auto
  next
    case False
    then have "outcome_of_paras input start out (ch_paras ch)"
      using out nonempty sound by (auto simp: outcome_of_paras_def reading_of_def evidence_of_def)
    then show ?thesis ..
  qed
  assume typed: "timing_typed input"
  have "\<not> list_ex (\<lambda>c. vc_result c = ''fail'') ?checks"
  proof (rule sound_evidence_valid [OF _ typed])
    show "list_all (sound_para input (approved_objects_of input (st_locale start)) (ga_facts (st_gathered start))
        (st_eligible start)) (ch_paras ch)"
      using sound assms(1) by (simp add: started_def)
  qed (use select_supporting_in(1) [OF s] in auto)
  then show "\<not> dr_fallback_used (ao_reading out) \<and> length (va_checks (re_validation (ao_evidence out))) = 11 \<and>
      \<not> list_ex (\<lambda>c. vc_result c = ''fail'') (va_checks (re_validation (ao_evidence out)))"
    using out by (auto simp: reading_of_def evidence_of_def) (simp_all add: run_validation_def Let_def)
qed

lemma assemble_reading_Inr:
  assumes "assemble_reading dp input = Inr out"
  obtains start ps where "begin_assembly dp input = Inr start" and "started dp input start"
    and "outcome_of_paras input start out ps"
proof -
  from assms obtain start kept rows where b: "begin_assembly dp input = Inr start"
    and r: "rank_candidates dp input start = Inr (kept, rows)"
    and out: "(case js_sort compare_scored kept of
             [] \<Rightarrow> fallback_outcome input start (st_rejections start @ rows) ''no_eligible_theme'' []
           | primary # rest \<Rightarrow> publish_themes dp input start (st_rejections start @ rows) primary rest) = Inr out"
    by (auto simp: assemble_reading_def and_then_Inr Let_def)
  have started: "started dp input start" by (rule begin_assembly_Inr [OF b])
  have "\<exists>ps. outcome_of_paras input start out ps"
  proof (cases "js_sort compare_scored kept")
    case Nil
    then show ?thesis using out fallback_paras by simp
  next
    case (Cons primary rest)
    then have kept: "set (primary # rest) = set kept" by (metis set_js_sort)
    have "themed (st_objects start) (ga_facts (st_gathered start)) s" if "s \<in> set (primary # rest)" for s
      using that rank_candidates_themed [OF r] kept by blast
    from publish_themes_Inr(1) [OF started this] show ?thesis
      using out Cons by simp
  qed
  with b started that show thesis by blast
qed

section \<open>The example run\<close>

lemma example_assembled:
  obtains out where "assemble_reading date_parse example_input = Inr out"
    and "map rp_text (dr_paragraphs (ao_reading out)) = [''s'', ''c'', ''reconsidering until 2026-03-22'', ''n'', ''l'']"
    and "re_paragraphs (ao_evidence out) \<noteq> []" and "pe_facts (re_paragraphs (ao_evidence out) ! 0) \<noteq> []"
    and "length (re_paragraphs (ao_evidence out)) = 5" and "pe_context (re_paragraphs (ao_evidence out) ! 4) \<noteq> []"
proof -
  obtain i t where b: "begin_assembly date_parse example_input = Inr
     \<lparr>st_locale = ''en'', st_midpoint = example_midpoint, st_gathered = example_gathered, st_eligible = [example_signal],
      st_rejections = [], st_identity = i, st_canonical = t, st_objects = approved_objects_of example_input ''en''\<rparr>"
    (is "_ = Inr ?start") using example_begins by auto
  have r: "rank_candidates date_parse example_input ?start = Inr ([example_scored], [])"
    by (rule example_ranked) simp_all
  obtain ch where ch: "assemble_chapter date_parse example_input ''en'' (approved_objects_of example_input ''en'')
     (eligibility_ctx example_input ?start) (ga_active example_gathered) [example_signal] example_scored None = Inr ch"
    and texts: "map pa_text (ch_paras ch) = [''s'', ''c'', ''reconsidering until 2026-03-22'', ''n'', ''l'']"
    and facts: "pa_facts (ch_paras ch ! 0) \<noteq> []" and cx: "pa_context (ch_paras ch ! 4) \<noteq> []"
    using example_chapter [of "eligibility_ctx example_input ?start"] by (elim exE conjE)
  have typed: "timing_typed example_input"
    by (simp add: timing_typed_def example_input_def example_objects_def)
  have "themed (approved_objects_of example_input ''en'') (ga_facts example_gathered) example_scored"
    using rank_candidates_themed [OF r] by simp
  from assemble_chapter_sound [OF this _ ch] sound_evidence_valid [OF _ typed, of "''en''" _ _ "ch_paras ch" None]
  have valid: "\<not> list_ex (\<lambda>c. vc_result c = ''fail'') (run_validation (mapi (evidence_row (ai_reading_id example_input))
      (ch_paras ch)) (ga_facts example_gathered) (sf_fact example_scored) None)"
    by simp
  have "select_supporting (sf_fact example_scored) [] = (None, [])"
    by (simp add: select_supporting_def Let_def)
  then have "\<exists>out. assemble_reading date_parse example_input = Inr out \<and>
      dr_paragraphs (ao_reading out) = mapi (paragraph_of (ai_reading_id example_input)) (ch_paras ch) \<and>
      re_paragraphs (ao_evidence out) = mapi (evidence_row (ai_reading_id example_input)) (ch_paras ch)"
    using valid
    by (simp add: assemble_reading_def b r js_sort_def publish_themes_def ch Let_def pushed reading_of_def evidence_of_def)
  moreover have "ch_paras ch \<noteq> []" using texts by auto
  moreover have "length (map pa_text (ch_paras ch)) = 5" unfolding texts by simp
  ultimately show thesis
    using texts facts cx that by (auto simp: map_mapi paragraph_of_def mapi_const evidence_row_def)
qed

text \<open>Its evidence cites a fact, in the primary theme.\<close>

lemma example_cites:
  assumes "assemble_reading date_parse example_input = Inr out"
  obtains p r where "p \<in> set (re_paragraphs (ao_evidence out))" and "r \<in> set (pe_facts p)"
proof (rule example_assembled)
  fix out'
  assume "assemble_reading date_parse example_input = Inr out'" and "re_paragraphs (ao_evidence out') \<noteq> []"
    and "pe_facts (re_paragraphs (ao_evidence out') ! 0) \<noteq> []"
  then show thesis
    using assms that [of "re_paragraphs (ao_evidence out) ! 0" "hd (pe_facts (re_paragraphs (ao_evidence out) ! 0))"]
    by simp
qed

section \<open>What does not look at the cycles\<close>

text \<open>After the first sort no step reads the list of cycles.\<close>

abbreviation with_cycles :: "assembly_input \<Rightarrow> normalized_cycle list \<Rightarrow> assembly_input" where
  "with_cycles input ys \<equiv> input\<lparr>ai_cycles := ys\<rparr>"

lemma cycles_unread [simp]:
  "content_ref_of ob (with_cycles input ys) = content_ref_of ob input"
  "resolve_locale (with_cycles input ys) = resolve_locale input"
  "approved_objects_of (with_cycles input ys) loc = approved_objects_of input loc"
  "suppressed_classes (with_cycles input ys) = suppressed_classes input"
  "build_assembly_identity (with_cycles input ys) fs cx = build_assembly_identity input fs cx"
  "eligibility_ctx (with_cycles input ys) start = eligibility_ctx input start"
  "rank_fact dp (with_cycles input ys) loc m obs ctx = rank_fact dp input loc m obs ctx"
  "reading_of (with_cycles input ys) loc fb ps = reading_of input loc fb ps"
  "evidence_of (with_cycles input ys) a b fb es cs = evidence_of input a b fb es cs"
  by (simp_all add: content_ref_of_def resolve_locale_def approved_objects_of_def suppressed_classes_def
    build_assembly_identity_def eligibility_ctx_def rank_fact_def fun_eq_iff reading_of_def evidence_of_def
    cong: option.case_cong if_cong)

lemma cycles_unread_steps [simp]:
  "fallback_outcome (with_cycles input ys) start rows reason checks = fallback_outcome input start rows reason checks"
  "rank_candidates dp (with_cycles input ys) start = rank_candidates dp input start"
  "theme_para (with_cycles input ys) role s ob = theme_para input role s ob"
  "timing_step dp (with_cycles input ys) loc obs act f phase = timing_step dp input loc obs act f phase"
  "prompt_step (with_cycles input ys) loc obs ctx f = prompt_step input loc obs ctx f"
  "notice_step (with_cycles input ys) loc obs = notice_step input loc obs"
  "label_step (with_cycles input ys) obs eligible = label_step input obs eligible"
  by (simp_all add: fallback_outcome_def rank_candidates_def theme_para_def timing_step_def prompt_step_def
    select_prompt_def notice_step_def label_step_def cong: option.case_cong list.case_cong if_cong)

lemma cycles_unread_outcome [simp]:
  "chapter_paras (with_cycles input ys) primary ob support others = chapter_paras input primary ob support others"
  "assemble_chapter dp (with_cycles input ys) loc obs ctx act el p s = assemble_chapter dp input loc obs ctx act el p s"
  "publish_themes dp (with_cycles input ys) start rows primary rest = publish_themes dp input start rows primary rest"
  by (simp_all add: chapter_paras_def assemble_chapter_def publish_themes_def cong: if_cong option.case_cong)

section \<open>Properties\<close>

text \<open>
  C29: no non-null assertion of the assembly fails: the objects a kept theme was ranked with are found
  again, its phase is not null, and the cycle of the primary theme is in the map of active cycles.
\<close>
theorem assembly_never_dereferences_null:
  "assemble_reading dp input \<noteq> Inl NullDereference"
proof
  assume null: "assemble_reading dp input = Inl NullDereference"
  then obtain start where b: "begin_assembly dp input = Inr start"
    using begin_assembly_not_null by (auto simp: assemble_reading_def and_then_Inl)
  then have started: "started dp input start" by (rule begin_assembly_Inr)
  obtain kept rows where r: "rank_candidates dp input start = Inr (kept, rows)"
    and null: "(case js_sort compare_scored kept of
        [] \<Rightarrow> fallback_outcome input start (st_rejections start @ rows) ''no_eligible_theme'' []
      | primary # rest \<Rightarrow> publish_themes dp input start (st_rejections start @ rows) primary rest) = Inl NullDereference"
    using null rank_candidates_not_null [OF started] by (auto simp: assemble_reading_def b and_then_Inl Let_def)
  show False
  proof (cases "js_sort compare_scored kept")
    case Nil
    then show False using null fallback_not_null by simp
  next
    case (Cons primary rest)
    then have kept: "set (primary # rest) = set kept" by (metis set_js_sort)
    have "themed (st_objects start) (ga_facts (st_gathered start)) s" if "s \<in> set (primary # rest)" for s
      using that rank_candidates_themed [OF r] kept by blast
    from publish_themes_not_null [OF started this] show False
      using null Cons by simp
  qed
qed



text \<open>
  the validation of the chapter never finds a failure, so the prescribed fallback is published
  exactly when no theme survived eligibility: the timing templates only have to carry their own content type.
\<close>
theorem validation_never_rejects:
  assumes "timing_typed input" and "assemble_reading dp input = Inr out"
  shows "\<not> list_ex (\<lambda>c. vc_result c = ''fail'') (va_checks (re_validation (ao_evidence out))) \<and>
    (dr_fallback_used (ao_reading out) \<longleftrightarrow>
      va_checks (re_validation (ao_evidence out)) = [check_row ''other'' ''pass'' (Some ''no_eligible_theme'')])"
proof -
  from assms(2) obtain start kept rows where b: "begin_assembly dp input = Inr start"
    and r: "rank_candidates dp input start = Inr (kept, rows)"
    and out: "(case js_sort compare_scored kept of
        [] \<Rightarrow> fallback_outcome input start (st_rejections start @ rows) ''no_eligible_theme'' []
      | primary # rest \<Rightarrow> publish_themes dp input start (st_rejections start @ rows) primary rest) = Inr out"
    by (auto simp: assemble_reading_def and_then_Inr Let_def)
  show ?thesis
  proof (cases "js_sort compare_scored kept")
    case Nil
    then show ?thesis
      using out by (auto simp: fallback_outcome_def Let_def reading_of_def evidence_of_def check_row_def split: list.split_asm)
  next
    case (Cons primary rest)
    then have kept: "set (primary # rest) = set kept" by (metis set_js_sort)
    have "themed (st_objects start) (ga_facts (st_gathered start)) s" if "s \<in> set (primary # rest)" for s
      using that rank_candidates_themed [OF r] kept by blast
    moreover have "publish_themes dp input start (st_rejections start @ rows) primary rest = Inr out"
      using out Cons by simp
    ultimately have "\<not> dr_fallback_used (ao_reading out) \<and> length (va_checks (re_validation (ao_evidence out))) = 11 \<and>
      \<not> list_ex (\<lambda>c. vc_result c = ''fail'') (va_checks (re_validation (ao_evidence out)))"
      by (rule publish_themes_Inr(2) [OF begin_assembly_Inr [OF b] _ _ assms(1)])
    then show ?thesis by auto
  qed
qed

theorem validation_never_rejects_witness:
  "\<exists>out. assemble_reading date_parse example_input = Inr out \<and>
     \<not> list_ex (\<lambda>c. vc_result c = ''fail'') (va_checks (re_validation (ao_evidence out)))"
proof (rule example_assembled)
  fix out
  assume out: "assemble_reading date_parse example_input = Inr out"
  have "timing_typed example_input"
    by (simp add: timing_typed_def example_input_def example_objects_def)
  from validation_never_rejects [OF this out] out show ?thesis by blast
qed

text \<open>
  C17: every fact a paragraph cites is the projection of a cycle of the input that is active at the middle
  of the target day and that no suppressed feature class withholds.
\<close>
theorem cited_facts_are_active:
  assumes "assemble_reading dp input = Inr out"
    and "local_day_midpoint dp (ai_day_start_at input) (ai_day_end_at input) = Inr midpoint"
    and "p \<in> set (re_paragraphs (ao_evidence out))" and "r \<in> set (pe_facts p)"
  shows "\<exists>f. r = fact_ref_of f (ci_fingerprint (ai_chart input)) \<and>
    active_fact dp midpoint (suppressed_classes input) (ai_cycles input) f"
proof (rule assemble_reading_Inr [OF assms(1)])
  fix start ps
  assume started: "started dp input start" and out: "outcome_of_paras input start out ps"
  obtain i q where q: "q \<in> set ps" "p = evidence_row (ai_reading_id input) i q"
    using set_mapi_subset assms(3) out by (metis outcome_of_paras_def)
  then have "r \<in> (\<lambda>f. fact_ref_of f (ci_fingerprint (ai_chart input))) ` set (ga_facts (st_gathered start))"
    using assms(4) out by (auto simp: outcome_of_paras_def list_all_iff sound_para_def evidence_row_def)
  then show ?thesis
    using started_active(1) [OF started] started assms(2) by (auto simp: started_def)
qed

theorem cited_facts_are_active_witness:
  "\<exists>out p f. assemble_reading date_parse example_input = Inr out \<and> p \<in> set (re_paragraphs (ao_evidence out)) \<and>
     active_fact date_parse example_midpoint [] [example_cycle] f"
proof (rule example_assembled)
  fix out
  assume out: "assemble_reading date_parse example_input = Inr out"
    and texts: "map rp_text (dr_paragraphs (ao_reading out)) = [''s'', ''c'', ''reconsidering until 2026-03-22'', ''n'', ''l'']"
  obtain p r where "p \<in> set (re_paragraphs (ao_evidence out))" "r \<in> set (pe_facts p)"
    by (rule example_cites [OF out])
  from cited_facts_are_active [OF out example_midday this] out this show ?thesis
    by (auto simp: example_input_def example_chart_def suppressed_classes_def)
qed

text \<open>
  C30: a context signal reaches the evidence only when it is consented, fresh and allow-listed, and
  never in the lane of the celestial facts.
\<close>
theorem context_never_laundered:
  assumes "assemble_reading dp input = Inr out"
    and "p \<in> set (re_paragraphs (ao_evidence out))" and "x \<in> set (pe_context p)"
  shows "pe_lane p \<noteq> ''celestial_facts'' \<and> (\<exists>s \<in> set (ai_context input). consented s \<and> x = context_ref_of s)"
proof (rule assemble_reading_Inr [OF assms(1)])
  fix start ps
  assume started: "started dp input start" and out: "outcome_of_paras input start out ps"
  obtain i q where q: "q \<in> set ps" "p = evidence_row (ai_reading_id input) i q"
    using set_mapi_subset assms(2) out by (metis outcome_of_paras_def)
  then have "sound_para input (st_objects start) (ga_facts (st_gathered start)) (filter consented (ai_context input)) q"
    using out started by (auto simp: outcome_of_paras_def list_all_iff started_def)
  then show ?thesis
    using assms(3) by (auto simp: sound_para_def q evidence_row_def)
qed

theorem context_never_laundered_witness:
  "\<exists>out x. assemble_reading date_parse example_input = Inr out \<and>
     x \<in> set (pe_context (re_paragraphs (ao_evidence out) ! 4)) \<and> x = context_ref_of example_signal"
proof (rule example_assembled)
  fix out
  assume out: "assemble_reading date_parse example_input = Inr out"
    and "length (re_paragraphs (ao_evidence out)) = 5" and cx: "pe_context (re_paragraphs (ao_evidence out) ! 4) \<noteq> []"
  then have p: "re_paragraphs (ao_evidence out) ! 4 \<in> set (re_paragraphs (ao_evidence out))" by simp
  from cx obtain x where x: "x \<in> set (pe_context (re_paragraphs (ao_evidence out) ! 4))"
    using list.set_sel(1) by blast
  from context_never_laundered [OF out p x] have "x = context_ref_of example_signal"
    by (simp add: example_input_def)
  with out x show ?thesis by blast
qed

text \<open>
  reading and evidence have the same paragraphs: the same ids, roles and positions, numbered
  from 1 and never none.
\<close>
theorem reading_and_evidence_aligned:
  assumes "assemble_reading dp input = Inr out"
  shows "map rp_id (dr_paragraphs (ao_reading out)) = map pe_id (re_paragraphs (ao_evidence out)) \<and>
    map rp_role (dr_paragraphs (ao_reading out)) = map pe_role (re_paragraphs (ao_evidence out)) \<and>
    map rp_order (dr_paragraphs (ao_reading out)) = [1..<length (re_paragraphs (ao_evidence out)) + 1] \<and>
    map pe_order (re_paragraphs (ao_evidence out)) = [1..<length (re_paragraphs (ao_evidence out)) + 1] \<and>
    re_paragraphs (ao_evidence out) \<noteq> []"
proof (rule assemble_reading_Inr [OF assms])
  fix start ps
  assume "outcome_of_paras input start out ps"
  moreover have "mapi (\<lambda>i x. Suc i) ps = [1..<length ps + 1]"
    by (rule nth_equalityI) (simp_all add: nth_upt del: upt_Suc)
  ultimately show ?thesis
    by (simp add: outcome_of_paras_def map_mapi paragraph_of_def evidence_row_def del: upt_Suc)
qed

theorem reading_and_evidence_aligned_witness:
  "\<exists>out. assemble_reading date_parse example_input = Inr out \<and>
     map pe_order (re_paragraphs (ao_evidence out)) = [1, 2, 3, 4, 5]"
proof (rule example_assembled)
  fix out
  assume out: "assemble_reading date_parse example_input = Inr out"
    and texts: "map rp_text (dr_paragraphs (ao_reading out)) = [''s'', ''c'', ''reconsidering until 2026-03-22'', ''n'', ''l'']"
  have "length (map rp_text (dr_paragraphs (ao_reading out))) = 5"
    unfolding texts by simp
  with reading_and_evidence_aligned [OF out] have "length (re_paragraphs (ao_evidence out)) = 5"
    by (metis length_map)
  with reading_and_evidence_aligned [OF out] have "map pe_order (re_paragraphs (ao_evidence out)) = [1..<6]" by simp
  moreover have "[1..<6] = [1, 2, 3, 4, 5::nat]" by code_simp
  ultimately show ?thesis using out by metis
qed

text \<open>
  the outcome does not depend on the order in which the cycles of the day are listed.
\<close>
theorem outcome_ignores_cycle_order:
  assumes "mset ys = mset (ai_cycles input)" and "inj_on cy_id (set ys)"
  shows "assemble_reading dp (input\<lparr>ai_cycles := ys\<rparr>) = assemble_reading dp input"
proof -
  have "js_sort compare_cycles ys = js_sort compare_cycles (ai_cycles input)"
    using assms(2) by (intro cycle_order.js_sort_unique [OF assms(1)]) (auto simp: inj_on_def)
  then have "begin_assembly dp (input\<lparr>ai_cycles := ys\<rparr>) = begin_assembly dp input"
    by (simp add: begin_assembly_def)
  then show ?thesis
    by (simp add: assemble_reading_def cong: list.case_cong)
qed

theorem outcome_ignores_cycle_order_witness:
  "assemble_reading date_parse
     (example_input\<lparr>ai_cycles := [example_cycle\<lparr>cy_id := ''cyc_b''\<rparr>, example_cycle]\<rparr>) =
   assemble_reading date_parse (example_input\<lparr>ai_cycles := [example_cycle, example_cycle\<lparr>cy_id := ''cyc_b''\<rparr>]\<rparr>)"
proof -
  have "inj_on cy_id (set [example_cycle\<lparr>cy_id := ''cyc_b''\<rparr>, example_cycle])"
    by (simp add: example_cycle_def)
  then show ?thesis
    using outcome_ignores_cycle_order [of "[example_cycle\<lparr>cy_id := ''cyc_b''\<rparr>, example_cycle]"
      "example_input\<lparr>ai_cycles := [example_cycle, example_cycle\<lparr>cy_id := ''cyc_b''\<rparr>]\<rparr>" date_parse]
    by simp
qed

text \<open>
  finalizing either fails for a paragraph without a hash or stamps every paragraph with its own hash and
  changes nothing else.
\<close>
theorem finalize_stamps_every_paragraph:
  "finalize_reading out hashes =
     (case List.find (\<lambda>p. js_map_get (ah_text_hashes hashes) (pe_id p) = None) (re_paragraphs (ao_evidence out)) of
        Some p \<Rightarrow> Inl (AssemblyError ''missing_text_hash'' (''no text hash supplied for paragraph '' @ pe_id p))
      | None \<Rightarrow> Inr (reading_evidence.extend
          ((ao_evidence out)\<lparr>re_paragraphs :=
             map (\<lambda>p. p\<lparr>pe_text_hash := js_map_get (ah_text_hashes hashes) (pe_id p)\<rparr>) (re_paragraphs (ao_evidence out))\<rparr>)
          (evidence_draft.fields (ah_assembly_id hashes))))"
proof -
  have "map_throw (stamp_paragraph hs) ps =
     (case List.find (\<lambda>p. js_map_get hs (pe_id p) = None) ps of
        Some p \<Rightarrow> Inl (AssemblyError ''missing_text_hash'' (''no text hash supplied for paragraph '' @ pe_id p))
      | None \<Rightarrow> Inr (map (\<lambda>p. p\<lparr>pe_text_hash := js_map_get hs (pe_id p)\<rparr>) ps))" for hs ps
    by (induction ps) (auto simp: stamp_paragraph_def split: option.splits)
  then show ?thesis
    by (simp add: finalize_reading_def Let_def split: option.split)
qed

end
