(* ===== verification/Stage_Protocol.thy ===== *)
theory Stage_Protocol
  imports Instants
begin

text \<open>
  \<open>apps/api/src/services/pattern-stage-protocol.ts\<close>: the stages of a Pattern generation and the
  transition planner every writer of the job rows goes through. A \<open>throw\<close> is \<open>Inl\<close> with its
  message. Date values are milliseconds; a field of the effect that is \<open>undefined\<close> is \<open>None\<close>, one
  that is \<open>null\<close> is \<open>Some None\<close>.
\<close>

section \<open>Stages and their owners\<close>

datatype domain_stage =
    Reserved | Planning | PlanValidating | Writing | CandidateValidating | SemanticVerifying
  | Publishing | Succeeded | Failed | Cancelled

datatype stage_pass = PlannerPass | WriterPass | VerifierPass

datatype stage_owner = PassOwner stage_pass | PublicationOwner | TerminalOwner

datatype public_stage = OrganizingEvidence | WritingStage | CheckingClaims

fun stage_str :: "domain_stage \<Rightarrow> string" where
  "stage_str Reserved = ''reserved''"
| "stage_str Planning = ''planning''"
| "stage_str PlanValidating = ''plan_validating''"
| "stage_str Writing = ''writing''"
| "stage_str CandidateValidating = ''candidate_validating''"
| "stage_str SemanticVerifying = ''semantic_verifying''"
| "stage_str Publishing = ''publishing''"
| "stage_str Succeeded = ''succeeded''"
| "stage_str Failed = ''failed''"
| "stage_str Cancelled = ''cancelled''"

fun pass_str :: "stage_pass \<Rightarrow> string" where
  "pass_str PlannerPass = ''planner''"
| "pass_str WriterPass = ''writer''"
| "pass_str VerifierPass = ''verifier''"

fun owner_str :: "stage_owner \<Rightarrow> string" where
  "owner_str (PassOwner p) = pass_str p"
| "owner_str PublicationOwner = ''publication''"
| "owner_str TerminalOwner = ''terminal''"

fun public_stage_str :: "public_stage \<Rightarrow> string" where
  "public_stage_str OrganizingEvidence = ''organizing_evidence''"
| "public_stage_str WritingStage = ''writing''"
| "public_stage_str CheckingClaims = ''checking_claims''"

definition pattern_public_stages :: "public_stage list" where
  "pattern_public_stages = [OrganizingEvidence, WritingStage, CheckingClaims]"

fun pattern_stage_owner :: "domain_stage \<Rightarrow> stage_owner" where
  "pattern_stage_owner Reserved = PassOwner PlannerPass"
| "pattern_stage_owner Planning = PassOwner PlannerPass"
| "pattern_stage_owner PlanValidating = PassOwner PlannerPass"
| "pattern_stage_owner Writing = PassOwner WriterPass"
| "pattern_stage_owner CandidateValidating = PassOwner WriterPass"
| "pattern_stage_owner SemanticVerifying = PassOwner VerifierPass"
| "pattern_stage_owner Publishing = PublicationOwner"
| "pattern_stage_owner Succeeded = TerminalOwner"
| "pattern_stage_owner Failed = TerminalOwner"
| "pattern_stage_owner Cancelled = TerminalOwner"

fun public_stage_for :: "domain_stage \<Rightarrow> public_stage option" where
  "public_stage_for Reserved = Some OrganizingEvidence"
| "public_stage_for Planning = Some OrganizingEvidence"
| "public_stage_for PlanValidating = Some OrganizingEvidence"
| "public_stage_for Writing = Some WritingStage"
| "public_stage_for CandidateValidating = Some CheckingClaims"
| "public_stage_for SemanticVerifying = Some CheckingClaims"
| "public_stage_for Publishing = Some CheckingClaims"
| "public_stage_for _ = None"

definition public_failure_stage_for :: "string option \<Rightarrow> public_stage option" where
  "public_failure_stage_for v = List.find (\<lambda>s. public_stage_str s = orelse v []) pattern_public_stages"

datatype replay_stage = PublicStage public_stage | ReadyStage

definition accepted_replay_stage :: "domain_stage \<Rightarrow> replay_stage" where
  "accepted_replay_stage stage =
     (case public_stage_for stage of
        Some p \<Rightarrow> PublicStage p
      | None \<Rightarrow> if stage = Succeeded then ReadyStage else PublicStage OrganizingEvidence)"

section \<open>The state of a generation\<close>

record stage_state =
  ss_generation_id :: string
  ss_stage :: domain_stage
  ss_stage_generation :: nat
  ss_planner_attempts :: nat
  ss_writer_attempts :: nat
  ss_verifier_attempts :: nat
  ss_plan_hash :: "string option"
  ss_candidate_hash :: "string option"
  ss_verdict_hash :: "string option"

text \<open>The attempt column of a pass, read and incremented.\<close>

fun attempts_of :: "stage_pass \<Rightarrow> 'a stage_state_scheme \<Rightarrow> nat" where
  "attempts_of PlannerPass s = ss_planner_attempts s"
| "attempts_of WriterPass s = ss_writer_attempts s"
| "attempts_of VerifierPass s = ss_verifier_attempts s"

fun count_attempt :: "stage_pass \<Rightarrow> stage_state \<Rightarrow> stage_state" where
  "count_attempt PlannerPass s = s\<lparr>ss_planner_attempts := ss_planner_attempts s + 1\<rparr>"
| "count_attempt WriterPass s = s\<lparr>ss_writer_attempts := ss_writer_attempts s + 1\<rparr>"
| "count_attempt VerifierPass s = s\<lparr>ss_verifier_attempts := ss_verifier_attempts s + 1\<rparr>"

fun request_class :: "stage_pass \<Rightarrow> string" where
  "request_class PlannerPass = ''planner_request''"
| "request_class WriterPass = ''writer_request''"
| "request_class VerifierPass = ''verifier_request''"

fun response_class :: "stage_pass \<Rightarrow> string" where
  "response_class PlannerPass = ''planner_response''"
| "response_class WriterPass = ''writer_response''"
| "response_class VerifierPass = ''verifier_response''"

record attempt_coordinate =
  ac_generation_id :: string
  ac_pass :: stage_pass
  ac_stage_generation :: nat
  ac_attempt :: nat
  ac_request_class :: string
  ac_response_class :: string

definition pattern_attempt_coordinate :: "'a stage_state_scheme \<Rightarrow> stage_pass \<Rightarrow> attempt_coordinate" where
  "pattern_attempt_coordinate s p =
     \<lparr>ac_generation_id = ss_generation_id s, ac_pass = p, ac_stage_generation = ss_stage_generation s,
      ac_attempt = attempts_of p s, ac_request_class = request_class p, ac_response_class = response_class p\<rparr>"

definition pattern_delivery_is_current :: "'a stage_state_scheme \<Rightarrow> string \<Rightarrow> nat \<Rightarrow> bool" where
  "pattern_delivery_is_current s gid sg =
     (ss_generation_id s = gid \<and> ss_stage_generation s = sg \<and> pattern_stage_owner (ss_stage s) \<noteq> TerminalOwner)"

text \<open>The digest is the argument \<open>sha\<close>.\<close>

definition pattern_artifact_id :: "(string \<Rightarrow> string) \<Rightarrow> string \<Rightarrow> string \<Rightarrow> nat \<Rightarrow> nat \<Rightarrow> string" where
  "pattern_artifact_id sha gid cls sg attempt =
     ''part_'' @ take 32 (sha (gid @ '':'' @ cls @ '':'' @ nat_str sg @ '':'' @ nat_str attempt))"

section \<open>Transitions\<close>

datatype cancellation_reason = CancelConsent | CancelStale | CancelOntology | CancelSourceChanged

fun cancellation_str :: "cancellation_reason \<Rightarrow> string" where
  "cancellation_str CancelConsent = ''cancel_consent''"
| "cancellation_str CancelStale = ''cancel_stale''"
| "cancellation_str CancelOntology = ''cancel_ontology''"
| "cancellation_str CancelSourceChanged = ''cancel_source_changed''"

datatype pattern_transition =
    AwaitProvider
  | AdvanceWriting string
  | AdvanceVerifying string
  | RetryPass stage_pass "int option"
  | ReturnToWriter "int option"
  | PublicationRetry int
  | FailStage string public_stage
  | CancelStage cancellation_reason
  | PublishStage string string

datatype job_status = JobQueued | JobRunning | JobFailed | JobCancelled | JobSucceeded

record queue_coordinate =
  qc_owner :: stage_owner
  qc_stage_generation :: nat
  qc_attempt :: "nat option"

record transition_effect =
  te_transition :: pattern_transition
  te_next :: stage_state
  te_job_status :: job_status
  te_available_at :: "int option option"
  te_clear_dispatched :: bool
  te_finish :: bool
  te_result_class :: "string option"
  te_public_failure :: "public_stage option"
  te_cancellation :: "cancellation_reason option"
  te_retention :: "int option"
  te_release_claim :: bool
  te_next_queue :: "queue_coordinate option"
  te_call_authorized :: bool

definition failure_retention_ms :: int where
  "failure_retention_ms = 30 * 86400000"

definition queued_effect ::
  "pattern_transition \<Rightarrow> stage_state \<Rightarrow> queue_coordinate \<Rightarrow> int option option \<Rightarrow> bool \<Rightarrow> transition_effect" where
  "queued_effect tr next coordinate available authorized =
     \<lparr>te_transition = tr, te_next = next, te_job_status = JobQueued, te_available_at = available,
      te_clear_dispatched = True, te_finish = False, te_result_class = None, te_public_failure = None,
      te_cancellation = None, te_retention = None, te_release_claim = False,
      te_next_queue = Some coordinate, te_call_authorized = authorized\<rparr>"

text \<open>The effects that queue nothing; the branches of the code set the fields they differ in.\<close>

definition quiet_effect :: "pattern_transition \<Rightarrow> stage_state \<Rightarrow> job_status \<Rightarrow> bool \<Rightarrow> transition_effect" where
  "quiet_effect tr next status finish =
     \<lparr>te_transition = tr, te_next = next, te_job_status = status, te_available_at = None,
      te_clear_dispatched = False, te_finish = finish, te_result_class = None, te_public_failure = None,
      te_cancellation = None, te_retention = None, te_release_claim = False,
      te_next_queue = None, te_call_authorized = False\<rparr>"

definition may_publish :: "stage_owner \<Rightarrow> bool" where
  "may_publish owner = (owner = PassOwner VerifierPass \<or> owner = PublicationOwner)"

definition plan_pattern_transition ::
  "stage_state \<Rightarrow> pattern_transition \<Rightarrow> int \<Rightarrow> string + transition_effect" where
  "plan_pattern_transition s tr now =
     (let owner = pattern_stage_owner (ss_stage s); sg = ss_stage_generation s in
      if owner = TerminalOwner then Inl ''terminal Pattern stage cannot transition''
      else (case tr of
        AwaitProvider \<Rightarrow> Inr (quiet_effect tr s JobQueued False)
      | AdvanceWriting plan_hash \<Rightarrow>
          if owner \<noteq> PassOwner PlannerPass then Inl (owner_str owner @ '' cannot advance to writing'')
          else (let next = s\<lparr>ss_stage := Writing, ss_stage_generation := sg + 1, ss_plan_hash := Some plan_hash\<rparr> in
            Inr (queued_effect tr next \<lparr>qc_owner = PassOwner WriterPass, qc_stage_generation = sg + 1,
              qc_attempt = Some (ss_writer_attempts next)\<rparr> None True))
      | AdvanceVerifying candidate_hash \<Rightarrow>
          if owner \<noteq> PassOwner WriterPass then Inl (owner_str owner @ '' cannot advance to semantic_verifying'')
          else (let next = s\<lparr>ss_stage := SemanticVerifying, ss_stage_generation := sg + 1,
                  ss_candidate_hash := Some candidate_hash, ss_verifier_attempts := 0\<rparr> in
            Inr (queued_effect tr next \<lparr>qc_owner = PassOwner VerifierPass, qc_stage_generation = sg + 1,
              qc_attempt = Some 0\<rparr> None True))
      | RetryPass pass available \<Rightarrow>
          let recovery = (owner = PublicationOwner \<and> pass = VerifierPass) in
          if owner \<noteq> PassOwner pass \<and> \<not> recovery then
            Inl (pass_str pass @ '' cannot retry '' @ stage_str (ss_stage s))
          else (let next = count_attempt pass s in
            Inr (queued_effect tr next \<lparr>qc_owner = PassOwner pass, qc_stage_generation = sg,
              qc_attempt = Some (attempts_of pass next)\<rparr> (Some available) True))
      | ReturnToWriter available \<Rightarrow>
          if \<not> may_publish owner then Inl (owner_str owner @ '' cannot return to writer'')
          else (let next = s\<lparr>ss_stage := Writing, ss_stage_generation := sg + 1,
                  ss_writer_attempts := ss_writer_attempts s + 1, ss_candidate_hash := None\<rparr> in
            Inr (queued_effect tr next \<lparr>qc_owner = PassOwner WriterPass, qc_stage_generation = sg + 1,
              qc_attempt = Some (ss_writer_attempts next)\<rparr> (Some available) True))
      | PublicationRetry available \<Rightarrow>
          if \<not> may_publish owner then Inl (owner_str owner @ '' cannot retry publication'')
          else Inr (queued_effect tr (s\<lparr>ss_stage := Publishing\<rparr>)
            \<lparr>qc_owner = PublicationOwner, qc_stage_generation = sg, qc_attempt = None\<rparr> (Some (Some available)) False)
      | FailStage failure_class public_stage \<Rightarrow>
          Inr ((quiet_effect tr (s\<lparr>ss_stage := Failed, ss_stage_generation := sg + 1\<rparr>) JobFailed True)
            \<lparr>te_result_class := Some failure_class, te_public_failure := Some public_stage,
             te_retention := Some (now + failure_retention_ms), te_release_claim := True\<rparr>)
      | CancelStage reason \<Rightarrow>
          Inr ((quiet_effect tr (s\<lparr>ss_stage := Cancelled\<rparr>) JobCancelled True)
            \<lparr>te_cancellation := Some reason, te_release_claim := True\<rparr>)
      | PublishStage candidate_hash verdict_hash \<Rightarrow>
          if \<not> may_publish owner then Inl (owner_str owner @ '' cannot publish'')
          else Inr (quiet_effect tr (s\<lparr>ss_stage := Succeeded, ss_stage_generation := sg + 1,
            ss_candidate_hash := Some candidate_hash, ss_verdict_hash := Some verdict_hash\<rparr>) JobSucceeded True)))"

section \<open>Runs of the protocol\<close>

text \<open>A reservation starts in \<open>reserved\<close> with the first planner call of generation 0 authorized.\<close>

definition fresh_stage :: "string \<Rightarrow> stage_state" where
  "fresh_stage gid =
     \<lparr>ss_generation_id = gid, ss_stage = Reserved, ss_stage_generation = 0, ss_planner_attempts = 0,
      ss_writer_attempts = 0, ss_verifier_attempts = 0, ss_plan_hash = None, ss_candidate_hash = None,
      ss_verdict_hash = None\<rparr>"

definition first_coordinate :: queue_coordinate where
  "first_coordinate = \<lparr>qc_owner = PassOwner PlannerPass, qc_stage_generation = 0, qc_attempt = Some 0\<rparr>"

definition authorized_by :: "transition_effect \<Rightarrow> queue_coordinate list" where
  "authorized_by e =
     (case te_next_queue e of None \<Rightarrow> [] | Some q \<Rightarrow> if te_call_authorized e then [q] else [])"

text \<open>\<open>protocol_run gid s qs\<close>: the generation is in state \<open>s\<close> and the provider calls authorized so far are \<open>qs\<close>.\<close>

inductive protocol_run :: "string \<Rightarrow> stage_state \<Rightarrow> queue_coordinate list \<Rightarrow> bool" for gid where
  start: "protocol_run gid (fresh_stage gid) [first_coordinate]"
| move: "protocol_run gid s qs \<Longrightarrow> plan_pattern_transition s tr now = Inr e \<Longrightarrow>
    protocol_run gid (te_next e) (qs @ authorized_by e)"

lemmas plan_unfold = plan_pattern_transition_def Let_def queued_effect_def quiet_effect_def may_publish_def

lemma plan_terminal: "plan_pattern_transition s tr now = Inr e \<Longrightarrow> pattern_stage_owner (ss_stage s) \<noteq> TerminalOwner"
  by (simp add: plan_pattern_transition_def Let_def split: if_splits)

lemma stage_owner_cases:
  "pattern_stage_owner st = PassOwner PlannerPass \<longleftrightarrow> st \<in> {Reserved, Planning, PlanValidating}"
  "pattern_stage_owner st = PassOwner WriterPass \<longleftrightarrow> st \<in> {Writing, CandidateValidating}"
  "pattern_stage_owner st = PassOwner VerifierPass \<longleftrightarrow> st = SemanticVerifying"
  "pattern_stage_owner st = PublicationOwner \<longleftrightarrow> st = Publishing"
  "pattern_stage_owner st = TerminalOwner \<longleftrightarrow> st \<in> {Succeeded, Failed, Cancelled}"
  by (cases st; simp)+

lemma count_attempt_simps [simp]:
  "ss_generation_id (count_attempt p s) = ss_generation_id s"
  "ss_stage (count_attempt p s) = ss_stage s"
  "ss_stage_generation (count_attempt p s) = ss_stage_generation s"
  "ss_plan_hash (count_attempt p s) = ss_plan_hash s"
  "ss_candidate_hash (count_attempt p s) = ss_candidate_hash s"
  "ss_verdict_hash (count_attempt p s) = ss_verdict_hash s"
  by (cases p; simp)+

lemma attempts_count [simp]: "attempts_of q (count_attempt p s) = attempts_of q s + (if p = q then 1 else 0)"
  by (cases p; cases q) simp_all

text \<open>The attempts do not look at the columns a stage change writes.\<close>

lemma attempts_of_update [simp]:
  "attempts_of p (s\<lparr>ss_stage := st\<rparr>) = attempts_of p s"
  "attempts_of p (s\<lparr>ss_stage_generation := n\<rparr>) = attempts_of p s"
  by (cases p; simp)+

text \<open>What a planned transition makes of the state and which call it authorizes.\<close>

lemma plan_moves:
  assumes "plan_pattern_transition s tr now = Inr e"
  obtains (await) "te_next e = s" "authorized_by e = []"
  | (writing) h where "pattern_stage_owner (ss_stage s) = PassOwner PlannerPass"
      "te_next e = s\<lparr>ss_stage := Writing, ss_stage_generation := ss_stage_generation s + 1, ss_plan_hash := Some h\<rparr>"
      "authorized_by e = [\<lparr>qc_owner = PassOwner WriterPass, qc_stage_generation = ss_stage_generation s + 1,
        qc_attempt = Some (ss_writer_attempts s)\<rparr>]"
  | (verifying) h where "pattern_stage_owner (ss_stage s) = PassOwner WriterPass"
      "te_next e = s\<lparr>ss_stage := SemanticVerifying, ss_stage_generation := ss_stage_generation s + 1,
        ss_candidate_hash := Some h, ss_verifier_attempts := 0\<rparr>"
      "authorized_by e = [\<lparr>qc_owner = PassOwner VerifierPass, qc_stage_generation = ss_stage_generation s + 1,
        qc_attempt = Some 0\<rparr>]"
  | (retry) p where "pattern_stage_owner (ss_stage s) = PassOwner p \<or>
        pattern_stage_owner (ss_stage s) = PublicationOwner \<and> p = VerifierPass"
      "te_next e = count_attempt p s"
      "authorized_by e = [\<lparr>qc_owner = PassOwner p, qc_stage_generation = ss_stage_generation s,
        qc_attempt = Some (attempts_of p s + 1)\<rparr>]"
  | (returning) "may_publish (pattern_stage_owner (ss_stage s))"
      "te_next e = s\<lparr>ss_stage := Writing, ss_stage_generation := ss_stage_generation s + 1,
        ss_writer_attempts := ss_writer_attempts s + 1, ss_candidate_hash := None\<rparr>"
      "authorized_by e = [\<lparr>qc_owner = PassOwner WriterPass, qc_stage_generation = ss_stage_generation s + 1,
        qc_attempt = Some (ss_writer_attempts s + 1)\<rparr>]"
  | (publishing) "may_publish (pattern_stage_owner (ss_stage s))" "te_next e = s\<lparr>ss_stage := Publishing\<rparr>"
      "authorized_by e = []"
  | (failing) "te_next e = s\<lparr>ss_stage := Failed, ss_stage_generation := ss_stage_generation s + 1\<rparr>" "authorized_by e = []"
  | (cancelling) "te_next e = s\<lparr>ss_stage := Cancelled\<rparr>" "authorized_by e = []"
  | (published) h v where "may_publish (pattern_stage_owner (ss_stage s))"
      "te_next e = s\<lparr>ss_stage := Succeeded, ss_stage_generation := ss_stage_generation s + 1,
        ss_candidate_hash := Some h, ss_verdict_hash := Some v\<rparr>" "authorized_by e = []"
proof (cases tr)
  case AwaitProvider
  then show thesis using assms by (intro await) (auto simp: plan_unfold authorized_by_def split: if_splits)
next
  case (AdvanceWriting h)
  then show thesis using assms by (intro writing [of h]) (auto simp: plan_unfold authorized_by_def split: if_splits)
next
  case (AdvanceVerifying h)
  then show thesis using assms by (intro verifying [of h]) (auto simp: plan_unfold authorized_by_def split: if_splits)
next
  case (RetryPass p available)
  then show thesis using assms by (intro retry [of p]) (auto simp: plan_unfold authorized_by_def split: if_splits)
next
  case (ReturnToWriter available)
  then show thesis using assms by (intro returning) (auto simp: plan_unfold authorized_by_def split: if_splits)
next
  case (PublicationRetry available)
  then show thesis using assms by (intro publishing) (auto simp: plan_unfold authorized_by_def split: if_splits)
next
  case (FailStage c p)
  then show thesis using assms by (intro failing) (auto simp: plan_unfold authorized_by_def split: if_splits)
next
  case (CancelStage r)
  then show thesis using assms by (intro cancelling) (auto simp: plan_unfold authorized_by_def split: if_splits)
next
  case (PublishStage h v)
  then show thesis using assms by (intro published [of v h]) (auto simp: plan_unfold authorized_by_def split: if_splits)
qed

text \<open>What a transition does to the coordinates: a new generation, or one more attempt of the same one.\<close>

lemma plan_coordinates:
  assumes "plan_pattern_transition s tr now = Inr e"
  shows "ss_stage_generation (te_next e) = ss_stage_generation s + 1 \<or>
    ss_stage_generation (te_next e) = ss_stage_generation s \<and> (\<forall>p. attempts_of p s \<le> attempts_of p (te_next e))"
  by (rule plan_moves [OF assms]) simp_all

lemma plan_authorizes:
  assumes "plan_pattern_transition s tr now = Inr e" and "q \<in> set (authorized_by e)"
  shows "\<exists>p. qc_owner q = PassOwner p \<and> qc_attempt q = Some (attempts_of p (te_next e)) \<and>
    qc_stage_generation q = ss_stage_generation (te_next e) \<and>
    (ss_stage_generation (te_next e) = ss_stage_generation s + 1 \<or> attempts_of p (te_next e) = attempts_of p s + 1)"
  by (rule plan_moves [OF assms(1)]) (use assms(2) in simp_all)

lemma authorized_single: "distinct (authorized_by e)"
  by (simp add: authorized_by_def split: option.splits)

definition within_run :: "stage_state \<Rightarrow> queue_coordinate \<Rightarrow> bool" where
  "within_run s q =
     (\<exists>p a. qc_owner q = PassOwner p \<and> qc_attempt q = Some a \<and>
       (qc_stage_generation q < ss_stage_generation s \<or>
        qc_stage_generation q = ss_stage_generation s \<and> a \<le> attempts_of p s))"

lemma within_run_keeps:
  assumes "plan_pattern_transition s tr now = Inr e" and "within_run s q"
  shows "within_run (te_next e) q"
proof -
  obtain p a where q: "qc_owner q = PassOwner p" "qc_attempt q = Some a"
    and old: "qc_stage_generation q < ss_stage_generation s \<or>
      qc_stage_generation q = ss_stage_generation s \<and> a \<le> attempts_of p s"
    using assms(2) by (auto simp: within_run_def)
  have "qc_stage_generation q < ss_stage_generation (te_next e) \<or>
      qc_stage_generation q = ss_stage_generation (te_next e) \<and> a \<le> attempts_of p (te_next e)"
    using plan_coordinates [OF assms(1)] old by (auto intro: le_trans)
  then show ?thesis using q by (auto simp: within_run_def)
qed

lemma authorized_fresh:
  assumes "plan_pattern_transition s tr now = Inr e" and "q \<in> set (authorized_by e)"
  shows "\<not> within_run s q" and "within_run (te_next e) q"
  using plan_coordinates [OF assms(1)] plan_authorizes [OF assms]
  by (auto simp: within_run_def)

lemma run_coordinates:
  "protocol_run gid s qs \<Longrightarrow> distinct qs \<and> list_all (within_run s) qs"
proof (induction rule: protocol_run.induct)
  case start
  show ?case
    by (simp add: within_run_def first_coordinate_def fresh_stage_def)
next
  case (move s qs tr now e)
  have "set qs \<inter> set (authorized_by e) = {}"
    using authorized_fresh(1) [OF move.hyps(2)] move.IH by (auto simp: list_all_iff)
  then show ?case
    using move.IH authorized_single within_run_keeps [OF move.hyps(2)] authorized_fresh(2) [OF move.hyps(2)]
    by (auto simp: list_all_iff)
qed

text \<open>What each reachable stage has recorded; three stages of the type are never entered.\<close>

fun stage_recorded :: "domain_stage \<Rightarrow> stage_state \<Rightarrow> bool" where
  "stage_recorded Reserved s = (ss_plan_hash s = None \<and> ss_candidate_hash s = None)"
| "stage_recorded Writing s = (ss_plan_hash s \<noteq> None \<and> ss_candidate_hash s = None)"
| "stage_recorded SemanticVerifying s = (ss_plan_hash s \<noteq> None \<and> ss_candidate_hash s \<noteq> None)"
| "stage_recorded Publishing s = (ss_plan_hash s \<noteq> None \<and> ss_candidate_hash s \<noteq> None)"
| "stage_recorded Succeeded s = (ss_plan_hash s \<noteq> None \<and> ss_candidate_hash s \<noteq> None)"
| "stage_recorded Failed s = True"
| "stage_recorded Cancelled s = True"
| "stage_recorded _ s = False"

definition stage_ok :: "stage_state \<Rightarrow> bool" where
  "stage_ok s = (stage_recorded (ss_stage s) s \<and> (ss_verdict_hash s \<noteq> None \<longleftrightarrow> ss_stage s = Succeeded))"

lemma stage_ok_fresh: "stage_ok (fresh_stage gid)"
  by (simp add: stage_ok_def fresh_stage_def)

lemma stage_recorded_keep:
  "ss_plan_hash t = ss_plan_hash s \<Longrightarrow> ss_candidate_hash t = ss_candidate_hash s \<Longrightarrow>
   stage_recorded st t = stage_recorded st s"
  by (cases st) simp_all

lemma stage_ok_step:
  assumes "plan_pattern_transition s tr now = Inr e" and "stage_ok s"
  shows "stage_ok (te_next e)"
proof (rule plan_moves [OF assms(1)])
qed (use assms(2) plan_terminal [OF assms(1)] in \<open>cases "ss_stage s"; simp add: stage_ok_def may_publish_def\<close>)+

lemma stage_ok_run: "protocol_run gid s qs \<Longrightarrow> stage_ok s"
  by (induction rule: protocol_run.induct) (simp_all add: stage_ok_fresh stage_ok_step)

lemma plan_generation_id: "plan_pattern_transition s tr now = Inr e \<Longrightarrow> ss_generation_id (te_next e) = ss_generation_id s"
  by (erule plan_moves) simp_all

lemma run_generation_id: "protocol_run gid s qs \<Longrightarrow> ss_generation_id s = gid"
  by (induction rule: protocol_run.induct) (simp_all add: plan_generation_id fresh_stage_def)

section \<open>Properties\<close>

text \<open>
  C10: along every run of the protocol no provider call is authorized twice: the coordinates (pass, stage
  generation, attempt) under which request and response artifacts are stored are pairwise different.
\<close>
theorem provider_coordinates_never_repeat:
  assumes "protocol_run gid s qs"
  shows "distinct qs"
  using run_coordinates [OF assms] by simp

definition example_run_state :: stage_state where
  "example_run_state = (fresh_stage ''g'')\<lparr>ss_stage := Writing, ss_stage_generation := 1, ss_planner_attempts := 1,
     ss_plan_hash := Some ''h''\<rparr>"

lemma example_run:
  "protocol_run ''g'' example_run_state
     [first_coordinate, \<lparr>qc_owner = PassOwner PlannerPass, qc_stage_generation = 0, qc_attempt = Some 1\<rparr>,
      \<lparr>qc_owner = PassOwner WriterPass, qc_stage_generation = 1, qc_attempt = Some 0\<rparr>]"
proof -
  obtain e where e: "plan_pattern_transition (fresh_stage ''g'') (RetryPass PlannerPass None) 0 = Inr e"
    and a: "authorized_by e = [\<lparr>qc_owner = PassOwner PlannerPass, qc_stage_generation = 0, qc_attempt = Some 1\<rparr>]"
    and n: "te_next e = (fresh_stage ''g'')\<lparr>ss_planner_attempts := 1\<rparr>"
    by (simp add: plan_unfold authorized_by_def fresh_stage_def)
  have one: "protocol_run ''g'' ((fresh_stage ''g'')\<lparr>ss_planner_attempts := 1\<rparr>)
     [first_coordinate, \<lparr>qc_owner = PassOwner PlannerPass, qc_stage_generation = 0, qc_attempt = Some 1\<rparr>]"
    using protocol_run.move [OF protocol_run.start e] by (simp add: a n)
  obtain f where f: "plan_pattern_transition ((fresh_stage ''g'')\<lparr>ss_planner_attempts := 1\<rparr>) (AdvanceWriting ''h'') 0 = Inr f"
    and b: "authorized_by f = [\<lparr>qc_owner = PassOwner WriterPass, qc_stage_generation = 1, qc_attempt = Some 0\<rparr>]"
    and m: "te_next f = example_run_state"
    by (simp add: plan_unfold authorized_by_def fresh_stage_def example_run_state_def)
  show ?thesis
    using protocol_run.move [OF one f] by (simp add: b m)
qed

theorem provider_coordinates_never_repeat_witness:
  "distinct [first_coordinate, \<lparr>qc_owner = PassOwner PlannerPass, qc_stage_generation = 0, qc_attempt = Some 1\<rparr>,
     \<lparr>qc_owner = PassOwner WriterPass, qc_stage_generation = 1, qc_attempt = Some 0\<rparr>]"
  by (rule provider_coordinates_never_repeat [OF example_run])

text \<open>
  C18: a reachable generation has the hashes its stage stands for: writing has a plan and no candidate,
  verification and publication have plan and candidate, and only a succeeded generation has a verdict.
\<close>
theorem reachable_stage_is_typed:
  assumes "protocol_run gid s qs"
  shows "ss_generation_id s = gid \<and> stage_recorded (ss_stage s) s \<and>
    (ss_verdict_hash s \<noteq> None \<longleftrightarrow> ss_stage s = Succeeded)"
  using stage_ok_run [OF assms] run_generation_id [OF assms] by (simp add: stage_ok_def)

theorem reachable_stage_is_typed_witness:
  "ss_plan_hash example_run_state \<noteq> None \<and> ss_candidate_hash example_run_state = None"
  using reachable_stage_is_typed [OF example_run] by (simp add: example_run_state_def)

text \<open>
  the queue message that led to a transition is still current afterwards exactly when the transition
  waits or retries in the same generation of the stage; a delivery of it after any other transition is dropped.
\<close>
theorem stale_delivery_is_dropped:
  assumes "plan_pattern_transition s tr now = Inr e"
  shows "pattern_delivery_is_current (te_next e) (ss_generation_id s) (ss_stage_generation s) \<longleftrightarrow>
    tr = AwaitProvider \<or> (\<exists>p a. tr = RetryPass p a) \<or> (\<exists>a. tr = PublicationRetry a)"
  using assms plan_terminal [OF assms]
  by (cases tr) (auto simp: plan_unfold pattern_delivery_is_current_def split: if_splits)

theorem stale_delivery_is_dropped_witness:
  "\<exists>e. plan_pattern_transition (fresh_stage ''g'') (CancelStage CancelConsent) 0 = Inr e \<and>
     \<not> pattern_delivery_is_current (te_next e) ''g'' 0"
proof -
  obtain e where e: "plan_pattern_transition (fresh_stage ''g'') (CancelStage CancelConsent) 0 = Inr e"
    by (simp add: plan_unfold fresh_stage_def)
  with stale_delivery_is_dropped [OF e] show ?thesis by (simp add: fresh_stage_def)
qed

text \<open>
  a transition is refused exactly from a terminal stage or for an owner the transition does not
  belong to.
\<close>
theorem transition_refused_iff:
  "(\<exists>m. plan_pattern_transition s tr now = Inl m) \<longleftrightarrow>
     (let owner = pattern_stage_owner (ss_stage s) in
      owner = TerminalOwner \<or>
      (case tr of
         AdvanceWriting h \<Rightarrow> owner \<noteq> PassOwner PlannerPass
       | AdvanceVerifying h \<Rightarrow> owner \<noteq> PassOwner WriterPass
       | RetryPass p a \<Rightarrow> owner \<noteq> PassOwner p \<and> \<not> (owner = PublicationOwner \<and> p = VerifierPass)
       | ReturnToWriter a \<Rightarrow> owner \<notin> {PassOwner VerifierPass, PublicationOwner}
       | PublicationRetry a \<Rightarrow> owner \<notin> {PassOwner VerifierPass, PublicationOwner}
       | PublishStage h v \<Rightarrow> owner \<notin> {PassOwner VerifierPass, PublicationOwner}
       | _ \<Rightarrow> False))"
  by (cases tr) (auto simp: plan_unfold)

end
