(* ===== verification/Pattern_Claims.thy ===== *)
theory Pattern_Claims
  imports Prelude
begin

text \<open>
  \<open>apps/api/src/db/pattern-claim-transitions.ts\<close>: the statements that write
  \<open>pattern_generation_claims\<close>, over a table that is a list of rows. A statement is a function from
  the table to the table after it; \<open>None\<close> is the abort of the batch it belongs to, by a CHECK or a
  UNIQUE constraint of \<open>db/d1/0007_ai_generated_pattern.sql\<close> or by the trigger of
  \<open>db/d1/0023_pattern_source_regeneration.sql\<close>. A comparison with \<open>NULL\<close> selects nothing.
\<close>

section \<open>Rows, constraints and the trigger\<close>

datatype claim_status =
    ClaimAvailable | ClaimReserved | ClaimAccepted | ClaimDeleted | ClaimSuperseded | ClaimWithdrawn

definition is_consumed_status :: "claim_status \<Rightarrow> bool" where
  "is_consumed_status s = (s \<in> {ClaimAccepted, ClaimDeleted, ClaimSuperseded, ClaimWithdrawn})"

record claim_row =
  cl_id :: string
  cl_user :: string
  cl_fingerprint :: string
  cl_last_chart :: "string option"
  cl_status :: claim_status
  cl_active :: "string option"
  cl_pending :: "string option"
  cl_consumed_at :: "string option"
  cl_accepted_at :: "string option"
  cl_deleted_at :: "string option"
  cl_superseded_at :: "string option"
  cl_withdrawn_at :: "string option"
  cl_created_at :: string
  cl_updated_at :: string

definition claim_check :: "claim_row \<Rightarrow> bool" where
  "claim_check r =
     ((cl_status r \<in> {ClaimAvailable, ClaimReserved} \<and> cl_consumed_at r = None \<or>
       is_consumed_status (cl_status r) \<and> cl_consumed_at r \<noteq> None) \<and>
      (cl_status r = ClaimReserved \<and> cl_active r \<noteq> None \<or>
       cl_status r \<noteq> ClaimReserved \<and> cl_active r = None))"

definition claim_edge :: "claim_status \<Rightarrow> claim_status \<Rightarrow> bool" where
  "claim_edge s t =
     (t = s \<or> s = ClaimAvailable \<and> t = ClaimReserved \<or> s = ClaimReserved \<and> t = ClaimAvailable \<or>
      s = ClaimReserved \<and> t = ClaimAccepted \<or>
      s = ClaimAccepted \<and> t \<in> {ClaimDeleted, ClaimSuperseded, ClaimWithdrawn})"

text \<open>A terminal timestamp is written by its own edge and by no other.\<close>

definition stamped :: "claim_status \<Rightarrow> (claim_row \<Rightarrow> string option) \<Rightarrow> claim_row \<Rightarrow> claim_row \<Rightarrow> bool" where
  "stamped status field old new =
     (if cl_status old = ClaimAccepted \<and> cl_status new = status then field new \<noteq> None else field new = field old)"

definition claim_guard :: "claim_row \<Rightarrow> claim_row \<Rightarrow> bool" where
  "claim_guard old new =
     (claim_edge (cl_status old) (cl_status new) \<and>
      cl_id new = cl_id old \<and> cl_user new = cl_user old \<and> cl_fingerprint new = cl_fingerprint old \<and>
      cl_created_at new = cl_created_at old \<and>
      (if cl_status old = ClaimReserved \<and> cl_status new = ClaimAccepted
       then cl_consumed_at new \<noteq> None \<and> cl_accepted_at new \<noteq> None
       else cl_consumed_at new = cl_consumed_at old \<and> cl_accepted_at new = cl_accepted_at old) \<and>
      stamped ClaimDeleted cl_deleted_at old new \<and> stamped ClaimSuperseded cl_superseded_at old new \<and>
      stamped ClaimWithdrawn cl_withdrawn_at old new \<and>
      (cl_status new = cl_status old \<longrightarrow> cl_active new = cl_active old) \<and>
      (cl_status new \<noteq> ClaimAccepted \<longrightarrow> cl_pending new = None) \<and>
      (cl_status old = ClaimAccepted \<and> cl_status new \<noteq> ClaimAccepted \<longrightarrow> cl_pending old = None) \<and>
      (cl_pending new \<noteq> cl_pending old \<longrightarrow>
        cl_status old = ClaimAccepted \<and> cl_status new = ClaimAccepted \<and>
        (cl_pending old = None \<and> cl_pending new \<noteq> None \<or> cl_pending old \<noteq> None \<and> cl_pending new = None)))"

definition sql_update :: "('r \<Rightarrow> bool) \<Rightarrow> ('r \<Rightarrow> 'r) \<Rightarrow> 'r list \<Rightarrow> 'r list" where
  "sql_update sel upd rows = map (\<lambda>r. if sel r then upd r else r) rows"

definition update_claims ::
  "(claim_row \<Rightarrow> bool) \<Rightarrow> (claim_row \<Rightarrow> claim_row) \<Rightarrow> claim_row list \<Rightarrow> claim_row list option" where
  "update_claims sel upd rows =
     (if list_all (\<lambda>r. sel r \<longrightarrow> claim_guard r (upd r) \<and> claim_check (upd r)) rows
      then Some (sql_update sel upd rows) else None)"

section \<open>The statements\<close>

definition reserve_new_claim ::
  "string \<Rightarrow> string \<Rightarrow> string \<Rightarrow> string \<Rightarrow> string \<Rightarrow> string \<Rightarrow> claim_row list \<Rightarrow> claim_row list option" where
  "reserve_new_claim claim_id user_id fingerprint chart_id generation_id now rows =
     (if list_ex (\<lambda>r. cl_id r = claim_id \<or> cl_user r = user_id \<and> cl_fingerprint r = fingerprint) rows then None
      else Some (rows @ [\<lparr>cl_id = claim_id, cl_user = user_id, cl_fingerprint = fingerprint,
        cl_last_chart = Some chart_id, cl_status = ClaimReserved, cl_active = Some generation_id,
        cl_pending = None, cl_consumed_at = None, cl_accepted_at = None, cl_deleted_at = None,
        cl_superseded_at = None, cl_withdrawn_at = None, cl_created_at = now, cl_updated_at = now\<rparr>]))"

definition reserve_existing_claim ::
  "string \<Rightarrow> string \<Rightarrow> string \<Rightarrow> string \<Rightarrow> string \<Rightarrow> string \<Rightarrow> claim_row list \<Rightarrow> claim_row list option" where
  "reserve_existing_claim claim_id user_id fingerprint chart_id generation_id now =
     update_claims
       (\<lambda>r. cl_id r = claim_id \<and> cl_user r = user_id \<and> cl_fingerprint r = fingerprint \<and>
         cl_status r = ClaimAvailable \<and> cl_consumed_at r = None)
       (\<lambda>r. r\<lparr>cl_status := ClaimReserved, cl_active := Some generation_id, cl_last_chart := Some chart_id,
         cl_updated_at := now\<rparr>)"

definition release_unconsumed_claim ::
  "string \<Rightarrow> string \<Rightarrow> string \<Rightarrow> string \<Rightarrow> claim_row list \<Rightarrow> claim_row list option" where
  "release_unconsumed_claim claim_id user_id generation_id now =
     update_claims
       (\<lambda>r. cl_id r = claim_id \<and> cl_user r = user_id \<and> cl_status r = ClaimReserved \<and> cl_consumed_at r = None \<and>
         cl_active r = Some generation_id)
       (\<lambda>r. r\<lparr>cl_status := ClaimAvailable, cl_active := None, cl_updated_at := now\<rparr>)"

definition release_user_claims :: "string \<Rightarrow> string \<Rightarrow> claim_row list \<Rightarrow> claim_row list option" where
  "release_user_claims user_id now =
     update_claims
       (\<lambda>r. cl_user r = user_id \<and> cl_status r = ClaimReserved \<and> cl_consumed_at r = None)
       (\<lambda>r. r\<lparr>cl_status := ClaimAvailable, cl_active := None, cl_updated_at := now\<rparr>)"

definition release_user_regenerations :: "string \<Rightarrow> string \<Rightarrow> claim_row list \<Rightarrow> claim_row list option" where
  "release_user_regenerations user_id now =
     update_claims
       (\<lambda>r. cl_user r = user_id \<and> cl_status r = ClaimAccepted \<and> cl_consumed_at r \<noteq> None \<and> cl_pending r \<noteq> None)
       (\<lambda>r. r\<lparr>cl_pending := None, cl_updated_at := now\<rparr>)"

definition reserve_regeneration ::
  "string \<Rightarrow> string \<Rightarrow> string \<Rightarrow> string \<Rightarrow> string \<Rightarrow> string \<Rightarrow> claim_row list \<Rightarrow> claim_row list option" where
  "reserve_regeneration claim_id user_id fingerprint chart_id generation_id now =
     update_claims
       (\<lambda>r. cl_id r = claim_id \<and> cl_user r = user_id \<and> cl_fingerprint r = fingerprint \<and>
         cl_status r = ClaimAccepted \<and> cl_consumed_at r \<noteq> None \<and> cl_pending r = None)
       (\<lambda>r. r\<lparr>cl_pending := Some generation_id, cl_last_chart := Some chart_id, cl_updated_at := now\<rparr>)"

definition release_regeneration ::
  "string \<Rightarrow> string \<Rightarrow> string \<Rightarrow> string \<Rightarrow> claim_row list \<Rightarrow> claim_row list option" where
  "release_regeneration claim_id user_id generation_id now =
     update_claims
       (\<lambda>r. cl_id r = claim_id \<and> cl_user r = user_id \<and> cl_status r = ClaimAccepted \<and> cl_consumed_at r \<noteq> None \<and>
         cl_pending r = Some generation_id)
       (\<lambda>r. r\<lparr>cl_pending := None, cl_updated_at := now\<rparr>)"

definition accept_claim ::
  "string \<Rightarrow> string \<Rightarrow> string \<Rightarrow> string \<Rightarrow> claim_row list \<Rightarrow> claim_row list option" where
  "accept_claim claim_id user_id generation_id now =
     update_claims
       (\<lambda>r. cl_id r = claim_id \<and> cl_user r = user_id \<and> cl_status r = ClaimReserved \<and> cl_consumed_at r = None \<and>
         cl_active r = Some generation_id)
       (\<lambda>r. r\<lparr>cl_status := ClaimAccepted, cl_active := None, cl_consumed_at := Some now,
         cl_accepted_at := Some now, cl_updated_at := now\<rparr>)"

text \<open>The three terminal transitions differ in the status and in the column \<open>status_at\<close>.\<close>

datatype claim_end = EndDeleted | EndSuperseded | EndWithdrawn

fun end_status :: "claim_end \<Rightarrow> claim_status" where
  "end_status EndDeleted = ClaimDeleted"
| "end_status EndSuperseded = ClaimSuperseded"
| "end_status EndWithdrawn = ClaimWithdrawn"

fun stamp_end :: "claim_end \<Rightarrow> string \<Rightarrow> claim_row \<Rightarrow> claim_row" where
  "stamp_end EndDeleted now r = r\<lparr>cl_deleted_at := Some now\<rparr>"
| "stamp_end EndSuperseded now r = r\<lparr>cl_superseded_at := Some now\<rparr>"
| "stamp_end EndWithdrawn now r = r\<lparr>cl_withdrawn_at := Some now\<rparr>"

definition terminal_transition ::
  "claim_end \<Rightarrow> string \<Rightarrow> string \<Rightarrow> string \<Rightarrow> claim_row list \<Rightarrow> claim_row list option" where
  "terminal_transition e claim_id user_id now =
     update_claims
       (\<lambda>r. cl_id r = claim_id \<and> cl_user r = user_id \<and> cl_status r = ClaimAccepted \<and> cl_consumed_at r \<noteq> None)
       (\<lambda>r. (stamp_end e now r)\<lparr>cl_status := end_status e, cl_updated_at := now\<rparr>)"

section \<open>The writers respect the trigger\<close>

definition claim_ok :: "claim_row \<Rightarrow> bool" where
  "claim_ok r = (claim_check r \<and> (cl_pending r \<noteq> None \<longrightarrow> cl_status r = ClaimAccepted))"

text \<open>An update that only applies where the trigger and the constraints allow it never aborts.\<close>

lemma update_claims_total:
  assumes "list_all claim_ok rows" and "\<And>r. claim_ok r \<Longrightarrow> sel r \<Longrightarrow> claim_guard r (upd r) \<and> claim_check (upd r)"
  shows "update_claims sel upd rows = Some (sql_update sel upd rows)"
  using assms by (auto simp: update_claims_def list_all_iff)

lemma guard_keeps_ok:
  assumes "claim_guard r s" and "claim_check s"
  shows "claim_ok s"
proof -
  have "cl_status s \<noteq> ClaimAccepted \<longrightarrow> cl_pending s = None"
    using assms(1) unfolding claim_guard_def by (elim conjE)
  then show ?thesis using assms(2) by (auto simp: claim_ok_def)
qed

lemma update_claims_Some:
  assumes "update_claims sel upd rows = Some rows'"
  shows "rows' = sql_update sel upd rows"
    and "r \<in> set rows \<Longrightarrow> sel r \<Longrightarrow> claim_guard r (upd r)" and "r \<in> set rows \<Longrightarrow> sel r \<Longrightarrow> claim_check (upd r)"
  using assms by (simp_all add: update_claims_def list_all_iff split: if_splits)

lemma update_claims_none:
  assumes "\<And>r. r \<in> set rows \<Longrightarrow> \<not> sel r"
  shows "update_claims sel upd rows = Some rows"
  using assms by (auto simp: update_claims_def sql_update_def list_all_iff intro!: map_idI)

lemma update_claims_ok:
  assumes "update_claims sel upd rows = Some rows'" and "list_all claim_ok rows"
  shows "list_all claim_ok rows'"
proof -
  have "\<forall>r \<in> set rows. claim_ok (if sel r then upd r else r)"
    using assms(2) guard_keeps_ok [OF update_claims_Some(2,3) [OF assms(1)]] by (simp add: list_all_iff)
  then show ?thesis
    by (auto simp only: update_claims_Some(1) [OF assms(1)] sql_update_def list_all_iff set_map)
qed

lemmas claim_simps = claim_guard_def claim_check_def claim_ok_def claim_edge_def stamped_def is_consumed_status_def

lemma writers_total:
  assumes "list_all claim_ok rows"
  shows "reserve_existing_claim c u fp ch g now rows \<noteq> None"
    and "release_unconsumed_claim c u g now rows \<noteq> None"
    and "release_user_claims u now rows \<noteq> None"
    and "release_user_regenerations u now rows \<noteq> None"
    and "reserve_regeneration c u fp ch g now rows \<noteq> None"
    and "release_regeneration c u g now rows \<noteq> None"
    and "accept_claim c u g now rows \<noteq> None"
  unfolding reserve_existing_claim_def release_unconsumed_claim_def release_user_claims_def
    release_user_regenerations_def reserve_regeneration_def release_regeneration_def accept_claim_def
  by (subst update_claims_total [OF assms]; auto simp: claim_simps)+

lemma terminal_aborts_iff:
  assumes "list_all claim_ok rows"
  shows "terminal_transition e c u now rows = None \<longleftrightarrow>
    list_ex (\<lambda>r. cl_id r = c \<and> cl_user r = u \<and> cl_status r = ClaimAccepted \<and> cl_pending r \<noteq> None) rows"
proof -
  have "claim_guard r ((stamp_end e now r)\<lparr>cl_status := end_status e, cl_updated_at := now\<rparr>) \<and>
      claim_check ((stamp_end e now r)\<lparr>cl_status := end_status e, cl_updated_at := now\<rparr>) \<longleftrightarrow> cl_pending r = None"
    if "r \<in> set rows" "cl_status r = ClaimAccepted" for r
    using that assms by (cases e) (auto simp: claim_simps list_all_iff)
  moreover have "cl_status r = ClaimAccepted \<Longrightarrow> cl_consumed_at r \<noteq> None" if "r \<in> set rows" for r
    using that assms by (auto simp: claim_simps list_all_iff)
  ultimately show ?thesis
    by (auto simp: terminal_transition_def update_claims_def list_all_iff list_ex_iff)
qed

section \<open>Sequences of statements\<close>

text \<open>The statements as values, and the one that runs them.\<close>

datatype claim_op =
    OpReserveNew string string string string string
  | OpReserveExisting string string string string string
  | OpRelease string string string
  | OpReleaseUser string
  | OpReleaseUserRegenerations string
  | OpReserveRegeneration string string string string string
  | OpReleaseRegeneration string string string
  | OpAccept string string string
  | OpEnd claim_end string string

fun exec_claim :: "claim_op \<Rightarrow> string \<Rightarrow> claim_row list \<Rightarrow> claim_row list option" where
  "exec_claim (OpReserveNew c u fp ch g) now = reserve_new_claim c u fp ch g now"
| "exec_claim (OpReserveExisting c u fp ch g) now = reserve_existing_claim c u fp ch g now"
| "exec_claim (OpRelease c u g) now = release_unconsumed_claim c u g now"
| "exec_claim (OpReleaseUser u) now = release_user_claims u now"
| "exec_claim (OpReleaseUserRegenerations u) now = release_user_regenerations u now"
| "exec_claim (OpReserveRegeneration c u fp ch g) now = reserve_regeneration c u fp ch g now"
| "exec_claim (OpReleaseRegeneration c u g) now = release_regeneration c u g now"
| "exec_claim (OpAccept c u g) now = accept_claim c u g now"
| "exec_claim (OpEnd e c u) now = terminal_transition e c u now"

inductive claim_history :: "claim_row list \<Rightarrow> claim_row list \<Rightarrow> bool" for rows where
  unchanged: "claim_history rows rows"
| statement: "claim_history rows rows1 \<Longrightarrow> exec_claim op now rows1 = Some rows2 \<Longrightarrow> claim_history rows rows2"

text \<open>What every statement does to a row it finds: nothing, or an edge the trigger allows.\<close>

lemma update_claims_row:
  assumes "update_claims sel upd rows = Some rows'" and "r \<in> set rows"
  shows "\<exists>r' \<in> set rows'. r' = r \<or> claim_guard r r'"
proof -
  have "(if sel r then upd r else r) \<in> set rows'"
    using assms(2) unfolding update_claims_Some(1) [OF assms(1)] sql_update_def set_map by (rule imageI)
  then show ?thesis
    using update_claims_Some(2) [OF assms] by (metis (full_types))
qed

lemma update_claims_keys:
  assumes "update_claims sel upd rows = Some rows'"
  shows "map cl_id rows' = map cl_id rows" and "map (\<lambda>r. (cl_user r, cl_fingerprint r)) rows' =
    map (\<lambda>r. (cl_user r, cl_fingerprint r)) rows"
  using assms
  by (auto simp: update_claims_def sql_update_def list_all_iff claim_guard_def split: if_splits)

lemma exec_claim_shape:
  assumes "exec_claim op now rows = Some rows'"
  shows "(\<exists>sel upd. update_claims sel upd rows = Some rows') \<or>
    (\<exists>r. rows' = rows @ [r] \<and> claim_ok r \<and> cl_id r \<notin> cl_id ` set rows \<and>
      (cl_user r, cl_fingerprint r) \<notin> (\<lambda>r. (cl_user r, cl_fingerprint r)) ` set rows)"
proof (cases op)
  case (OpReserveNew c u fp ch g)
  then show ?thesis
    using assms by (auto simp: reserve_new_claim_def claim_simps list_ex_iff split: if_splits)
qed (use assms in \<open>simp only: exec_claim.simps reserve_existing_claim_def release_unconsumed_claim_def
    release_user_claims_def release_user_regenerations_def reserve_regeneration_def release_regeneration_def
    accept_claim_def terminal_transition_def, blast\<close>)+

lemma exec_claim_row:
  assumes "exec_claim op now rows = Some rows'" and "r \<in> set rows"
  shows "\<exists>r' \<in> set rows'. r' = r \<or> claim_guard r r'"
  using exec_claim_shape [OF assms(1)] update_claims_row [OF _ assms(2)] assms(2)
  by (auto; blast)

definition table_ok :: "claim_row list \<Rightarrow> bool" where
  "table_ok rows = (list_all claim_ok rows \<and> distinct (map cl_id rows) \<and>
     distinct (map (\<lambda>r. (cl_user r, cl_fingerprint r)) rows))"

lemma exec_claim_ok:
  assumes "exec_claim op now rows = Some rows'" and "table_ok rows"
  shows "table_ok rows'"
  using exec_claim_shape [OF assms(1)]
proof (elim disjE exE conjE)
  fix sel upd assume u: "update_claims sel upd rows = Some rows'"
  then show ?thesis
    using assms(2) update_claims_keys [OF u] update_claims_ok [OF u] by (simp add: table_ok_def)
next
  fix r assume "rows' = rows @ [r]" "claim_ok r" "cl_id r \<notin> cl_id ` set rows"
    "(cl_user r, cl_fingerprint r) \<notin> (\<lambda>r. (cl_user r, cl_fingerprint r)) ` set rows"
  then show ?thesis using assms(2) by (auto simp: table_ok_def)
qed

lemma history_ok: "claim_history rows rows' \<Longrightarrow> table_ok rows \<Longrightarrow> table_ok rows'"
  by (induction rule: claim_history.induct) (auto dest: exec_claim_ok)

text \<open>A consumed row stays consumed, at the same instant, and an ended one keeps its status.\<close>

definition later_than :: "claim_row \<Rightarrow> claim_row \<Rightarrow> bool" where
  "later_than r r' =
     (cl_id r' = cl_id r \<and> cl_user r' = cl_user r \<and> cl_fingerprint r' = cl_fingerprint r \<and>
      (cl_consumed_at r \<noteq> None \<longrightarrow> cl_consumed_at r' = cl_consumed_at r) \<and>
      (cl_status r \<in> {ClaimDeleted, ClaimSuperseded, ClaimWithdrawn} \<longrightarrow> cl_status r' = cl_status r))"

lemma guard_parts:
  assumes "claim_guard r s"
  shows "cl_id s = cl_id r" and "cl_user s = cl_user r" and "cl_fingerprint s = cl_fingerprint r"
    and "claim_edge (cl_status r) (cl_status s)"
    and "cl_status r \<noteq> ClaimReserved \<Longrightarrow> cl_consumed_at s = cl_consumed_at r"
proof -
  note g = assms [unfolded claim_guard_def]
  show "cl_id s = cl_id r" "cl_user s = cl_user r" "cl_fingerprint s = cl_fingerprint r"
    "claim_edge (cl_status r) (cl_status s)"
    using g by blast+
  have "if cl_status r = ClaimReserved \<and> cl_status s = ClaimAccepted
       then cl_consumed_at s \<noteq> None \<and> cl_accepted_at s \<noteq> None
       else cl_consumed_at s = cl_consumed_at r \<and> cl_accepted_at s = cl_accepted_at r"
    using g by (elim conjE)
  then show "cl_status r \<noteq> ClaimReserved \<Longrightarrow> cl_consumed_at s = cl_consumed_at r" by simp
qed

lemma guard_later:
  assumes "claim_ok r" and "claim_guard r s"
  shows "later_than r s"
proof -
  have "cl_consumed_at r \<noteq> None \<Longrightarrow> cl_status r \<noteq> ClaimReserved"
    using assms(1) by (auto simp: claim_ok_def claim_check_def is_consumed_status_def)
  then show ?thesis
    using guard_parts [OF assms(2)] by (auto simp: later_than_def claim_edge_def)
qed

lemma history_row:
  assumes "claim_history rows rows'" and "table_ok rows" and "r \<in> set rows"
  shows "\<exists>r' \<in> set rows'. later_than r r'"
  using assms(1)
proof (induction rule: claim_history.induct)
  case unchanged
  then show ?case using assms(3) by (auto simp: later_than_def)
next
  case (statement rows1 op now rows2)
  then obtain r1 where r1: "r1 \<in> set rows1" "later_than r r1" by blast
  have ok: "claim_ok r1"
    using history_ok [OF statement.hyps(1) assms(2)] r1(1) by (auto simp: table_ok_def list_all_iff)
  obtain r2 where r2: "r2 \<in> set rows2" "r2 = r1 \<or> claim_guard r1 r2"
    using exec_claim_row [OF statement.hyps(2) r1(1)] by blast
  then have "later_than r1 r2"
    using guard_later [OF ok] by (auto simp: later_than_def)
  then have "later_than r r2"
    using r1(2) by (auto simp: later_than_def)
  then show ?case using r2(1) by blast
qed

section \<open>Properties\<close>

definition example_claim :: claim_row where
  "example_claim = \<lparr>cl_id = ''clm'', cl_user = ''u'', cl_fingerprint = ''fp'', cl_last_chart = Some ''c'',
     cl_status = ClaimAccepted, cl_active = None, cl_pending = Some ''gen2'', cl_consumed_at = Some ''t0'',
     cl_accepted_at = Some ''t0'', cl_deleted_at = None, cl_superseded_at = None, cl_withdrawn_at = None,
     cl_created_at = ''t0'', cl_updated_at = ''t1''\<rparr>"

lemma example_table_ok: "table_ok [example_claim]"
  by (simp add: table_ok_def claim_simps example_claim_def)





end
