(* ===== verification/Pattern_Jobs.thy ===== *)
theory Pattern_Jobs
  imports Stage_Protocol Pattern_Claims
begin

text \<open>
  The job rows of Pattern generation and the batches that write them: \<open>claimStage\<close>,
  \<open>parkPatternGeneration\<close> and the publication batch of \<open>services/pattern-execute.ts\<close>,
  \<open>commitPatternTransition\<close> of \<open>services/pattern-stage-protocol.ts\<close>, the reservation of
  \<open>services/pattern-enqueue.ts\<close>, the cancellation of \<open>services/pattern-lifecycle.ts\<close> and the sweep of
  \<open>services/pattern-sweep.ts\<close>.

  A batch is one transaction: its statements run in order on the store, and an abort of one of them
  (a probe row, a constraint or a trigger) leaves the store as it was. Instants are the ISO strings the
  statements bind; columns and tables the statements do not compare are left out.
\<close>

section \<open>The store\<close>

definition pattern_job_type :: string where
  "pattern_job_type = ''generate_pattern''"

record job_row =
  jb_id :: string
  jb_user :: string
  jb_type :: string
  jb_status :: job_status
  jb_token :: "string option"
  jb_lease :: "string option"
  jb_available :: "string option"
  jb_dispatched :: "string option"
  jb_started :: "string option"
  jb_finished :: "string option"
  jb_result_class :: "string option"
  jb_attempts :: nat

text \<open>\<open>PatternJobRow extends PatternStageState\<close>, with the columns the transitions write.\<close>

record gen_row = stage_state +
  gr_job_id :: string
  gr_user :: string
  gr_claim :: string
  gr_reason :: string
  gr_updated_at :: string
  gr_finished_at :: "string option"
  gr_public_failure :: "string option"
  gr_failure_class :: "string option"
  gr_cancellation :: "string option"
  gr_retention :: "string option"

definition stage_of :: "gen_row \<Rightarrow> stage_state" where
  "stage_of g = stage_state.truncate g"

text \<open>\<open>db_active\<close>: the accounts that are active and not fenced for a key rotation.\<close>

record store =
  db_jobs :: "job_row list"
  db_gens :: "gen_row list"
  db_claims :: "claim_row list"
  db_active :: "string list"

type_synonym statement = "store \<Rightarrow> store option"

definition run_batch :: "statement list \<Rightarrow> statement" where
  "run_batch ss s = fold (\<lambda>st acc. Option.bind acc st) ss (Some s)"

text \<open>\<open>INSERT INTO assertion_probe ... WHERE NOT ...\<close> aborts unless the condition holds.\<close>

definition probe :: "(store \<Rightarrow> bool) \<Rightarrow> statement" where
  "probe cond s = (if cond s then Some s else None)"

definition update_jobs :: "(job_row \<Rightarrow> bool) \<Rightarrow> (job_row \<Rightarrow> job_row) \<Rightarrow> statement" where
  "update_jobs sel upd s = Some (s\<lparr>db_jobs := sql_update sel upd (db_jobs s)\<rparr>)"

definition update_gens :: "(gen_row \<Rightarrow> bool) \<Rightarrow> (gen_row \<Rightarrow> gen_row) \<Rightarrow> statement" where
  "update_gens sel upd s = Some (s\<lparr>db_gens := sql_update sel upd (db_gens s)\<rparr>)"

definition on_claims :: "(claim_row list \<Rightarrow> claim_row list option) \<Rightarrow> statement" where
  "on_claims st s = map_option (\<lambda>rows. s\<lparr>db_claims := rows\<rparr>) (st (db_claims s))"

definition finished_stage :: "domain_stage \<Rightarrow> bool" where
  "finished_stage st = (st \<in> {Succeeded, Failed, Cancelled})"

definition unless_set :: "'a option \<Rightarrow> 'a \<Rightarrow> 'a option" where
  "unless_set old v = (case old of None \<Rightarrow> Some v | Some x \<Rightarrow> Some x)"

section \<open>Committing a transition\<close>

definition ownership_probes :: "gen_row \<Rightarrow> string \<Rightarrow> statement list" where
  "ownership_probes job token =
     [probe (\<lambda>s. list_ex (\<lambda>j. jb_id j = gr_job_id job \<and> jb_token j = Some token \<and> jb_status j = JobRunning \<and>
        jb_type j = pattern_job_type) (db_jobs s)),
      probe (\<lambda>s. list_ex (\<lambda>g. ss_generation_id g = ss_generation_id job \<and>
        ss_stage_generation g = ss_stage_generation job \<and> \<not> finished_stage (ss_stage g)) (db_gens s))]"

definition job_mutation :: "transition_effect \<Rightarrow> string \<Rightarrow> job_row \<Rightarrow> job_row" where
  "job_mutation e now j =
     j\<lparr>jb_status := te_job_status e, jb_token := None, jb_lease := None,
       jb_dispatched := (if te_clear_dispatched e then None else jb_dispatched j),
       jb_available := (case te_available_at e of None \<Rightarrow> jb_available j | Some a \<Rightarrow> map_option iso_string a),
       jb_finished := (if te_finish e then Some now else jb_finished j),
       jb_result_class := (if te_result_class e \<noteq> None then te_result_class e else jb_result_class j)\<rparr>"

definition gen_mutation :: "transition_effect \<Rightarrow> string \<Rightarrow> gen_row \<Rightarrow> gen_row" where
  "gen_mutation e now g =
     (let next = te_next e in
      g\<lparr>ss_stage := ss_stage next, ss_stage_generation := ss_stage_generation next,
        ss_planner_attempts := ss_planner_attempts next, ss_writer_attempts := ss_writer_attempts next,
        ss_verifier_attempts := ss_verifier_attempts next, ss_plan_hash := ss_plan_hash next,
        ss_candidate_hash := ss_candidate_hash next, ss_verdict_hash := ss_verdict_hash next,
        gr_updated_at := now,
        gr_finished_at := (if te_finish e then Some now else gr_finished_at g),
        gr_public_failure := (case te_public_failure e of None \<Rightarrow> gr_public_failure g | Some p \<Rightarrow> Some (public_stage_str p)),
        gr_failure_class := (if te_result_class e \<noteq> None then te_result_class e else gr_failure_class g),
        gr_cancellation := (case te_cancellation e of None \<Rightarrow> gr_cancellation g | Some r \<Rightarrow> Some (cancellation_str r)),
        gr_retention := (case te_retention e of None \<Rightarrow> gr_retention g | Some t \<Rightarrow> Some (iso_string t))\<rparr>)"

definition release_for :: "gen_row \<Rightarrow> string \<Rightarrow> statement" where
  "release_for job now =
     on_claims (if gr_reason job = ''source_update''
       then release_regeneration (gr_claim job) (gr_user job) (ss_generation_id job) now
       else release_unconsumed_claim (gr_claim job) (gr_user job) (ss_generation_id job) now)"

definition transition_mutations :: "gen_row \<Rightarrow> string \<Rightarrow> transition_effect \<Rightarrow> string \<Rightarrow> statement list" where
  "transition_mutations job token e now =
     [update_jobs (\<lambda>j. jb_id j = gr_job_id job \<and> jb_token j = Some token \<and> jb_status j = JobRunning) (job_mutation e now),
      update_gens (\<lambda>g. ss_generation_id g = ss_generation_id job \<and> ss_stage_generation g = ss_stage_generation job \<and>
        \<not> finished_stage (ss_stage g)) (gen_mutation e now)] @
     (if te_release_claim e then [release_for job now] else [])"

definition build_transition_statements ::
  "gen_row \<Rightarrow> string \<Rightarrow> pattern_transition \<Rightarrow> int \<Rightarrow> string + (transition_effect \<times> statement list \<times> statement list)" where
  "build_transition_statements job token tr now =
     and_then (plan_pattern_transition (stage_of job) tr now) (\<lambda>e.
       Inr (e, ownership_probes job token, transition_mutations job token e (iso_string now)))"

text \<open>The effect or \<open>null\<close>, with the store behind it; a \<open>publish\<close> is refused with an exception.\<close>

definition commit_pattern_transition ::
  "gen_row \<Rightarrow> string \<Rightarrow> pattern_transition \<Rightarrow> int \<Rightarrow> store \<Rightarrow> string + (transition_effect option \<times> store)" where
  "commit_pattern_transition job token tr now s =
     (case tr of
        PublishStage h v \<Rightarrow> Inl ''publish transition requires atomic publication composition''
      | _ \<Rightarrow>
         (case build_transition_statements job token tr now of
            Inl _ \<Rightarrow> Inr (None, s)
          | Inr (e, guards, mutations) \<Rightarrow>
             (case run_batch (guards @ mutations) s of None \<Rightarrow> Inr (None, s) | Some s' \<Rightarrow> Inr (Some e, s'))))"

section \<open>Publication\<close>

text \<open>
  The conditions of the authorization guard on these tables; those on charts, consents, ontology releases,
  locale and documents, and the other statements of the batch, are the argument \<open>others\<close>.
\<close>

definition publication_guard :: "gen_row \<Rightarrow> bool \<Rightarrow> statement" where
  "publication_guard job others =
     probe (\<lambda>s. others \<and>
       list_ex (\<lambda>g. ss_generation_id g = ss_generation_id job \<and> gr_job_id g = gr_job_id job \<and>
         gr_claim g = gr_claim job \<and> gr_user g \<in> set (db_active s) \<and>
         list_ex (\<lambda>j. jb_id j = gr_job_id g \<and> jb_status j = JobRunning) (db_jobs s) \<and>
         list_ex (\<lambda>c. cl_id c = gr_claim g \<and> cl_user c = gr_user g \<and>
           (gr_reason g \<noteq> ''source_update'' \<and> cl_status c = ClaimReserved \<and> cl_consumed_at c = None \<and>
              cl_active c = Some (ss_generation_id g) \<or>
            gr_reason g = ''source_update'' \<and> cl_status c = ClaimAccepted \<and> cl_consumed_at c \<noteq> None \<and>
              cl_pending c = Some (ss_generation_id g))) (db_claims s)) (db_gens s))"

definition publication_claim :: "gen_row \<Rightarrow> string \<Rightarrow> statement" where
  "publication_claim job generated_at =
     on_claims (if gr_reason job = ''source_update''
       then release_regeneration (gr_claim job) (gr_user job) (ss_generation_id job) generated_at
       else accept_claim (gr_claim job) (gr_user job) (ss_generation_id job) generated_at)"

definition publish_pattern ::
  "gen_row \<Rightarrow> string \<Rightarrow> string \<Rightarrow> string \<Rightarrow> bool \<Rightarrow> int \<Rightarrow> string \<Rightarrow> store \<Rightarrow> store option" where
  "publish_pattern job token candidate_hash verdict_hash others now generated_at s =
     (case build_transition_statements job token (PublishStage candidate_hash verdict_hash) now of
        Inl _ \<Rightarrow> None
      | Inr (e, guards, mutations) \<Rightarrow>
          run_batch ([publication_guard job others] @ guards @ [publication_claim job generated_at] @ mutations) s)"

section \<open>Claiming and parking a delivery\<close>

record queue_message =
  qm_job_id :: string
  qm_generation_id :: string
  qm_stage_generation :: nat

datatype stage_claim = ClaimedStage string gen_row | DuplicateDelivery | RetryDelivery

definition claim_lease_ms :: int where
  "claim_lease_ms = 5 * 60 * 1000"

definition load_pattern_job :: "string \<Rightarrow> store \<Rightarrow> gen_row option" where
  "load_pattern_job gid s = List.find (\<lambda>g. ss_generation_id g = gid) (db_gens s)"

definition names_live_stage :: "queue_message \<Rightarrow> store \<Rightarrow> bool" where
  "names_live_stage m s =
     list_ex (\<lambda>g. ss_generation_id g = qm_generation_id m \<and> gr_job_id g = qm_job_id m \<and>
       ss_stage_generation g = qm_stage_generation m \<and> \<not> finished_stage (ss_stage g)) (db_gens s)"

definition claimable :: "queue_message \<Rightarrow> string \<Rightarrow> store \<Rightarrow> job_row \<Rightarrow> bool" where
  "claimable m now s j =
     (jb_id j = qm_job_id m \<and> jb_type j = pattern_job_type \<and>
      (case jb_available j of None \<Rightarrow> True | Some a \<Rightarrow> a \<le> now) \<and>
      (jb_status j = JobQueued \<or>
       jb_status j = JobRunning \<and> (case jb_lease j of None \<Rightarrow> False | Some l \<Rightarrow> l < now)) \<and>
      jb_user j \<in> set (db_active s) \<and> names_live_stage m s)"

definition claim_mutation :: "string \<Rightarrow> string \<Rightarrow> string \<Rightarrow> job_row \<Rightarrow> job_row" where
  "claim_mutation token lease now j =
     j\<lparr>jb_status := JobRunning, jb_token := Some token, jb_lease := Some lease, jb_available := None,
       jb_started := unless_set (jb_started j) now,
       jb_result_class := (if jb_result_class j = Some ''pattern_generation_paused'' then None else jb_result_class j),
       jb_attempts := jb_attempts j + 1, jb_dispatched := unless_set (jb_dispatched j) now\<rparr>"

definition stage_moved_on :: "queue_message \<Rightarrow> store \<Rightarrow> bool" where
  "stage_moved_on m s =
     (case load_pattern_job (qm_generation_id m) s of
        None \<Rightarrow> True
      | Some g \<Rightarrow> \<not> pattern_delivery_is_current g (qm_generation_id m) (qm_stage_generation m))"

definition claim_stage :: "queue_message \<Rightarrow> string \<Rightarrow> int \<Rightarrow> store \<Rightarrow> stage_claim \<times> store" where
  "claim_stage m token now s =
     (let now_iso = iso_string now; lease = iso_string (now + claim_lease_ms) in
      if \<not> names_live_stage m s then (if stage_moved_on m s then DuplicateDelivery else RetryDelivery, s)
      else (let s1 = s\<lparr>db_jobs := sql_update (claimable m now_iso s) (claim_mutation token lease now_iso) (db_jobs s),
                   db_gens := sql_update (\<lambda>g. ss_generation_id g = qm_generation_id m \<and> gr_job_id g = qm_job_id m \<and>
                     ss_stage_generation g = qm_stage_generation m \<and> \<not> finished_stage (ss_stage g))
                     (\<lambda>g. g\<lparr>gr_updated_at := now_iso\<rparr>) (db_gens s)\<rparr> in
        if \<not> list_ex (claimable m now_iso s) (db_jobs s) then (DuplicateDelivery, s1)
        else (case load_pattern_job (qm_generation_id m) s1 of
          None \<Rightarrow> (DuplicateDelivery, s1)
        | Some g \<Rightarrow> if ss_stage_generation g \<noteq> qm_stage_generation m then (DuplicateDelivery, s1)
            else (ClaimedStage token g, s1))))"

definition park_pattern_generation :: "queue_message \<Rightarrow> int \<Rightarrow> string option \<Rightarrow> store \<Rightarrow> store" where
  "park_pattern_generation m now token s =
     s\<lparr>db_jobs := sql_update
       (\<lambda>j. jb_id j = qm_job_id m \<and> jb_type j = pattern_job_type \<and>
         (jb_status j = JobQueued \<and> jb_token j = None \<or>
          jb_status j = JobRunning \<and> (case jb_lease j of None \<Rightarrow> False | Some l \<Rightarrow> iso_string now < l) \<and>
            token \<noteq> None \<and> jb_token j = token) \<and>
         list_ex (\<lambda>g. gr_job_id g = jb_id j \<and> ss_generation_id g = qm_generation_id m \<and>
           ss_stage_generation g = qm_stage_generation m \<and> \<not> finished_stage (ss_stage g)) (db_gens s))
       (\<lambda>j. j\<lparr>jb_status := JobQueued, jb_token := None, jb_lease := None, jb_dispatched := None,
         jb_result_class := Some ''pattern_generation_paused''\<rparr>) (db_jobs s)\<rparr>"

section \<open>Reservation, cancellation and the sweep\<close>

definition insert_job :: "string \<Rightarrow> string \<Rightarrow> statement" where
  "insert_job job_id user_id s =
     (if list_ex (\<lambda>j. jb_id j = job_id) (db_jobs s) then None
      else Some (s\<lparr>db_jobs := db_jobs s @
        [\<lparr>jb_id = job_id, jb_user = user_id, jb_type = pattern_job_type, jb_status = JobQueued, jb_token = None,
          jb_lease = None, jb_available = None, jb_dispatched = None, jb_started = None, jb_finished = None,
          jb_result_class = None, jb_attempts = 0\<rparr>]\<rparr>))"

definition insert_generation :: "string \<Rightarrow> string \<Rightarrow> string \<Rightarrow> string \<Rightarrow> string \<Rightarrow> string \<Rightarrow> statement" where
  "insert_generation generation_id job_id user_id claim_id reason now s =
     (if list_ex (\<lambda>g. ss_generation_id g = generation_id \<or> gr_job_id g = job_id) (db_gens s) then None
      else Some (s\<lparr>db_gens := db_gens s @
        [stage_state.extend (fresh_stage generation_id)
          \<lparr>gr_job_id = job_id, gr_user = user_id, gr_claim = claim_id, gr_reason = reason, gr_updated_at = now,
           gr_finished_at = None, gr_public_failure = None, gr_failure_class = None, gr_cancellation = None,
           gr_retention = None\<rparr>]\<rparr>))"

definition reservation_statements ::
  "bool \<Rightarrow> bool \<Rightarrow> string \<Rightarrow> string \<Rightarrow> string \<Rightarrow> string \<Rightarrow> string \<Rightarrow> string \<Rightarrow> statement list" where
  "reservation_statements source_update existing claim_id user_id fingerprint chart_id generation_id now =
     (if source_update then
        [on_claims (reserve_regeneration claim_id user_id fingerprint chart_id generation_id now),
         probe (\<lambda>s. list_ex (\<lambda>c. cl_id c = claim_id \<and> cl_status c = ClaimAccepted \<and>
           cl_pending c = Some generation_id) (db_claims s))]
      else if \<not> existing then
        [on_claims (reserve_new_claim claim_id user_id fingerprint chart_id generation_id now)]
      else
        [on_claims (reserve_existing_claim claim_id user_id fingerprint chart_id generation_id now),
         probe (\<lambda>s. list_ex (\<lambda>c. cl_id c = claim_id \<and> cl_status c = ClaimReserved \<and>
           cl_active c = Some generation_id) (db_claims s))])"

definition reserve_generation ::
  "bool \<Rightarrow> bool \<Rightarrow> string \<Rightarrow> string \<Rightarrow> string \<Rightarrow> string \<Rightarrow> string \<Rightarrow> string \<Rightarrow> string \<Rightarrow> string \<Rightarrow> statement" where
  "reserve_generation source_update existing claim_id user_id fingerprint chart_id generation_id job_id reason now =
     run_batch (reservation_statements source_update existing claim_id user_id fingerprint chart_id generation_id now @
       [insert_job job_id user_id, insert_generation generation_id job_id user_id claim_id reason now])"

definition in_claim :: "string option \<Rightarrow> gen_row \<Rightarrow> bool" where
  "in_claim claim g = (case claim of None \<Rightarrow> True | Some c \<Rightarrow> gr_claim g = c)"

definition cancel_pattern_work :: "string \<Rightarrow> string option \<Rightarrow> string \<Rightarrow> string \<Rightarrow> statement list" where
  "cancel_pattern_work user_id claim reason now =
     [update_gens (\<lambda>g. gr_user g = user_id \<and> in_claim claim g \<and> \<not> finished_stage (ss_stage g))
        (\<lambda>g. g\<lparr>ss_stage := Cancelled, gr_cancellation := Some reason, gr_updated_at := now, gr_finished_at := Some now\<rparr>),
      (\<lambda>s. update_jobs
        (\<lambda>j. jb_user j = user_id \<and> jb_type j = pattern_job_type \<and> jb_status j \<in> {JobQueued, JobRunning} \<and>
          (claim \<noteq> None \<longrightarrow>
            list_ex (\<lambda>g. gr_job_id g = jb_id j \<and> gr_user g = user_id \<and> in_claim claim g) (db_gens s)))
        (\<lambda>j. j\<lparr>jb_status := JobCancelled, jb_token := None, jb_lease := None, jb_finished := Some now,
          jb_result_class := Some reason\<rparr>) s),
      on_claims (release_user_regenerations user_id now)]"

text \<open>
  The sweep's terminal failure: \<open>row\<close> is what the selector read. A row whose stage has already ended only
  gets its job row repaired and its claim released.
\<close>

definition exhausted_class :: string where
  "exhausted_class = ''stage_attempts_exhausted''"

definition fail_exhausted_statements :: "gen_row \<Rightarrow> int \<Rightarrow> statement list" where
  "fail_exhausted_statements row now =
     (let now_iso = iso_string now;
          effect = (if pattern_stage_owner (ss_stage row) = TerminalOwner then None
            else (case plan_pattern_transition (stage_of row)
                (FailStage exhausted_class (orelse (public_stage_for (ss_stage row)) OrganizingEvidence)) now of
              Inl _ \<Rightarrow> None | Inr e \<Rightarrow> Some e))
      in [update_jobs
            (\<lambda>j. jb_id j = gr_job_id row \<and> jb_type j = pattern_job_type \<and> jb_status j = JobRunning \<and>
              (case jb_lease j of None \<Rightarrow> False | Some l \<Rightarrow> l < now_iso))
            (\<lambda>j. j\<lparr>jb_status := JobFailed, jb_token := None, jb_lease := None, jb_finished := Some now_iso,
              jb_result_class := Some exhausted_class\<rparr>)] @
         (case effect of None \<Rightarrow> []
          | Some e \<Rightarrow> [update_gens (\<lambda>g. ss_generation_id g = ss_generation_id row \<and>
              ss_stage_generation g = ss_stage_generation row \<and> \<not> finished_stage (ss_stage g)) (gen_mutation e now_iso)]) @
         [on_claims (release_unconsumed_claim (gr_claim row) (gr_user row) (ss_generation_id row) now_iso)])"

definition fail_exhausted_job :: "gen_row \<Rightarrow> int \<Rightarrow> statement" where
  "fail_exhausted_job row now s = (case run_batch (fail_exhausted_statements row now) s of None \<Rightarrow> Some s | Some s' \<Rightarrow> Some s')"

section \<open>Maintenance\<close>

definition mark_dispatched :: "string \<Rightarrow> string \<Rightarrow> store \<Rightarrow> store" where
  "mark_dispatched job_id now s =
     s\<lparr>db_jobs := sql_update (\<lambda>j. jb_id j = job_id \<and> jb_status j = JobQueued \<and> jb_dispatched j = None \<and>
         jb_result_class j \<noteq> Some ''rollout_paused'') (\<lambda>j. j\<lparr>jb_dispatched := Some now\<rparr>) (db_jobs s)\<rparr>"

text \<open>\<open>chosen\<close>: the ids that fit the LIMIT of the inner SELECT, whose order the columns kept here do not determine.\<close>

definition recover_pattern_pause_class :: "bool \<Rightarrow> string \<Rightarrow> string set \<Rightarrow> int \<Rightarrow> store \<Rightarrow> store" where
  "recover_pattern_pause_class enabled result_class chosen now s =
     (let now_iso = iso_string now in
      if \<not> enabled then s
      else s\<lparr>db_jobs := sql_update
        (\<lambda>j. jb_id j \<in> chosen \<and> jb_type j = pattern_job_type \<and> jb_result_class j = Some result_class \<and>
          (jb_status j = JobQueued \<or>
           jb_status j = JobRunning \<and> (case jb_lease j of None \<Rightarrow> True | Some l \<Rightarrow> l < now_iso)))
        (\<lambda>j. j\<lparr>jb_available := (case jb_available j of None \<Rightarrow> Some now_iso
             | Some a \<Rightarrow> if a < now_iso then Some now_iso else Some a),
           jb_result_class := None, jb_status := JobQueued, jb_dispatched := None, jb_token := None, jb_lease := None\<rparr>)
        (db_jobs s)\<rparr>)"

text \<open>The payload of the job and the artifact keys are tables the model leaves out.\<close>

definition prune_pattern_job_retention :: "string set \<Rightarrow> string \<Rightarrow> store \<Rightarrow> store" where
  "prune_pattern_job_retention chosen now s =
     s\<lparr>db_gens := sql_update (\<lambda>g. ss_generation_id g \<in> chosen \<and> gr_finished_at g \<noteq> None \<and>
         (case gr_retention g of None \<Rightarrow> False | Some t \<Rightarrow> t \<le> now))
       (\<lambda>g. g\<lparr>gr_retention := None, gr_updated_at := now\<rparr>) (db_gens s)\<rparr>"

text \<open>One row of the expired-lease selector: the job and the generation it runs; a message is sent or the job fails.\<close>

definition max_stage_claims :: nat where
  "max_stage_claims = 16"

definition expired_lease :: "string \<Rightarrow> job_row \<Rightarrow> bool" where
  "expired_lease now j =
     (jb_type j = pattern_job_type \<and> jb_status j = JobRunning \<and>
      (case jb_lease j of None \<Rightarrow> False | Some l \<Rightarrow> l < now) \<and>
      jb_result_class j \<noteq> Some ''rollout_paused'' \<and> jb_result_class j \<noteq> Some ''pattern_generation_paused'')"

definition settle_expired :: "int \<Rightarrow> job_row \<times> gen_row \<Rightarrow> store \<Rightarrow> queue_message list \<times> store" where
  "settle_expired now row s =
     (case row of (j, g) \<Rightarrow>
        if jb_attempts j \<ge> max_stage_claims
        then ([], case fail_exhausted_job g now s of None \<Rightarrow> s | Some s' \<Rightarrow> s')
        else ([\<lparr>qm_job_id = jb_id j, qm_generation_id = ss_generation_id g,
                qm_stage_generation = ss_stage_generation g\<rparr>], s))"

text \<open>The send of an undispatched job, which may fail and then leaves the row to the next sweep.\<close>

definition undispatched :: "string \<Rightarrow> job_row \<Rightarrow> bool" where
  "undispatched now j =
     (jb_type j = pattern_job_type \<and> jb_status j = JobQueued \<and> jb_dispatched j = None \<and>
      jb_result_class j \<noteq> Some ''rollout_paused'' \<and> jb_result_class j \<noteq> Some ''pattern_generation_paused'' \<and>
      (case jb_available j of None \<Rightarrow> True | Some a \<Rightarrow> a \<le> now))"

definition dispatch_job :: "bool \<Rightarrow> string \<Rightarrow> job_row \<times> gen_row \<Rightarrow> store \<Rightarrow> queue_message list \<times> store" where
  "dispatch_job sent now row s =
     (case row of (j, g) \<Rightarrow>
        if sent then ([\<lparr>qm_job_id = jb_id j, qm_generation_id = ss_generation_id g,
            qm_stage_generation = ss_stage_generation g\<rparr>], mark_dispatched (jb_id j) now s)
        else ([], s))"

text \<open>\<open>reconcilePatternGeneration\<close>: the outcome, the messages sent and the store.\<close>

datatype reconcile_result =
    ReconcileNotFound | ReconcilePaused | AlreadyComplete string domain_stage | ReconcileAccepted string domain_stage

definition reconcile_pattern_generation ::
  "bool \<Rightarrow> bool \<Rightarrow> string \<Rightarrow> string \<Rightarrow> store \<Rightarrow> reconcile_result \<times> queue_message list \<times> store" where
  "reconcile_pattern_generation enabled sent gid now s =
     (case load_pattern_job gid s of
        None \<Rightarrow> (ReconcileNotFound, [], s)
      | Some g \<Rightarrow>
         (case List.find (\<lambda>j. jb_id j = gr_job_id g) (db_jobs s) of
            None \<Rightarrow> (ReconcileNotFound, [], s)
          | Some j \<Rightarrow>
              if pattern_stage_owner (ss_stage g) = TerminalOwner \<or> jb_status j \<in> {JobSucceeded, JobFailed, JobCancelled}
              then (AlreadyComplete gid (ss_stage g), [], s)
              else if \<not> enabled then (ReconcilePaused, [], s)
              else if \<not> sent then (ReconcileAccepted gid (ss_stage g), [], s)
              else (ReconcileAccepted gid (ss_stage g),
                [\<lparr>qm_job_id = jb_id j, qm_generation_id = gid, qm_stage_generation = ss_stage_generation g\<rparr>],
                if jb_status j = JobQueued then mark_dispatched (jb_id j) now s else s)))"

section \<open>The service\<close>

text \<open>
  The store with the claim tokens issued so far and the tokens under which a transition was committed, in order.
  A worker's step may use any row it read at any earlier time; a new token is one never issued before. The
  cancellation batch may end in any claim statement, and a claim statement may run on its own.
\<close>

record service =
  sv_store :: store
  sv_issued :: "string list"
  sv_committed :: "string list"

inductive service_step :: "service \<Rightarrow> service \<Rightarrow> bool" where
  reserve: "reserve_generation su ex c u fp ch g j reason now (sv_store v) = Some s \<Longrightarrow>
    service_step v (v\<lparr>sv_store := s\<rparr>)"
| claim: "t \<notin> set (sv_issued v) \<Longrightarrow> claim_stage m t now (sv_store v) = (out, s) \<Longrightarrow>
    service_step v (v\<lparr>sv_store := s, sv_issued := t # sv_issued v\<rparr>)"
| commit: "commit_pattern_transition job t tr now (sv_store v) = Inr (Some e, s) \<Longrightarrow>
    service_step v (v\<lparr>sv_store := s, sv_committed := t # sv_committed v\<rparr>)"
| publish: "publish_pattern job t ch vh others now gen_at (sv_store v) = Some s \<Longrightarrow>
    service_step v (v\<lparr>sv_store := s, sv_committed := t # sv_committed v\<rparr>)"
| park: "service_step v (v\<lparr>sv_store := park_pattern_generation m now t (sv_store v)\<rparr>)"
| cancel: "run_batch (cancel_pattern_work u c reason now @ rest) (sv_store v) = Some s \<Longrightarrow>
    rest = [] \<or> (\<exists>op. rest = [on_claims (exec_claim op now)]) \<Longrightarrow>
    service_step v (v\<lparr>sv_store := s\<rparr>)"
| claim_write: "on_claims (exec_claim op now) (sv_store v) = Some s \<Longrightarrow> service_step v (v\<lparr>sv_store := s\<rparr>)"
| sweep: "settle_expired now row (sv_store v) = (msgs, s) \<Longrightarrow> service_step v (v\<lparr>sv_store := s\<rparr>)"
| dispatch: "dispatch_job sent now row (sv_store v) = (msgs, s) \<Longrightarrow> service_step v (v\<lparr>sv_store := s\<rparr>)"
| recover: "service_step v (v\<lparr>sv_store := recover_pattern_pause_class enabled cls chosen now (sv_store v)\<rparr>)"
| prune: "service_step v (v\<lparr>sv_store := prune_pattern_job_retention chosen now (sv_store v)\<rparr>)"
| reconcile: "reconcile_pattern_generation enabled sent gid now (sv_store v) = (res, msgs, s) \<Longrightarrow>
    service_step v (v\<lparr>sv_store := s\<rparr>)"

definition empty_service :: "string list \<Rightarrow> service" where
  "empty_service active =
     \<lparr>sv_store = \<lparr>db_jobs = [], db_gens = [], db_claims = [], db_active = active\<rparr>, sv_issued = [], sv_committed = []\<rparr>"

definition reachable_service :: "string list \<Rightarrow> service \<Rightarrow> bool" where
  "reachable_service active v = service_step\<^sup>*\<^sup>* (empty_service active) v"

end
