(* ===== verification/Job_Invariants.thy ===== *)
theory Job_Invariants
  imports Pattern_Jobs
begin

text \<open>
  What the job rows, generations and claims satisfy whatever the order in which workers, sweeps, cancellations and
  reservations run: invariants of the reachable service, proved statement by statement and lifted to the batches.
\<close>

section \<open>Batches\<close>

lemma run_batch_simps [simp]:
  "run_batch [] s = Some s"
  "run_batch (st # ss) s = Option.bind (st s) (run_batch ss)"
proof -
  have none: "fold (\<lambda>st acc. Option.bind acc st) ss None = (None :: store option)" for ss
    by (induction ss) simp_all
  show "run_batch [] s = Some s" by (simp add: run_batch_def)
  show "run_batch (st # ss) s = Option.bind (st s) (run_batch ss)"
    by (cases "st s") (simp_all add: run_batch_def none)
qed

lemma run_batch_append [simp]: "run_batch (xs @ ys) s = Option.bind (run_batch xs s) (run_batch ys)"
  by (induction xs arbitrary: s) (simp_all add: Option.bind_eq_Some_conv split: bind_splits)

lemma bind_SomeE:
  assumes "Option.bind x f = Some y"
  obtains z where "x = Some z" and "f z = Some y"
  using assms by (cases x) simp_all

text \<open>A reflexive and transitive relation that every statement of a batch respects holds across the batch.\<close>

lemma run_batch_relates:
  assumes "run_batch ss s = Some s'" and "\<And>s. R s s" and "\<And>a b c. R a b \<Longrightarrow> R b c \<Longrightarrow> R a c"
    and "\<And>st a b. st \<in> set ss \<Longrightarrow> st a = Some b \<Longrightarrow> R a b"
  shows "R s s'"
  using assms(1,4)
proof (induction ss arbitrary: s)
  case Nil
  then show ?case using assms(2) by simp
next
  case (Cons st ss)
  obtain s1 where "st s = Some s1" and rest: "run_batch ss s1 = Some s'"
    using Cons.prems(1) by (auto elim: bind_SomeE)
  then have "R s s1" by (intro Cons.prems(2) [OF list.set_intros(1)])
  moreover have "R s1 s'" by (rule Cons.IH [OF rest]) (rule Cons.prems(2) [OF list.set_intros(2)])
  ultimately show ?case by (rule assms(3))
qed

lemma statement_simps:
  "probe c s = Some s' \<longleftrightarrow> c s \<and> s' = s"
  "update_jobs sel1 upd1 s = Some s' \<longleftrightarrow> s' = s\<lparr>db_jobs := sql_update sel1 upd1 (db_jobs s)\<rparr>"
  "update_gens sel2 upd2 s = Some s' \<longleftrightarrow> s' = s\<lparr>db_gens := sql_update sel2 upd2 (db_gens s)\<rparr>"
  "on_claims f s = Some s' \<longleftrightarrow> (\<exists>rows. f (db_claims s) = Some rows \<and> s' = s\<lparr>db_claims := rows\<rparr>)"
  by (auto simp: probe_def update_jobs_def update_gens_def on_claims_def)

lemma sql_update_in: "r \<in> set (sql_update sel upd rows) \<longleftrightarrow> (\<exists>x \<in> set rows. r = (if sel x then upd x else x))"
  by (auto simp: sql_update_def)

section \<open>Tokens\<close>

text \<open>Only a claim writes a token; every other statement clears one or leaves it with its row and status.\<close>

definition quiet_tokens :: "store \<Rightarrow> store \<Rightarrow> bool" where
  "quiet_tokens s s' =
     (\<forall>j \<in> set (db_jobs s'). jb_token j = None \<or>
       (\<exists>k \<in> set (db_jobs s). jb_id k = jb_id j \<and> jb_token k = jb_token j \<and> jb_status k = jb_status j))"

lemma quiet_tokensD:
  assumes "quiet_tokens s s'" and "j \<in> set (db_jobs s')" and "jb_token j = Some t"
  obtains k where "k \<in> set (db_jobs s)" and "jb_id k = jb_id j" and "jb_token k = Some t" and "jb_status k = jb_status j"
  using bspec [OF assms(1) [unfolded quiet_tokens_def] assms(2)] assms(3) by auto

lemma quiet_tokensI:
  assumes "\<And>j. j \<in> set (db_jobs s') \<Longrightarrow> jb_token j = None \<or> j \<in> set (db_jobs s)"
  shows "quiet_tokens s s'"
  unfolding quiet_tokens_def
proof
  fix j assume "j \<in> set (db_jobs s')"
  from assms [OF this] show "jb_token j = None \<or>
      (\<exists>k \<in> set (db_jobs s). jb_id k = jb_id j \<and> jb_token k = jb_token j \<and> jb_status k = jb_status j)"
    by blast
qed

lemma quiet_refl: "quiet_tokens s s"
  by (rule quiet_tokensI) simp

lemma quiet_trans:
  assumes "quiet_tokens a b" and "quiet_tokens b c"
  shows "quiet_tokens a c"
  unfolding quiet_tokens_def
proof (intro ballI disjCI)
  fix j assume j: "j \<in> set (db_jobs c)"
    and n: "\<not> (\<exists>k \<in> set (db_jobs a). jb_id k = jb_id j \<and> jb_token k = jb_token j \<and> jb_status k = jb_status j)"
  show "jb_token j = None"
  proof (rule ccontr)
    assume "jb_token j \<noteq> None"
    then obtain t where t: "jb_token j = Some t" by blast
    obtain k where k: "k \<in> set (db_jobs b)" "jb_id k = jb_id j" "jb_token k = Some t" "jb_status k = jb_status j"
      by (rule quiet_tokensD [OF assms(2) j t])
    obtain l where "l \<in> set (db_jobs a)" "jb_id l = jb_id k" "jb_token l = Some t" "jb_status l = jb_status k"
      by (rule quiet_tokensD [OF assms(1) k(1,3)])
    with n k t show False by auto
  qed
qed

lemma quiet_same_jobs: "db_jobs s' = db_jobs s \<Longrightarrow> quiet_tokens s s'"
  by (rule quiet_tokensI) simp

lemma sql_update_cleared:
  assumes "\<And>j. jb_token (upd j) = None" and "x \<in> set (sql_update sel upd rows)"
  shows "jb_token x = None \<or> x \<in> set rows"
proof -
  obtain y where y: "y \<in> set rows" and x: "x = (if sel y then upd y else y)"
    using assms(2) by (auto simp only: sql_update_in)
  show ?thesis using y by (cases "sel y") (simp_all add: x assms(1))
qed

lemma quiet_update:
  assumes "\<And>j. jb_token (upd j) = None" and "db_jobs s' = sql_update sel upd (db_jobs s)"
  shows "quiet_tokens s s'"
  by (rule quiet_tokensI) (rule sql_update_cleared [OF assms(1)], simp add: assms(2))

lemma quiet_clearing:
  assumes "\<And>j. jb_token (upd j) = None" and "update_jobs sel upd s = Some s'"
  shows "quiet_tokens s s'"
proof -
  have "db_jobs s' = sql_update sel upd (db_jobs s)"
    using assms(2) by (simp add: statement_simps)
  then show ?thesis by (rule quiet_update [OF assms(1)])
qed

lemma quiet_statements:
  "probe cond s = Some s' \<Longrightarrow> quiet_tokens s s'"
  "update_gens sel upd s = Some s' \<Longrightarrow> quiet_tokens s s'"
  "on_claims f s = Some s' \<Longrightarrow> quiet_tokens s s'"
  "insert_generation g jid u cid r now s = Some s' \<Longrightarrow> quiet_tokens s s'"
  by (rule quiet_same_jobs; auto simp: statement_simps insert_generation_def split: if_splits)+

lemma quiet_insert: "insert_job jid u s = Some s' \<Longrightarrow> quiet_tokens s s'"
  by (rule quiet_tokensI) (auto simp: insert_job_def split: if_splits)

lemma job_mutation_token [simp]: "jb_token (job_mutation e now j) = None"
  by (simp add: job_mutation_def)

lemma quiet_mutations:
  "st \<in> set (transition_mutations job t e now) \<Longrightarrow> st a = Some b \<Longrightarrow> quiet_tokens a b"
  "st \<in> set (ownership_probes job t) \<Longrightarrow> st a = Some b \<Longrightarrow> quiet_tokens a b"
  by (auto simp: transition_mutations_def ownership_probes_def release_for_def
      intro: quiet_statements quiet_clearing [OF job_mutation_token] split: if_splits)

lemma quiet_batch:
  assumes "run_batch ss s = Some s'" and "\<And>st a b. st \<in> set ss \<Longrightarrow> st a = Some b \<Longrightarrow> quiet_tokens a b"
  shows "quiet_tokens s s'"
  by (rule run_batch_relates [where R = quiet_tokens, OF assms(1) quiet_refl quiet_trans assms(2)])

lemma quiet_reserve:
  assumes "reserve_generation su ex c u fp ch g j reason now s = Some s'"
  shows "quiet_tokens s s'"
  using assms unfolding reserve_generation_def
  by (rule quiet_batch) (auto simp: reservation_statements_def intro: quiet_statements quiet_insert split: if_splits)

lemma quiet_park: "quiet_tokens s (park_pattern_generation m now t s)"
  unfolding park_pattern_generation_def by (rule quiet_update [rotated], simp, simp)

lemma quiet_cancel_statement:
  assumes "st \<in> set (cancel_pattern_work u c reason now)" and "st a = Some b"
  shows "quiet_tokens a b"
proof -
  from assms(1) consider (gens) sel2 upd2 where "st = update_gens sel2 upd2" | (claims) f where "st = on_claims f"
    | (jobs) sel1 upd1 where "st = (\<lambda>s. update_jobs (sel1 s) upd1 s)" "\<And>j. jb_token (upd1 j) = None"
    unfolding cancel_pattern_work_def by auto
  then show ?thesis
  proof cases
    case gens then show ?thesis using assms(2) quiet_statements(2) by blast
  next
    case claims then show ?thesis using assms(2) quiet_statements(3) by blast
  next
    case jobs
    then have "update_jobs (sel1 a) upd1 a = Some b" using assms(2) by simp
    then show ?thesis by (rule quiet_clearing [OF jobs(2)])
  qed
qed

lemma quiet_cancel:
  assumes "run_batch (cancel_pattern_work u c reason now @ rest) s = Some s'"
    and "rest = [] \<or> (\<exists>op. rest = [on_claims (exec_claim op now)])"
  shows "quiet_tokens s s'"
  using assms(1) by (rule quiet_batch) (use assms(2) in \<open>auto intro: quiet_statements quiet_cancel_statement\<close>)

lemma quiet_fail_exhausted:
  assumes "fail_exhausted_job row now s = Some s'"
  shows "quiet_tokens s s'"
proof (cases "run_batch (fail_exhausted_statements row now) s")
  case None
  then show ?thesis using assms by (simp add: fail_exhausted_job_def quiet_refl)
next
  case (Some s1)
  then have "run_batch (fail_exhausted_statements row now) s = Some s'"
    using assms by (simp add: fail_exhausted_job_def)
  then show ?thesis
  proof (rule quiet_batch)
    fix st a b assume st: "st \<in> set (fail_exhausted_statements row now)" "st a = Some b"
    from st(1) consider (gens) sel2 upd2 where "st = update_gens sel2 upd2" | (claims) f where "st = on_claims f"
      | (jobs) sel1 upd1 where "st = update_jobs sel1 upd1" "\<And>j. jb_token (upd1 j) = None"
      by (auto simp: fail_exhausted_statements_def Let_def split: option.splits)
    then show "quiet_tokens a b"
    proof cases
      case gens then show ?thesis using st(2) quiet_statements(2) by blast
    next
      case claims then show ?thesis using st(2) quiet_statements(3) by blast
    next
      case jobs then show ?thesis using st(2) quiet_clearing by blast
    qed
  qed
qed

lemma quiet_settle: "settle_expired now row s = (msgs, s') \<Longrightarrow> quiet_tokens s s'"
  by (auto simp: settle_expired_def quiet_refl quiet_fail_exhausted split: prod.splits if_splits option.splits)

lemma quiet_mark: "quiet_tokens s (mark_dispatched jid now s)"
proof -
  have "jb_token j = None \<or> (\<exists>k \<in> set (db_jobs s). jb_id k = jb_id j \<and> jb_token k = jb_token j \<and> jb_status k = jb_status j)"
    if j: "j \<in> set (db_jobs (mark_dispatched jid now s))" for j
  proof -
    obtain x where "x \<in> set (db_jobs s)" "j = x \<or> j = x\<lparr>jb_dispatched := Some now\<rparr>"
      using j by (auto simp: mark_dispatched_def sql_update_def split: if_splits)
    then show ?thesis by (intro disjI2 bexI [of _ x]) auto
  qed
  then show ?thesis unfolding quiet_tokens_def by blast
qed

lemma quiet_dispatch: "dispatch_job sent now row s = (msgs, s') \<Longrightarrow> quiet_tokens s s'"
  by (auto simp: dispatch_job_def quiet_refl quiet_mark split: prod.splits if_splits)

lemma quiet_recover: "quiet_tokens s (recover_pattern_pause_class enabled cls chosen now s)"
  by (cases enabled)
    (simp_all add: recover_pattern_pause_class_def quiet_refl Let_def,
     rule quiet_update [rotated], simp, simp)

lemma quiet_prune: "quiet_tokens s (prune_pattern_job_retention chosen now s)"
  by (rule quiet_same_jobs) (simp add: prune_pattern_job_retention_def)

lemma reconcile_store:
  assumes "reconcile_pattern_generation enabled sent gid now s = (res, msgs, s')"
  shows "s' = s \<or> (\<exists>jid. s' = mark_dispatched jid now s)"
  using assms by (auto simp: reconcile_pattern_generation_def split: option.splits if_splits)

lemma quiet_reconcile: "reconcile_pattern_generation enabled sent gid now s = (res, msgs, s') \<Longrightarrow> quiet_tokens s s'"
  using reconcile_store quiet_refl quiet_mark by blast

definition running_token :: "store \<Rightarrow> string \<Rightarrow> string \<Rightarrow> bool" where
  "running_token s jid t = (\<exists>j \<in> set (db_jobs s). jb_id j = jid \<and> jb_token j = Some t \<and> jb_status j = JobRunning)"

lemma same_jobs_batch:
  assumes "run_batch ss s = Some s'" and "\<And>st a b. st \<in> set ss \<Longrightarrow> st a = Some b \<Longrightarrow> db_jobs b = db_jobs a"
  shows "db_jobs s' = db_jobs s"
  by (rule run_batch_relates [where R = "\<lambda>a b. db_jobs b = db_jobs a", OF assms(1)]) (simp, simp, erule (1) assms(2))

lemma probes_then:
  assumes "run_batch (ownership_probes job t @ rest) s = Some s'"
  shows "running_token s (gr_job_id job) t" and "run_batch rest s = Some s'"
    and "list_ex (\<lambda>g. ss_generation_id g = ss_generation_id job \<and>
        ss_stage_generation g = ss_stage_generation job \<and> \<not> finished_stage (ss_stage g)) (db_gens s)"
  using assms
  by (auto simp: ownership_probes_def running_token_def list_ex_iff probe_def split: if_splits)

lemma mutations_clear:
  assumes "run_batch (transition_mutations job t e now) s = Some s'"
  shows "\<not> running_token s' (gr_job_id job) t"
proof -
  define s1 where "s1 = s\<lparr>db_jobs := sql_update
        (\<lambda>j. jb_id j = gr_job_id job \<and> jb_token j = Some t \<and> jb_status j = JobRunning) (job_mutation e now) (db_jobs s)\<rparr>"
  then have s1: "db_jobs s1 = sql_update
        (\<lambda>j. jb_id j = gr_job_id job \<and> jb_token j = Some t \<and> jb_status j = JobRunning) (job_mutation e now) (db_jobs s)"
    by simp
  have rest: "run_batch (tl (transition_mutations job t e now)) s1 = Some s'"
    using assms by (simp add: transition_mutations_def update_jobs_def s1_def)
  have "db_jobs s' = db_jobs s1"
    using rest by (rule same_jobs_batch)
      (auto simp: transition_mutations_def release_for_def statement_simps split: if_splits)
  then show ?thesis
    unfolding running_token_def s1 sql_update_def by (auto split: if_splits)
qed

lemma commit_tokens:
  assumes "commit_pattern_transition job t tr now s = Inr (Some e, s')"
  shows "running_token s (gr_job_id job) t" and "\<not> running_token s' (gr_job_id job) t" and "quiet_tokens s s'"
proof -
  have r: "run_batch (ownership_probes job t @ transition_mutations job t e (iso_string now)) s = Some s'"
    using assms
    by (auto simp: commit_pattern_transition_def build_transition_statements_def and_then_def
        split: pattern_transition.splits sum.splits option.splits prod.splits)
  show "running_token s (gr_job_id job) t" by (rule probes_then(1) [OF r])
  show "\<not> running_token s' (gr_job_id job) t" by (rule mutations_clear [OF probes_then(2) [OF r]])
  show "quiet_tokens s s'"
    using r by (rule quiet_batch) (auto dest: quiet_mutations)
qed

lemma publish_batch:
  assumes "publish_pattern job t ch vh others now gen_at s = Some s'"
  obtains e where "plan_pattern_transition (stage_of job) (PublishStage ch vh) now = Inr e"
    and "run_batch ([publication_guard job others] @ ownership_probes job t @
      [publication_claim job gen_at] @ transition_mutations job t e (iso_string now)) s = Some s'"
  using assms
  by (auto simp: publish_pattern_def build_transition_statements_def and_then_def simp del: run_batch_simps
      split: sum.splits prod.splits)

lemma publish_tokens:
  assumes "publish_pattern job t ch vh others now gen_at s = Some s'"
  shows "running_token s (gr_job_id job) t" and "\<not> running_token s' (gr_job_id job) t" and "quiet_tokens s s'"
proof -
  obtain e where r: "run_batch ([publication_guard job others] @ ownership_probes job t @
      [publication_claim job gen_at] @ transition_mutations job t e (iso_string now)) s = Some s'"
    by (rule publish_batch [OF assms])
  then have p: "run_batch (ownership_probes job t @
      [publication_claim job gen_at] @ transition_mutations job t e (iso_string now)) s = Some s'"
    by (auto simp: publication_guard_def probe_def split: if_splits)
  obtain s1 where "run_batch (transition_mutations job t e (iso_string now)) s1 = Some s'"
    using probes_then(2) [OF p] by (auto elim: bind_SomeE)
  then show "\<not> running_token s' (gr_job_id job) t" by (rule mutations_clear)
  show "running_token s (gr_job_id job) t" by (rule probes_then(1) [OF p])
  show "quiet_tokens s s'"
    using p by (rule quiet_batch) (auto dest: quiet_mutations simp: publication_claim_def intro: quiet_statements)
qed

definition tokens_ok :: "service \<Rightarrow> bool" where
  "tokens_ok v =
     ((\<forall>j \<in> set (db_jobs (sv_store v)). \<forall>t. jb_token j = Some t \<longrightarrow>
         jb_status j = JobRunning \<and> t \<in> set (sv_issued v) \<and> t \<notin> set (sv_committed v)) \<and>
      (\<forall>j \<in> set (db_jobs (sv_store v)). \<forall>k \<in> set (db_jobs (sv_store v)). \<forall>t.
         jb_token j = Some t \<longrightarrow> jb_token k = Some t \<longrightarrow> jb_id j = jb_id k) \<and>
      distinct (sv_committed v) \<and> set (sv_committed v) \<subseteq> set (sv_issued v))"

lemma tokens_okD:
  assumes "tokens_ok v" and "j \<in> set (db_jobs (sv_store v))" and "jb_token j = Some t"
  shows "jb_status j = JobRunning" and "t \<in> set (sv_issued v)" and "t \<notin> set (sv_committed v)"
    and "k \<in> set (db_jobs (sv_store v)) \<Longrightarrow> jb_token k = Some t \<Longrightarrow> jb_id j = jb_id k"
  using assms unfolding tokens_ok_def by blast+

lemma tokens_okI:
  assumes "\<And>j t. j \<in> set (db_jobs (sv_store v)) \<Longrightarrow> jb_token j = Some t \<Longrightarrow>
      jb_status j = JobRunning \<and> t \<in> set (sv_issued v) \<and> t \<notin> set (sv_committed v)"
    and "\<And>j k t. j \<in> set (db_jobs (sv_store v)) \<Longrightarrow> k \<in> set (db_jobs (sv_store v)) \<Longrightarrow>
      jb_token j = Some t \<Longrightarrow> jb_token k = Some t \<Longrightarrow> jb_id j = jb_id k"
    and "distinct (sv_committed v)" and "set (sv_committed v) \<subseteq> set (sv_issued v)"
  shows "tokens_ok v"
  using assms unfolding tokens_ok_def by blast

lemma tokens_ok_committed:
  assumes "tokens_ok v"
  shows "distinct (sv_committed v)" and "set (sv_committed v) \<subseteq> set (sv_issued v)"
  using assms by (simp_all add: tokens_ok_def)

lemma tokens_ok_quiet:
  assumes "tokens_ok v" and "quiet_tokens (sv_store v) s"
  shows "tokens_ok (v\<lparr>sv_store := s\<rparr>)"
proof (rule tokens_okI, goal_cases)
  case (1 j t)
  have j: "j \<in> set (db_jobs s)" using 1(1) by simp
  obtain k where k: "k \<in> set (db_jobs (sv_store v))" "jb_token k = Some t" "jb_status k = jb_status j"
    by (rule quiet_tokensD [OF assms(2) j 1(2)])
  show ?case using tokens_okD(1-3) [OF assms(1) k(1,2)] k(3) by simp
next
  case (2 i j t)
  have ij: "i \<in> set (db_jobs s)" "j \<in> set (db_jobs s)" using 2(1,2) by simp_all
  obtain k where k: "k \<in> set (db_jobs (sv_store v))" "jb_id k = jb_id i" "jb_token k = Some t"
    by (rule quiet_tokensD [OF assms(2) ij(1) 2(3)])
  obtain l where l: "l \<in> set (db_jobs (sv_store v))" "jb_id l = jb_id j" "jb_token l = Some t"
    by (rule quiet_tokensD [OF assms(2) ij(2) 2(4)])
  show ?case using tokens_okD(4) [OF assms(1) k(1,3) l(1,3)] k l by simp
qed (use tokens_ok_committed [OF assms(1)] in simp_all)

lemma tokens_ok_commit:
  assumes "tokens_ok v" and "quiet_tokens (sv_store v) s"
    and "running_token (sv_store v) jid t" and "\<not> running_token s jid t"
  shows "tokens_ok (v\<lparr>sv_store := s, sv_committed := t # sv_committed v\<rparr>)"
proof -
  have ok: "tokens_ok (v\<lparr>sv_store := s\<rparr>)" by (rule tokens_ok_quiet [OF assms(1,2)])
  obtain j where j: "j \<in> set (db_jobs (sv_store v))" "jb_id j = jid" "jb_token j = Some t"
    using assms(3) by (auto simp: running_token_def)
  have gone: "jb_token k \<noteq> Some t" if k: "k \<in> set (db_jobs s)" for k
  proof
    assume t: "jb_token k = Some t"
    obtain l where l: "l \<in> set (db_jobs (sv_store v))" "jb_id l = jb_id k" "jb_token l = Some t"
      by (rule quiet_tokensD [OF assms(2) k t])
    then have "jb_id k = jid"
      using tokens_okD(4) [OF assms(1) j(1,3) l(1,3)] j(2) by simp
    moreover have "jb_status k = JobRunning"
      using tokens_okD(1) [OF ok, of k t] k t by simp
    ultimately have "running_token s jid t"
      unfolding running_token_def by (intro bexI [OF _ k]) (simp add: t)
    with assms(4) show False by contradiction
  qed
  show ?thesis
  proof (rule tokens_okI, goal_cases)
    case (1 k u)
    then show ?case using tokens_okD(1-3) [OF ok, of k u] gone [of k] by auto
  next
    case (2 k l u)
    then show ?case using tokens_okD(4) [OF ok, of k u l] by simp
  next
    case 3
    show ?case using tokens_okD(3) [OF assms(1) j(1,3)] tokens_ok_committed(1) [OF assms(1)] by simp
  next
    case 4
    show ?case using tokens_okD(2) [OF assms(1) j(1,3)] tokens_ok_committed(2) [OF assms(1)] by simp
  qed
qed

lemma claimed_id: "claimable m now s j \<Longrightarrow> jb_id j = qm_job_id m"
  by (simp add: claimable_def)

lemma claim_stage_store:
  "db_jobs (snd (claim_stage m t now s)) = db_jobs s \<or>
   db_jobs (snd (claim_stage m t now s)) = sql_update (claimable m (iso_string now) s)
     (claim_mutation t (iso_string (now + claim_lease_ms)) (iso_string now)) (db_jobs s)"
  unfolding claim_stage_def Let_def
  by (cases "names_live_stage m s"; cases "list_ex (claimable m (iso_string now) s) (db_jobs s)")
    (simp_all split: option.split)

lemma claim_stage_jobs:
  assumes "claim_stage m t now s = (out, s')"
  shows "\<forall>j \<in> set (db_jobs s'). j \<in> set (db_jobs s) \<or> jb_id j = qm_job_id m \<and> jb_token j = Some t \<and> jb_status j = JobRunning"
proof -
  have "db_jobs s' = db_jobs s \<or>
      db_jobs s' = sql_update (claimable m (iso_string now) s)
        (claim_mutation t (iso_string (now + claim_lease_ms)) (iso_string now)) (db_jobs s)"
    using claim_stage_store [of m t now s] unfolding assms snd_conv .
  then show ?thesis
  proof
    assume jobs: "db_jobs s' = sql_update (claimable m (iso_string now) s)
        (claim_mutation t (iso_string (now + claim_lease_ms)) (iso_string now)) (db_jobs s)"
    show ?thesis
    proof
      fix j assume "j \<in> set (db_jobs s')"
      then obtain x where x: "x \<in> set (db_jobs s)" and j: "j = (if claimable m (iso_string now) s x then
          claim_mutation t (iso_string (now + claim_lease_ms)) (iso_string now) x else x)"
        unfolding jobs sql_update_in by blast
      show "j \<in> set (db_jobs s) \<or> jb_id j = qm_job_id m \<and> jb_token j = Some t \<and> jb_status j = JobRunning"
        using x claimed_id [of m "iso_string now" s x] by (simp add: j claim_mutation_def)
    qed
  qed simp
qed

lemma tokens_ok_claim:
  assumes "tokens_ok v" and "t \<notin> set (sv_issued v)" and "claim_stage m t now (sv_store v) = (out, s)"
  shows "tokens_ok (v\<lparr>sv_store := s, sv_issued := t # sv_issued v\<rparr>)"
proof -
  have rows: "j \<in> set (db_jobs (sv_store v)) \<and> u \<in> set (sv_issued v) \<and> u \<noteq> t \<or>
      jb_id j = qm_job_id m \<and> u = t \<and> jb_status j = JobRunning"
    if "j \<in> set (db_jobs s)" "jb_token j = Some u" for j u
    using bspec [OF claim_stage_jobs [OF assms(3)] that(1)] that(2) tokens_okD(2) [OF assms(1), of j u] assms(2) by auto
  have t: "t \<notin> set (sv_committed v)"
    using assms(2) tokens_ok_committed(2) [OF assms(1)] by blast
  show ?thesis
  proof (rule tokens_okI, goal_cases)
    case (1 j u)
    then show ?case using rows [of j u] tokens_okD(1-3) [OF assms(1), of j u] t by auto
  next
    case (2 j k u)
    then show ?case using rows [of j u] rows [of k u] tokens_okD(4) [OF assms(1), of j u k] by auto
  qed (use tokens_ok_committed [OF assms(1)] in auto)
qed

lemma tokens_ok_step: "service_step v w \<Longrightarrow> tokens_ok v \<Longrightarrow> tokens_ok w"
proof (induction rule: service_step.induct)
  case (commit job t tr now v e s)
  show ?case by (rule tokens_ok_commit [OF commit.prems commit_tokens(3,1,2) [OF commit.hyps]])
next
  case (publish job t ch vh others now gen_at v s)
  show ?case by (rule tokens_ok_commit [OF publish.prems publish_tokens(3,1,2) [OF publish.hyps]])
next
  case (cancel u c reason now rest v s)
  show ?case by (rule tokens_ok_quiet [OF cancel.prems quiet_cancel [OF cancel.hyps]])
next
  case (claim_write op now v s)
  show ?case by (rule tokens_ok_quiet [OF claim_write.prems quiet_statements(3) [OF claim_write.hyps]])
qed (auto intro: tokens_ok_claim tokens_ok_quiet quiet_park quiet_reserve quiet_settle quiet_dispatch quiet_recover
    quiet_prune quiet_reconcile)

lemma tokens_ok_empty: "tokens_ok (empty_service active)"
  by (simp add: tokens_ok_def empty_service_def)

lemma reachable_induct [consumes 1, case_names start move]:
  assumes "reachable_service active v" and "P (empty_service active)"
    and "\<And>v w. reachable_service active v \<Longrightarrow> P v \<Longrightarrow> service_step v w \<Longrightarrow> P w"
  shows "P v"
  using assms(1) unfolding reachable_service_def
  by (induction rule: rtranclp_induct) (use assms(2,3) in \<open>auto simp: reachable_service_def\<close>)

lemma tokens_ok_reachable: "reachable_service active v \<Longrightarrow> tokens_ok v"
  by (induction rule: reachable_induct) (auto intro: tokens_ok_empty tokens_ok_step)

section \<open>Finished generations\<close>

text \<open>
  Every statement leaves the outcome of a finished generation as it is; pruning clears its retention instant and
  stamps \<open>updated_at\<close>, which are not part of the outcome.
\<close>

definition outcome_of :: "gen_row \<Rightarrow> gen_row" where
  "outcome_of g = g\<lparr>gr_retention := None, gr_updated_at := []\<rparr>"

lemma outcome_stage: "outcome_of h = outcome_of g \<Longrightarrow> ss_stage h = ss_stage g"
  by (drule arg_cong [where f = ss_stage]) (simp add: outcome_of_def)

definition keeps_finished :: "store \<Rightarrow> store \<Rightarrow> bool" where
  "keeps_finished s s' =
     (\<forall>gid g. load_pattern_job gid s = Some g \<longrightarrow> finished_stage (ss_stage g) \<longrightarrow>
       (\<exists>h. load_pattern_job gid s' = Some h \<and> outcome_of h = outcome_of g))"

lemma keeps_refl: "keeps_finished s s"
  by (simp add: keeps_finished_def)

lemma keeps_trans:
  assumes "keeps_finished a b" and "keeps_finished b c"
  shows "keeps_finished a c"
  unfolding keeps_finished_def
proof (intro allI impI)
  fix gid g assume g: "load_pattern_job gid a = Some g" "finished_stage (ss_stage g)"
  obtain h where h: "load_pattern_job gid b = Some h" "outcome_of h = outcome_of g"
    using assms(1) g unfolding keeps_finished_def by blast
  then have "finished_stage (ss_stage h)" using outcome_stage g(2) by metis
  then show "\<exists>h. load_pattern_job gid c = Some h \<and> outcome_of h = outcome_of g"
    using assms(2) h unfolding keeps_finished_def by metis
qed

lemma keeps_same: "db_gens s' = db_gens s \<Longrightarrow> keeps_finished s s'"
  by (simp add: keeps_finished_def load_pattern_job_def)

lemma find_update:
  assumes "\<And>g. ss_generation_id (upd g) = ss_generation_id g"
  shows "List.find (\<lambda>g. ss_generation_id g = gid) (sql_update sel upd gs) =
    map_option (\<lambda>g. if sel g then upd g else g) (List.find (\<lambda>g. ss_generation_id g = gid) gs)"
  by (induction gs) (simp_all add: sql_update_def assms)

lemma keeps_update:
  assumes "\<And>g. ss_generation_id (upd g) = ss_generation_id g"
    and "\<And>g. sel g \<Longrightarrow> finished_stage (ss_stage g) \<Longrightarrow> outcome_of (upd g) = outcome_of g"
    and "db_gens s' = sql_update sel upd (db_gens s)"
  shows "keeps_finished s s'"
  using assms(2) unfolding keeps_finished_def load_pattern_job_def assms(3) find_update [OF assms(1)] by auto

lemma find_append_Some: "List.find P xs = Some x \<Longrightarrow> List.find P (xs @ ys) = Some x"
  by (induction xs) (auto split: if_splits)

lemma keeps_insert: "insert_generation g jid u cid r now s = Some s' \<Longrightarrow> keeps_finished s s'"
  by (auto simp: insert_generation_def keeps_finished_def load_pattern_job_def find_append_Some split: if_splits)

lemma keeps_statements:
  "probe cond s = Some s' \<Longrightarrow> keeps_finished s s'"
  "update_jobs sel upd s = Some s' \<Longrightarrow> keeps_finished s s'"
  "on_claims f s = Some s' \<Longrightarrow> keeps_finished s s'"
  "insert_job jid u s = Some s' \<Longrightarrow> keeps_finished s s'"
  by (rule keeps_same; auto simp: statement_simps insert_job_def split: if_splits)+

lemma keeps_gens:
  assumes "\<And>g. ss_generation_id (upd g) = ss_generation_id g" and "\<And>g. sel g \<Longrightarrow> \<not> finished_stage (ss_stage g)"
    and "update_gens sel upd s = Some s'"
  shows "keeps_finished s s'"
  using assms(2,3) by (intro keeps_update [OF assms(1)]) (auto simp: statement_simps)

lemma keeps_batch:
  assumes "run_batch ss s = Some s'" and "\<And>st a b. st \<in> set ss \<Longrightarrow> st a = Some b \<Longrightarrow> keeps_finished a b"
  shows "keeps_finished s s'"
  by (rule run_batch_relates [where R = keeps_finished, OF assms(1) keeps_refl keeps_trans assms(2)])

lemma gen_mutation_id: "ss_generation_id (gen_mutation e now g) = ss_generation_id g"
  by (simp add: gen_mutation_def Let_def)

lemma keeps_mutations:
  assumes "st \<in> set (transition_mutations job t e now)" and "st a = Some b"
  shows "keeps_finished a b"
proof -
  consider (jobs) sel upd where "st = update_jobs sel upd"
    | (gens) sel where "st = update_gens sel (gen_mutation e now)" "\<And>g. sel g \<Longrightarrow> \<not> finished_stage (ss_stage g)"
    | (claims) f where "st = on_claims f"
    using assms(1) by (auto simp: transition_mutations_def release_for_def split: if_splits)
  then show ?thesis
  proof cases
    case jobs then show ?thesis using assms(2) keeps_statements(2) by blast
  next
    case gens
    show ?thesis
      using gens(2) assms(2) unfolding gens(1) by (rule keeps_gens [OF gen_mutation_id])
  next
    case claims then show ?thesis using assms(2) keeps_statements(3) by blast
  qed
qed

lemma keeps_probes:
  "st \<in> set (ownership_probes job t) \<Longrightarrow> st a = Some b \<Longrightarrow> keeps_finished a b"
  by (auto simp: ownership_probes_def intro: keeps_statements)

lemma keeps_commit:
  assumes "commit_pattern_transition job t tr now s = Inr (Some e, s')"
  shows "keeps_finished s s'"
proof -
  have "run_batch (ownership_probes job t @ transition_mutations job t e (iso_string now)) s = Some s'"
    using assms
    by (auto simp: commit_pattern_transition_def build_transition_statements_def and_then_def
        split: pattern_transition.splits sum.splits option.splits prod.splits)
  then show ?thesis by (rule keeps_batch) (auto dest: keeps_mutations keeps_probes)
qed

lemma keeps_publish:
  assumes "publish_pattern job t ch vh others now gen_at s = Some s'"
  shows "keeps_finished s s'"
proof -
  obtain e where "run_batch ([publication_guard job others] @ ownership_probes job t @
      [publication_claim job gen_at] @ transition_mutations job t e (iso_string now)) s = Some s'"
    by (rule publish_batch [OF assms])
  then show ?thesis
    by (rule keeps_batch)
      (auto dest: keeps_mutations keeps_probes intro: keeps_statements simp: publication_guard_def publication_claim_def)
qed

lemma keeps_reserve:
  assumes "reserve_generation su ex c u fp ch g j reason now s = Some s'"
  shows "keeps_finished s s'"
  using assms unfolding reserve_generation_def
  by (rule keeps_batch) (auto simp: reservation_statements_def intro: keeps_statements keeps_insert split: if_splits)

lemma keeps_park: "keeps_finished s (park_pattern_generation m now t s)"
  by (rule keeps_same) (simp add: park_pattern_generation_def)

lemma claim_stage_gens:
  "db_gens (snd (claim_stage m t now s)) = db_gens s \<or>
   db_gens (snd (claim_stage m t now s)) = sql_update (\<lambda>g. ss_generation_id g = qm_generation_id m \<and>
     gr_job_id g = qm_job_id m \<and> ss_stage_generation g = qm_stage_generation m \<and> \<not> finished_stage (ss_stage g))
     (\<lambda>g. g\<lparr>gr_updated_at := iso_string now\<rparr>) (db_gens s)"
  unfolding claim_stage_def Let_def
  by (cases "names_live_stage m s"; cases "list_ex (claimable m (iso_string now) s) (db_jobs s)")
    (simp_all split: option.split)

lemma keeps_claim:
  assumes "claim_stage m t now s = (out, s')"
  shows "keeps_finished s s'"
  using claim_stage_gens [of m t now s] unfolding assms snd_conv
proof
  assume "db_gens s' = sql_update (\<lambda>g. ss_generation_id g = qm_generation_id m \<and>
     gr_job_id g = qm_job_id m \<and> ss_stage_generation g = qm_stage_generation m \<and> \<not> finished_stage (ss_stage g))
     (\<lambda>g. g\<lparr>gr_updated_at := iso_string now\<rparr>) (db_gens s)"
  then show ?thesis by (rule keeps_update [rotated 2]) simp_all
qed (rule keeps_same)

lemma keeps_cancel_statement:
  assumes "st \<in> set (cancel_pattern_work u c reason now)" and "st a = Some b"
  shows "keeps_finished a b"
proof -
  from assms(1) consider (jobs) sel1 upd1 where "st = (\<lambda>s. update_jobs (sel1 s) upd1 s)" | (claims) f where "st = on_claims f"
    | (gens) "st = update_gens (\<lambda>g. gr_user g = u \<and> in_claim c g \<and> \<not> finished_stage (ss_stage g))
        (\<lambda>g. g\<lparr>ss_stage := Cancelled, gr_cancellation := Some reason, gr_updated_at := now, gr_finished_at := Some now\<rparr>)"
    unfolding cancel_pattern_work_def by auto
  then show ?thesis
  proof cases
    case jobs
    then have "update_jobs (sel1 a) upd1 a = Some b" using assms(2) by simp
    then show ?thesis by (rule keeps_statements(2))
  next
    case claims then show ?thesis using assms(2) keeps_statements(3) by blast
  next
    case gens
    show ?thesis using assms(2) unfolding gens by (rule keeps_gens [rotated 2]) simp_all
  qed
qed

lemma keeps_cancel:
  assumes "run_batch (cancel_pattern_work u c reason now @ rest) s = Some s'"
    and "rest = [] \<or> (\<exists>op. rest = [on_claims (exec_claim op now)])"
  shows "keeps_finished s s'"
  using assms(1) by (rule keeps_batch) (use assms(2) in \<open>auto intro: keeps_statements keeps_cancel_statement\<close>)

lemma keeps_sweep_statement:
  assumes "st \<in> set (fail_exhausted_statements row now)" and "st a = Some b"
  shows "keeps_finished a b"
proof -
  from assms(1) consider (jobs) sel1 upd1 where "st = update_jobs sel1 upd1" | (claims) f where "st = on_claims f"
    | (gens) sel2 e where "st = update_gens sel2 (gen_mutation e (iso_string now))"
        "\<And>g. sel2 g \<Longrightarrow> \<not> finished_stage (ss_stage g)"
    unfolding fail_exhausted_statements_def Let_def by (auto split: option.splits)
  then show ?thesis
  proof cases
    case jobs then show ?thesis using assms(2) keeps_statements(2) by blast
  next
    case claims then show ?thesis using assms(2) keeps_statements(3) by blast
  next
    case gens
    show ?thesis
      using gens(2) assms(2) unfolding gens(1) by (rule keeps_gens [OF gen_mutation_id])
  qed
qed

lemma keeps_fail_exhausted:
  assumes "fail_exhausted_job row now s = Some s'"
  shows "keeps_finished s s'"
proof (cases "run_batch (fail_exhausted_statements row now) s")
  case None
  then show ?thesis using assms by (simp add: fail_exhausted_job_def keeps_refl)
next
  case (Some s1)
  then have "run_batch (fail_exhausted_statements row now) s = Some s'"
    using assms by (simp add: fail_exhausted_job_def)
  then show ?thesis by (rule keeps_batch) (rule keeps_sweep_statement)
qed

lemma keeps_settle: "settle_expired now row s = (msgs, s') \<Longrightarrow> keeps_finished s s'"
  by (auto simp: settle_expired_def keeps_refl keeps_fail_exhausted split: prod.splits if_splits option.splits)

lemma keeps_mark: "keeps_finished s (mark_dispatched jid now s)"
  by (rule keeps_same) (simp add: mark_dispatched_def)

lemma keeps_dispatch: "dispatch_job sent now row s = (msgs, s') \<Longrightarrow> keeps_finished s s'"
  by (auto simp: dispatch_job_def keeps_refl keeps_mark split: prod.splits if_splits)

lemma keeps_recover: "keeps_finished s (recover_pattern_pause_class enabled cls chosen now s)"
  by (rule keeps_same) (simp add: recover_pattern_pause_class_def Let_def)

lemma keeps_prune: "keeps_finished s (prune_pattern_job_retention chosen now s)"
  unfolding prune_pattern_job_retention_def by (rule keeps_update [rotated 2], simp, simp, simp add: outcome_of_def)

lemma keeps_reconcile: "reconcile_pattern_generation enabled sent gid now s = (res, msgs, s') \<Longrightarrow> keeps_finished s s'"
  using reconcile_store keeps_refl keeps_mark by blast

lemma keeps_step: "service_step v w \<Longrightarrow> keeps_finished (sv_store v) (sv_store w)"
proof (induction rule: service_step.induct)
  case (cancel u c reason now rest v s)
  show ?case using keeps_cancel [OF cancel.hyps] by simp
next
  case (claim_write op now v s)
  show ?case using keeps_statements(3) [OF claim_write.hyps] by simp
qed (auto intro: keeps_reserve keeps_claim keeps_commit keeps_publish keeps_park keeps_settle keeps_dispatch
    keeps_recover keeps_prune keeps_reconcile)

lemma keeps_run: "service_step\<^sup>*\<^sup>* v w \<Longrightarrow> keeps_finished (sv_store v) (sv_store w)"
  by (induction rule: rtranclp_induct) (auto intro: keeps_refl keeps_trans keeps_step)

section \<open>Well-formed stores\<close>

text \<open>The keys of the tables are unique and the claims satisfy their constraints.\<close>

definition store_ok :: "store \<Rightarrow> bool" where
  "store_ok s =
     (table_ok (db_claims s) \<and> distinct (map ss_generation_id (db_gens s)) \<and> distinct (map gr_job_id (db_gens s)) \<and>
      distinct (map jb_id (db_jobs s)))"

definition ok_statement :: "statement \<Rightarrow> bool" where
  "ok_statement st = (\<forall>a b. st a = Some b \<longrightarrow> store_ok a \<longrightarrow> store_ok b)"

lemma ok_statementD: "ok_statement st \<Longrightarrow> st a = Some b \<Longrightarrow> store_ok a \<Longrightarrow> store_ok b"
  by (simp add: ok_statement_def)

lemma ok_batch: "list_all ok_statement ss \<Longrightarrow> ok_statement (run_batch ss)"
  by (induction ss) (auto simp: ok_statement_def elim!: bind_SomeE)

lemma map_sql_update: "(\<And>x. f (upd x) = f x) \<Longrightarrow> map f (sql_update sel upd rows) = map f rows"
  by (simp add: sql_update_def)

lemma ok_probe: "ok_statement (probe cond)"
  by (simp add: ok_statement_def probe_def)

lemma ok_update_jobs: "(\<And>j. jb_id (upd j) = jb_id j) \<Longrightarrow> ok_statement (\<lambda>s. update_jobs (sel s) upd s)"
  by (simp add: ok_statement_def update_jobs_def store_ok_def map_sql_update)

lemma ok_update_gens:
  "(\<And>g. ss_generation_id (upd g) = ss_generation_id g) \<Longrightarrow> (\<And>g. gr_job_id (upd g) = gr_job_id g) \<Longrightarrow>
   ok_statement (update_gens sel upd)"
  by (simp add: ok_statement_def update_gens_def store_ok_def map_sql_update)

lemma ok_on_claims: "(\<And>rows rows'. f rows = Some rows' \<Longrightarrow> table_ok rows \<Longrightarrow> table_ok rows') \<Longrightarrow> ok_statement (on_claims f)"
  by (auto simp: ok_statement_def on_claims_def store_ok_def)

lemma ok_exec_claim: "ok_statement (on_claims (exec_claim op now))"
  by (rule ok_on_claims) (rule exec_claim_ok)

text \<open>Every claim statement is the run of an operation of the claims.\<close>

lemmas ok_claim_statements =
  ok_exec_claim [of "OpReserveNew c u fp ch g" for c u fp ch g, unfolded exec_claim.simps]
  ok_exec_claim [of "OpReserveExisting c u fp ch g" for c u fp ch g, unfolded exec_claim.simps]
  ok_exec_claim [of "OpRelease c u g" for c u g, unfolded exec_claim.simps]
  ok_exec_claim [of "OpReleaseUser u" for u, unfolded exec_claim.simps]
  ok_exec_claim [of "OpReleaseUserRegenerations u" for u, unfolded exec_claim.simps]
  ok_exec_claim [of "OpReserveRegeneration c u fp ch g" for c u fp ch g, unfolded exec_claim.simps]
  ok_exec_claim [of "OpReleaseRegeneration c u g" for c u g, unfolded exec_claim.simps]
  ok_exec_claim [of "OpAccept c u g" for c u g, unfolded exec_claim.simps]
  ok_exec_claim [of "OpEnd e c u" for e c u, unfolded exec_claim.simps]

lemma ok_inserts: "ok_statement (insert_job jid u)" "ok_statement (insert_generation g jid u cid r now)"
  by (auto simp: ok_statement_def insert_job_def insert_generation_def store_ok_def list_ex_iff stage_state.defs fresh_stage_def
      split: if_splits)

lemma mutation_keys [simp]:
  "jb_id (job_mutation e now j) = jb_id j" "gr_job_id (gen_mutation e now g) = gr_job_id g"
  by (simp_all add: job_mutation_def gen_mutation_def Let_def)

lemmas ok_statements = ok_probe ok_update_gens ok_claim_statements ok_inserts
  ok_update_jobs [of _ "\<lambda>s. sel" for sel]

lemma ok_mutations: "list_all ok_statement (transition_mutations job t e now)"
  "list_all ok_statement (ownership_probes job t)"
  by (auto simp: transition_mutations_def ownership_probes_def release_for_def gen_mutation_id intro!: ok_statements)

lemma ok_reserve: "ok_statement (reserve_generation su ex c u fp ch g j reason now)"
  unfolding reserve_generation_def
  by (rule ok_batch) (auto simp: reservation_statements_def intro!: ok_statements)

lemma ok_cancel:
  assumes "rest = [] \<or> (\<exists>op. rest = [on_claims (exec_claim op now)])"
  shows "ok_statement (run_batch (cancel_pattern_work u c reason now @ rest))"
proof (rule ok_batch)
  have "list_all ok_statement (cancel_pattern_work u c reason now)"
    unfolding cancel_pattern_work_def list.pred_inject
    by (intro conjI ok_statements ok_update_jobs) simp_all
  then show "list_all ok_statement (cancel_pattern_work u c reason now @ rest)"
    using assms by (auto intro!: ok_statements ok_exec_claim)
qed

lemma ok_fail_exhausted: "ok_statement (fail_exhausted_job row now)"
proof -
  have "list_all ok_statement (fail_exhausted_statements row now)"
    by (auto simp: fail_exhausted_statements_def Let_def gen_mutation_id intro!: ok_statements split: option.splits)
  then show ?thesis
    using ok_batch [of "fail_exhausted_statements row now"]
    by (auto simp: ok_statement_def fail_exhausted_job_def split: option.splits)
qed

lemma commit_batch:
  assumes "commit_pattern_transition job t tr now s = Inr (Some e, s')"
  shows "run_batch (ownership_probes job t @ transition_mutations job t e (iso_string now)) s = Some s'"
  using assms
  by (auto simp: commit_pattern_transition_def build_transition_statements_def and_then_def
      split: pattern_transition.splits sum.splits option.splits prod.splits)

lemma ok_commit:
  assumes "commit_pattern_transition job t tr now s = Inr (Some e, s')" and "store_ok s"
  shows "store_ok s'"
  using ok_batch [of "ownership_probes job t @ transition_mutations job t e (iso_string now)"] commit_batch [OF assms(1)]
    assms(2) ok_mutations by (auto intro: ok_statementD)

lemma ok_publish:
  assumes "publish_pattern job t ch vh others now gen_at s = Some s'" and "store_ok s"
  shows "store_ok s'"
proof -
  obtain e where r: "run_batch ([publication_guard job others] @ ownership_probes job t @
      [publication_claim job gen_at] @ transition_mutations job t e (iso_string now)) s = Some s'"
    by (rule publish_batch [OF assms(1)])
  have "ok_statement (publication_guard job others)" "ok_statement (publication_claim job gen_at)"
    by (auto simp: publication_guard_def publication_claim_def intro: ok_statements)
  then show ?thesis
    using ok_mutations by (intro ok_statementD [OF ok_batch r assms(2)]) simp
qed

lemma ok_park: "store_ok s \<Longrightarrow> store_ok (park_pattern_generation m now t s)"
  unfolding park_pattern_generation_def by (simp add: store_ok_def map_sql_update)

lemma claim_keys:
  assumes "claim_stage m t now s = (out, s')"
  shows "map jb_id (db_jobs s') = map jb_id (db_jobs s)" and "map ss_generation_id (db_gens s') = map ss_generation_id (db_gens s)"
    and "map gr_job_id (db_gens s') = map gr_job_id (db_gens s)" and "db_claims s' = db_claims s"
proof -
  show "map jb_id (db_jobs s') = map jb_id (db_jobs s)"
    using claim_stage_store [of m t now s] unfolding assms snd_conv by (auto simp: map_sql_update claim_mutation_def)
  show "map ss_generation_id (db_gens s') = map ss_generation_id (db_gens s)"
    "map gr_job_id (db_gens s') = map gr_job_id (db_gens s)"
    using claim_stage_gens [of m t now s] unfolding assms snd_conv by (auto simp: map_sql_update)
  have "db_claims (snd (claim_stage m t now s)) = db_claims s"
    unfolding claim_stage_def Let_def
    by (cases "names_live_stage m s"; cases "list_ex (claimable m (iso_string now) s) (db_jobs s)")
      (simp_all split: option.split)
  then show "db_claims s' = db_claims s" unfolding assms snd_conv .
qed

lemma ok_settle: "settle_expired now row s = (msgs, s') \<Longrightarrow> store_ok s \<Longrightarrow> store_ok s'"
  using ok_fail_exhausted
  by (auto simp: settle_expired_def ok_statement_def split: prod.splits if_splits option.splits)

lemma ok_mark: "store_ok s \<Longrightarrow> store_ok (mark_dispatched jid now s)"
  by (simp add: mark_dispatched_def store_ok_def map_sql_update)

lemma ok_dispatch: "dispatch_job sent now row s = (msgs, s') \<Longrightarrow> store_ok s \<Longrightarrow> store_ok s'"
  by (auto simp: dispatch_job_def ok_mark split: prod.splits if_splits)

lemma ok_recover: "store_ok s \<Longrightarrow> store_ok (recover_pattern_pause_class enabled cls chosen now s)"
  by (simp add: recover_pattern_pause_class_def Let_def store_ok_def map_sql_update)

lemma ok_prune: "store_ok s \<Longrightarrow> store_ok (prune_pattern_job_retention chosen now s)"
  by (simp add: prune_pattern_job_retention_def store_ok_def map_sql_update)

lemma ok_reconcile:
  assumes "reconcile_pattern_generation enabled sent gid now s = (res, msgs, s')" and "store_ok s"
  shows "store_ok s'"
  using reconcile_store [OF assms(1)] assms(2) ok_mark by blast

lemma ok_step: "service_step v w \<Longrightarrow> store_ok (sv_store v) \<Longrightarrow> store_ok (sv_store w)"
proof (induction rule: service_step.induct)
  case (reserve su ex c u fp ch g j reason now v s)
  show ?case using ok_statementD [OF ok_reserve reserve.hyps reserve.prems] by simp
next
  case (claim t v m now out s)
  show ?case using claim.prems claim_keys [OF claim.hyps(2)] by (simp add: store_ok_def)
next
  case (commit job t tr now v e s)
  show ?case using ok_commit [OF commit.hyps commit.prems] by simp
next
  case (publish job t ch vh others now gen_at v s)
  show ?case using ok_publish [OF publish.hyps publish.prems] by simp
next
  case (park v m now t)
  then show ?case by (simp add: ok_park)
next
  case (cancel u c reason now rest v s)
  show ?case using ok_statementD [OF ok_cancel [OF cancel.hyps(2)] cancel.hyps(1) cancel.prems] by simp
next
  case (claim_write op now v s)
  show ?case using ok_statementD [OF ok_exec_claim claim_write.hyps claim_write.prems] by simp
next
  case (sweep now row v msgs s)
  show ?case using ok_settle [OF sweep.hyps sweep.prems] by simp
next
  case (dispatch sent now row v msgs s)
  show ?case using ok_dispatch [OF dispatch.hyps dispatch.prems] by simp
next
  case (recover v enabled cls chosen now)
  then show ?case by (simp add: ok_recover)
next
  case (prune v chosen now)
  then show ?case by (simp add: ok_prune)
next
  case (reconcile enabled sent gid now v res msgs s)
  show ?case using ok_reconcile [OF reconcile.hyps reconcile.prems] by simp
qed

lemma ok_reachable: "reachable_service active v \<Longrightarrow> store_ok (sv_store v)"
proof (induction rule: reachable_induct)
  case start
  show ?case by (simp add: empty_service_def store_ok_def table_ok_def)
next
  case (move v w)
  show ?case by (rule ok_step [OF move(2,3)])
qed

section \<open>What a claimed worker may rely on\<close>

lemma find_unique: "distinct (map f xs) \<Longrightarrow> x \<in> set xs \<Longrightarrow> List.find (\<lambda>y. f y = f x) xs = Some x"
  by (induction xs) (auto simp: rev_image_eqI)

lemma load_unique:
  "distinct (map ss_generation_id (db_gens s)) \<Longrightarrow> g \<in> set (db_gens s) \<Longrightarrow>
   load_pattern_job (ss_generation_id g) s = Some g"
  unfolding load_pattern_job_def by (rule find_unique)

lemma claimed_facts:
  assumes "claim_stage m t now s = (ClaimedStage u g, s1)"
  shows "u = t" and "names_live_stage m s" and "load_pattern_job (qm_generation_id m) s1 = Some g"
    and "ss_stage_generation g = qm_stage_generation m" and "list_ex (claimable m (iso_string now) s) (db_jobs s)"
    and "db_jobs s1 = sql_update (claimable m (iso_string now) s)
      (claim_mutation t (iso_string (now + claim_lease_ms)) (iso_string now)) (db_jobs s)"
    and "db_gens s1 = sql_update (\<lambda>g. ss_generation_id g = qm_generation_id m \<and>
       gr_job_id g = qm_job_id m \<and> ss_stage_generation g = qm_stage_generation m \<and> \<not> finished_stage (ss_stage g))
       (\<lambda>g. g\<lparr>gr_updated_at := iso_string now\<rparr>) (db_gens s)"
  using assms unfolding claim_stage_def Let_def
  by (cases "names_live_stage m s"; cases "list_ex (claimable m (iso_string now) s) (db_jobs s)";
      force split: option.splits if_splits)+

lemma claimed_job:
  assumes "claim_stage m t now s = (ClaimedStage u g, s1)"
  shows "\<exists>j \<in> set (db_jobs s1). jb_id j = qm_job_id m \<and> jb_token j = Some t \<and> jb_status j = JobRunning \<and>
    jb_type j = pattern_job_type"
proof -
  obtain x where x: "x \<in> set (db_jobs s)" "claimable m (iso_string now) s x"
    using claimed_facts(5) [OF assms] by (auto simp: list_ex_iff)
  then have "claim_mutation t (iso_string (now + claim_lease_ms)) (iso_string now) x \<in> set (db_jobs s1)"
    unfolding claimed_facts(6) [OF assms] sql_update_in by (intro bexI [of _ x]) simp_all
  moreover have "jb_id x = qm_job_id m" "jb_type x = pattern_job_type"
    using x(2) by (simp_all add: claimable_def)
  ultimately show ?thesis by (intro bexI) (simp_all add: claim_mutation_def)
qed

lemma claimed_gen:
  assumes "claim_stage m t now s = (ClaimedStage u g, s1)" and "store_ok s"
  shows "g \<in> set (db_gens s1)" and "gr_job_id g = qm_job_id m" and "\<not> finished_stage (ss_stage g)"
proof -
  obtain h where h: "h \<in> set (db_gens s)" "ss_generation_id h = qm_generation_id m" "gr_job_id h = qm_job_id m"
    "ss_stage_generation h = qm_stage_generation m" "\<not> finished_stage (ss_stage h)"
    using claimed_facts(2) [OF assms(1)] by (auto simp: names_live_stage_def list_ex_iff)
  define h' where "h' = h\<lparr>gr_updated_at := iso_string now\<rparr>"
  have in1: "h' \<in> set (db_gens s1)"
    unfolding claimed_facts(7) [OF assms(1)] sql_update_in by (intro bexI [of _ h]) (simp_all add: h h'_def)
  have "distinct (map ss_generation_id (db_gens s1))"
    using assms(2) claim_keys(2) [OF assms(1)] by (simp add: store_ok_def)
  then have "load_pattern_job (ss_generation_id h') s1 = Some h'"
    using in1 by (rule load_unique)
  then have "g = h'"
    using claimed_facts(3) [OF assms(1)] h(2) by (simp add: h'_def)
  then show "g \<in> set (db_gens s1)" "gr_job_id g = qm_job_id m" "\<not> finished_stage (ss_stage g)"
    using in1 h by (simp_all add: h'_def)
qed

lemma release_for_total: "list_all claim_ok (db_claims s) \<Longrightarrow> release_for job now s \<noteq> None"
  using writers_total(2,6) by (simp add: release_for_def on_claims_def)

lemma transition_batch_total:
  assumes "j \<in> set (db_jobs s)" and "jb_id j = gr_job_id g" and "jb_token j = Some t" and "jb_status j = JobRunning"
    and "jb_type j = pattern_job_type" and "g \<in> set (db_gens s)" and "\<not> finished_stage (ss_stage g)"
    and "list_all claim_ok (db_claims s)"
  shows "run_batch (ownership_probes g t @ transition_mutations g t e now) s \<noteq> None"
proof -
  have "list_ex (\<lambda>j. jb_id j = gr_job_id g \<and> jb_token j = Some t \<and> jb_status j = JobRunning \<and>
      jb_type j = pattern_job_type) (db_jobs s)"
    unfolding list_ex_iff using assms(1-5) by (intro bexI [of _ j]) simp_all
  moreover have "list_ex (\<lambda>h. ss_generation_id h = ss_generation_id g \<and> ss_stage_generation h = ss_stage_generation g \<and>
      \<not> finished_stage (ss_stage h)) (db_gens s)"
    unfolding list_ex_iff using assms(6,7) by (intro bexI [of _ g]) simp_all
  ultimately have "run_batch (ownership_probes g t) s = Some s"
    by (simp add: ownership_probes_def probe_def)
  moreover have nil: "run_batch [] = Some"
    by (rule ext) simp
  moreover have "run_batch (transition_mutations g t e now) s \<noteq> None"
    using release_for_total [of "s\<lparr>db_jobs := js, db_gens := gs\<rparr>" g now for js gs] assms(8)
    by (simp add: nil transition_mutations_def update_jobs_def update_gens_def)
  ultimately show ?thesis by simp
qed

lemma commit_runs:
  assumes "plan_pattern_transition (stage_of g) tr now = Inr e" and "\<And>h v. tr \<noteq> PublishStage h v"
    and "run_batch (ownership_probes g t @ transition_mutations g t e (iso_string now)) s = Some s'"
  shows "commit_pattern_transition g t tr now s = Inr (Some e, s')"
proof (cases tr)
  case (PublishStage h v)
  then show ?thesis using assms(2) by blast
qed (use assms(1,3) in \<open>simp_all add: commit_pattern_transition_def build_transition_statements_def and_then_def
      del: run_batch_simps run_batch_append\<close>)

section \<open>Properties\<close>

text \<open>An example: a reservation, the claim of its first delivery and the transition the worker commits.\<close>

definition example_message :: queue_message where
  "example_message = \<lparr>qm_job_id = ''j'', qm_generation_id = ''g'', qm_stage_generation = 0\<rparr>"

definition example_claimed :: store where
  "example_claimed = snd (claim_stage example_message ''tok'' 0
     (the (reserve_generation False False ''c'' ''u'' ''f'' ''h'' ''g'' ''j'' ''first_open'' ''t'' (sv_store (empty_service [''u''])))))"

definition example_job :: gen_row where
  "example_job = the (load_pattern_job ''g'' example_claimed)"

definition example_run :: service where
  "example_run = \<lparr>sv_store = snd (projr (commit_pattern_transition example_job ''tok'' (AdvanceWriting ''p'') 1 example_claimed)),
     sv_issued = [''tok''], sv_committed = [''tok'']\<rparr>"

lemmas example_eval = example_claimed_def reserve_generation_def reservation_statements_def empty_service_def
  on_claims_def reserve_new_claim_def insert_job_def insert_generation_def claim_stage_def Let_def
  names_live_stage_def finished_stage_def fresh_stage_def stage_state.defs example_message_def claimable_def
  claim_mutation_def unless_set_def load_pattern_job_def sql_update_def pattern_job_type_def

lemma example_reserved:
  "reserve_generation False False ''c'' ''u'' ''f'' ''h'' ''g'' ''j'' ''first_open'' ''t'' (sv_store (empty_service [''u''])) \<noteq> None"
  by (simp add: example_eval)

lemma example_claim_out:
  "claim_stage example_message ''tok'' 0
     (the (reserve_generation False False ''c'' ''u'' ''f'' ''h'' ''g'' ''j'' ''first_open'' ''t'' (sv_store (empty_service [''u'']))))
   = (ClaimedStage ''tok'' example_job, example_claimed)"
  by (simp add: example_eval example_job_def)

lemma example_commit:
  "\<exists>e s. commit_pattern_transition example_job ''tok'' (AdvanceWriting ''p'') 1 example_claimed = Inr (Some e, s)"
  by (simp add: example_eval example_job_def commit_pattern_transition_def build_transition_statements_def and_then_def
      plan_unfold stage_of_def ownership_probes_def probe_def transition_mutations_def update_jobs_def update_gens_def)

lemma example_reachable: "reachable_service [''u''] example_run"
proof -
  obtain s0 where s0: "reserve_generation False False ''c'' ''u'' ''f'' ''h'' ''g'' ''j'' ''first_open'' ''t''
      (sv_store (empty_service [''u''])) = Some s0"
    using example_reserved by blast
  have c0: "claim_stage example_message ''tok'' 0 s0 = (ClaimedStage ''tok'' example_job, example_claimed)"
    using example_claim_out unfolding s0 option.sel .
  define v1 where "v1 = (empty_service [''u''])\<lparr>sv_store := s0\<rparr>"
  define v2 where "v2 = v1\<lparr>sv_store := example_claimed, sv_issued := ''tok'' # sv_issued v1\<rparr>"
  obtain e s where c: "commit_pattern_transition example_job ''tok'' (AdvanceWriting ''p'') 1 example_claimed = Inr (Some e, s)"
    using example_commit by blast
  have one: "service_step (empty_service [''u'']) v1"
    unfolding v1_def by (rule service_step.reserve [OF s0])
  have two: "service_step v1 v2"
    unfolding v2_def
    by (rule service_step.claim [where m = example_message and now = 0 and out = "ClaimedStage ''tok'' example_job"])
      (simp_all add: v1_def c0 empty_service_def)
  have "example_run = v2\<lparr>sv_store := s, sv_committed := ''tok'' # sv_committed v2\<rparr>"
    by (simp add: example_run_def v2_def v1_def empty_service_def c)
  then have three: "service_step v2 example_run"
    using service_step.commit [of example_job "''tok''" "AdvanceWriting ''p''" 1 v2 e s] c by (simp add: v2_def)
  show ?thesis
    unfolding reachable_service_def
    by (rule rtranclp.rtrancl_into_rtrancl [OF rtranclp.rtrancl_into_rtrancl [OF r_into_rtranclp [of service_step, OF one] two] three])
qed

text \<open>
  C9: whatever the order of reservations, deliveries, parks, cancellations and sweeps, and however stale the row
  a worker acts on, at most one transition is ever committed under a claim token, and only under a token a claim issued.
\<close>
theorem each_token_commits_once:
  assumes "reachable_service active v"
  shows "distinct (sv_committed v) \<and> set (sv_committed v) \<subseteq> set (sv_issued v)"
  using tokens_ok_committed [OF tokens_ok_reachable [OF assms]] by simp

theorem each_token_commits_once_witness:
  "distinct (sv_committed example_run) \<and> sv_committed example_run = [''tok'']"
  using each_token_commits_once [OF example_reachable] by (simp add: example_run_def)

text \<open>
  C16: a generation that has succeeded, failed or been cancelled is final: no later step of any worker, sweep,
  cancellation, reservation or prune changes its stage, hashes, attempts or recorded outcome.
\<close>
theorem finished_generation_is_final:
  assumes "service_step\<^sup>*\<^sup>* v w" and "load_pattern_job gid (sv_store v) = Some g" and "finished_stage (ss_stage g)"
  shows "\<exists>h. load_pattern_job gid (sv_store w) = Some h \<and> outcome_of h = outcome_of g \<and> ss_stage h = ss_stage g"
proof -
  obtain h where h: "load_pattern_job gid (sv_store w) = Some h" "outcome_of h = outcome_of g"
    using keeps_run [OF assms(1)] assms(2,3) unfolding keeps_finished_def by blast
  then show ?thesis using outcome_stage [OF h(2)] by blast
qed

theorem finished_generation_is_final_witness:
  "\<exists>v w g. service_step v w \<and> load_pattern_job ''g'' (sv_store v) = Some g \<and> ss_stage g = Succeeded \<and>
     map ss_stage (db_gens (sv_store w)) = [Succeeded]"
proof -
  define g where "g = stage_state.extend ((fresh_stage ''g'')\<lparr>ss_stage := Succeeded\<rparr>)
    \<lparr>gr_job_id = ''j'', gr_user = ''u'', gr_claim = ''c'', gr_reason = ''first_open'', gr_updated_at = ''t'',
     gr_finished_at = Some ''t'', gr_public_failure = None, gr_failure_class = None, gr_cancellation = None,
     gr_retention = Some ''t''\<rparr>"
  define s where "s = \<lparr>db_jobs = [], db_gens = [g], db_claims = [], db_active = [''u'']\<rparr>"
  define v where "v = \<lparr>sv_store = s, sv_issued = [], sv_committed = []\<rparr>"
  define w where "w = v\<lparr>sv_store := prune_pattern_job_retention {''g''} ''u'' s\<rparr>"
  have g: "load_pattern_job ''g'' (sv_store v) = Some g" "ss_stage g = Succeeded"
    by (simp_all add: load_pattern_job_def v_def s_def g_def stage_state.defs fresh_stage_def)
  have step: "service_step v w"
    using service_step.prune [of v "{''g''}" "''u''"] by (simp add: v_def w_def)
  obtain h where "load_pattern_job ''g'' (sv_store w) = Some h" "ss_stage h = Succeeded"
    using finished_generation_is_final [OF r_into_rtranclp [of service_step, OF step] g(1)] g(2)
    by (auto simp: finished_stage_def)
  then have "map ss_stage (db_gens (sv_store w)) = [Succeeded]"
    by (auto simp: load_pattern_job_def w_def v_def s_def prune_pattern_job_retention_def sql_update_def split: if_splits)
  then show ?thesis using step g by (intro exI conjI)
qed

text \<open>
  C39: the sweep that fails an exhausted generation never releases the pending slot of the accepted claim it was
  regenerating: the claim still names the failed generation afterwards.
\<close>
theorem sweep_keeps_pending_regeneration:
  assumes "fail_exhausted_job row now s = Some s'" and "c \<in> set (db_claims s)" and "claim_ok c"
    and "cl_pending c = Some (ss_generation_id row)"
  shows "c \<in> set (db_claims s')"
proof -
  have keep: "c \<in> set (db_claims b)"
    if st: "st \<in> set (fail_exhausted_statements row now)" "st a = Some b" and c: "c \<in> set (db_claims a)" for st a b
  proof -
    from st(1) consider (jobs) sel1 upd1 where "st = update_jobs sel1 upd1" | (gens) sel2 upd2 where "st = update_gens sel2 upd2"
      | (claims) "st = on_claims (release_unconsumed_claim (gr_claim row) (gr_user row) (ss_generation_id row) (iso_string now))"
      unfolding fail_exhausted_statements_def Let_def by (auto split: option.splits)
    then show ?thesis
    proof cases
      case jobs then show ?thesis using st(2) c by (simp add: statement_simps)
    next
      case gens then show ?thesis using st(2) c by (simp add: statement_simps)
    next
      case claims
      then obtain rows where rows: "release_unconsumed_claim (gr_claim row) (gr_user row) (ss_generation_id row)
          (iso_string now) (db_claims a) = Some rows" and b: "b = a\<lparr>db_claims := rows\<rparr>"
        using st(2) by (auto simp: statement_simps)
      have "cl_status c = ClaimAccepted" using assms(3,4) by (simp add: claim_ok_def)
      then show ?thesis
        using update_claims_Some(1) [OF rows [unfolded release_unconsumed_claim_def]] c
        by (auto simp: b sql_update_in intro!: bexI [of _ c])
    qed
  qed
  show ?thesis
  proof (cases "run_batch (fail_exhausted_statements row now) s")
    case None
    then show ?thesis using assms(1,2) by (simp add: fail_exhausted_job_def)
  next
    case (Some s1)
    then have r: "run_batch (fail_exhausted_statements row now) s = Some s'"
      using assms(1) by (simp add: fail_exhausted_job_def)
    have "c \<in> set (db_claims s) \<longrightarrow> c \<in> set (db_claims s')"
      by (rule run_batch_relates [where R = "\<lambda>a b. c \<in> set (db_claims a) \<longrightarrow> c \<in> set (db_claims b)", OF r])
        (use keep in blast)+
    then show ?thesis using assms(2) by blast
  qed
qed

definition example_regeneration :: gen_row where
  "example_regeneration = stage_state.extend (fresh_stage ''gen2'')
    \<lparr>gr_job_id = ''j'', gr_user = ''u'', gr_claim = ''clm'', gr_reason = ''source_update'', gr_updated_at = ''t'',
     gr_finished_at = None, gr_public_failure = None, gr_failure_class = None, gr_cancellation = None,
     gr_retention = None\<rparr>"

definition example_store :: store where
  "example_store = \<lparr>db_jobs = [], db_gens = [example_regeneration], db_claims = [example_claim], db_active = [''u'']\<rparr>"

theorem sweep_keeps_pending_regeneration_witness:
  "\<exists>s. fail_exhausted_job example_regeneration 5 example_store = Some s \<and> example_claim \<in> set (db_claims s) \<and>
     map ss_stage (db_gens s) = [Failed]"
proof -
  obtain s where s: "fail_exhausted_job example_regeneration 5 example_store = Some s" and f: "map ss_stage (db_gens s) = [Failed]"
    by (simp add: fail_exhausted_job_def fail_exhausted_statements_def Let_def example_store_def example_regeneration_def
        fresh_stage_def stage_state.defs update_jobs_def update_gens_def on_claims_def release_unconsumed_claim_def
        update_claims_def sql_update_def plan_unfold stage_of_def gen_mutation_def finished_stage_def example_claim_def)
  have "example_claim \<in> set (db_claims s)"
    using s by (rule sweep_keeps_pending_regeneration)
      (simp_all add: example_store_def example_claim_def claim_simps example_regeneration_def fresh_stage_def stage_state.defs)
  then show ?thesis using s f by (intro exI conjI)
qed

text \<open>
  C11: a worker that has claimed a delivery can commit whatever the planner allows from the row it read: the
  ownership probes hold on the claimed store and no statement of the batch aborts.
\<close>
theorem claimed_worker_can_commit:
  assumes "reachable_service active v" and "claim_stage m t now (sv_store v) = (ClaimedStage u g, s)"
    and "plan_pattern_transition (stage_of g) tr later = Inr e" and "\<And>h w. tr \<noteq> PublishStage h w"
  shows "u = t \<and> (\<exists>s'. commit_pattern_transition g u tr later s = Inr (Some e, s'))"
proof -
  have ok: "store_ok (sv_store v)" by (rule ok_reachable [OF assms(1)])
  have u: "u = t" by (rule claimed_facts(1) [OF assms(2)])
  obtain j where "j \<in> set (db_jobs s)" "jb_id j = gr_job_id g" "jb_token j = Some t" "jb_status j = JobRunning"
    "jb_type j = pattern_job_type"
    using claimed_job [OF assms(2)] claimed_gen(2) [OF assms(2) ok] by auto
  moreover have "list_all claim_ok (db_claims s)"
    using ok claim_keys(4) [OF assms(2)] by (simp add: store_ok_def table_ok_def)
  ultimately obtain s' where "run_batch (ownership_probes g t @ transition_mutations g t e (iso_string later)) s = Some s'"
    using transition_batch_total [OF _ _ _ _ _ claimed_gen(1,3) [OF assms(2) ok]] by (meson not_Some_eq)
  then show ?thesis
    using commit_runs [OF assms(3,4)] u by blast
qed

theorem claimed_worker_can_commit_witness:
  "\<exists>e s'. commit_pattern_transition example_job ''tok'' (FailStage ''x'' OrganizingEvidence) 1 example_claimed = Inr (Some e, s')"
proof -
  obtain s0 where s0: "reserve_generation False False ''c'' ''u'' ''f'' ''h'' ''g'' ''j'' ''first_open'' ''t''
      (sv_store (empty_service [''u''])) = Some s0"
    using example_reserved by blast
  have c0: "claim_stage example_message ''tok'' 0 s0 = (ClaimedStage ''tok'' example_job, example_claimed)"
    using example_claim_out unfolding s0 option.sel .
  have r: "reachable_service [''u''] ((empty_service [''u''])\<lparr>sv_store := s0\<rparr>)"
    unfolding reachable_service_def by (rule r_into_rtranclp) (rule service_step.reserve [OF s0])
  obtain e where e: "plan_pattern_transition (stage_of example_job) (FailStage ''x'' OrganizingEvidence) 1 = Inr e"
    by (simp add: plan_unfold stage_of_def example_job_def example_eval)
  show ?thesis
    using claimed_worker_can_commit [OF r _ e, of example_message "''tok''" 0 "''tok''" example_claimed] c0 by auto
qed

text \<open>
  C21: every reachable store has unique keys and claims that satisfy the CHECK constraints, whatever batches
  committed, aborted or raced.
\<close>
theorem reachable_store_is_well_formed:
  assumes "reachable_service active v"
  shows "list_all claim_check (db_claims (sv_store v)) \<and> distinct (map cl_id (db_claims (sv_store v))) \<and>
    distinct (map ss_generation_id (db_gens (sv_store v))) \<and> distinct (map jb_id (db_jobs (sv_store v))) \<and>
    (\<forall>j \<in> set (db_jobs (sv_store v)). jb_token j \<noteq> None \<longrightarrow> jb_status j = JobRunning)"
  using ok_reachable [OF assms] tokens_okD(1) [OF tokens_ok_reachable [OF assms]]
  by (auto simp: store_ok_def table_ok_def claim_ok_def list_all_iff)

theorem reachable_store_is_well_formed_witness:
  "list_all claim_check (db_claims (sv_store example_run)) \<and> distinct (map jb_id (db_jobs (sv_store example_run)))"
  using reachable_store_is_well_formed [OF example_reachable] by blast

lemma distinct_map_eq: "distinct (map f xs) \<Longrightarrow> x \<in> set xs \<Longrightarrow> y \<in> set xs \<Longrightarrow> f x = f y \<Longrightarrow> x = y"
  by (simp add: distinct_map inj_on_def)

lemma published_rows:
  assumes "publish_pattern job t ch vh others now gen_at s = Some s'" and "gr_reason job \<noteq> ''source_update''"
  obtains e rows where "plan_pattern_transition (stage_of job) (PublishStage ch vh) now = Inr e"
    and "publication_guard job others s = Some s" and "running_token s (gr_job_id job) t"
    and "accept_claim (gr_claim job) (gr_user job) (ss_generation_id job) gen_at (db_claims s) = Some rows"
    and "db_claims s' = rows"
    and "db_gens s' = sql_update (\<lambda>g. ss_generation_id g = ss_generation_id job \<and>
        ss_stage_generation g = ss_stage_generation job \<and> \<not> finished_stage (ss_stage g))
        (gen_mutation e (iso_string now)) (db_gens s)"
    and "list_ex (\<lambda>g. ss_generation_id g = ss_generation_id job \<and>
        ss_stage_generation g = ss_stage_generation job \<and> \<not> finished_stage (ss_stage g)) (db_gens s)"
proof -
  obtain e where e: "plan_pattern_transition (stage_of job) (PublishStage ch vh) now = Inr e"
    and r: "run_batch ([publication_guard job others] @ ownership_probes job t @
      [publication_claim job gen_at] @ transition_mutations job t e (iso_string now)) s = Some s'"
    by (rule publish_batch [OF assms(1)])
  have g: "publication_guard job others s = Some s"
    using r by (cases "publication_guard job others s") (auto simp: publication_guard_def probe_def split: if_splits)
  then have p: "run_batch (ownership_probes job t @
      [publication_claim job gen_at] @ transition_mutations job t e (iso_string now)) s = Some s'"
    using r by simp
  have "run_batch (publication_claim job gen_at # transition_mutations job t e (iso_string now)) s = Some s'"
    using probes_then(2) [OF p] by simp
  then obtain rows where a: "accept_claim (gr_claim job) (gr_user job) (ss_generation_id job) gen_at (db_claims s) = Some rows"
    and m: "run_batch (transition_mutations job t e (iso_string now)) (s\<lparr>db_claims := rows\<rparr>) = Some s'"
    using assms(2) by (auto simp: publication_claim_def on_claims_def elim!: bind_SomeE)
  have "te_release_claim e = False"
    using e by (auto simp: plan_unfold split: if_splits)
  then have "db_claims s' = rows" "db_gens s' = sql_update (\<lambda>g. ss_generation_id g = ss_generation_id job \<and>
        ss_stage_generation g = ss_stage_generation job \<and> \<not> finished_stage (ss_stage g))
        (gen_mutation e (iso_string now)) (db_gens s)"
    using m by (auto simp: transition_mutations_def update_jobs_def update_gens_def)
  then show thesis by (rule that [OF e g probes_then(1) [OF p] a _ _ probes_then(3) [OF p]])
qed

text \<open>
  C20: publishing the first Pattern of a chart is one batch in which the claim that the generation had reserved
  becomes accepted and consumed at the publication instant and the generation succeeds with the two hashes.
\<close>
theorem publication_consumes_the_claim:
  assumes "publish_pattern job t ch vh others now gen_at s = Some s'" and "store_ok s"
    and "gr_reason job \<noteq> ''source_update''" and "job \<in> set (db_gens s)"
  shows "(\<exists>c \<in> set (db_claims s). cl_id c = gr_claim job \<and> cl_status c = ClaimReserved \<and>
        cl_active c = Some (ss_generation_id job)) \<and>
    (\<exists>c \<in> set (db_claims s'). cl_id c = gr_claim job \<and> cl_status c = ClaimAccepted \<and>
        cl_consumed_at c = Some gen_at \<and> cl_active c = None) \<and>
    (\<exists>g \<in> set (db_gens s'). ss_generation_id g = ss_generation_id job \<and> ss_stage g = Succeeded \<and>
        ss_candidate_hash g = Some ch \<and> ss_verdict_hash g = Some vh)"
proof -
  obtain e rows where e: "plan_pattern_transition (stage_of job) (PublishStage ch vh) now = Inr e"
    and guard: "publication_guard job others s = Some s"
    and a: "accept_claim (gr_claim job) (gr_user job) (ss_generation_id job) gen_at (db_claims s) = Some rows"
    and claims: "db_claims s' = rows"
    and gens: "db_gens s' = sql_update (\<lambda>g. ss_generation_id g = ss_generation_id job \<and>
        ss_stage_generation g = ss_stage_generation job \<and> \<not> finished_stage (ss_stage g))
        (gen_mutation e (iso_string now)) (db_gens s)"
    and live: "list_ex (\<lambda>g. ss_generation_id g = ss_generation_id job \<and>
        ss_stage_generation g = ss_stage_generation job \<and> \<not> finished_stage (ss_stage g)) (db_gens s)"
    by (rule published_rows [OF assms(1,3)])
  have same: "g = job" if "g \<in> set (db_gens s)" "ss_generation_id g = ss_generation_id job" for g
    using assms(2,4) that distinct_map_eq [of ss_generation_id "db_gens s"] by (simp add: store_ok_def)
  obtain c where c: "c \<in> set (db_claims s)" "cl_id c = gr_claim job" "cl_user c = gr_user job" "cl_status c = ClaimReserved"
    "cl_consumed_at c = None" "cl_active c = Some (ss_generation_id job)"
    using guard same assms(3) by (auto simp: publication_guard_def probe_def list_ex_iff split: if_splits)
  define c' where "c' = c\<lparr>cl_status := ClaimAccepted, cl_active := None, cl_consumed_at := Some gen_at,
         cl_accepted_at := Some gen_at, cl_updated_at := gen_at\<rparr>"
  have "c' \<in> set (db_claims s')"
    unfolding claims update_claims_Some(1) [OF a [unfolded accept_claim_def]] sql_update_in
    using c by (intro bexI [of _ c]) (simp_all add: c'_def)
  moreover have "gen_mutation e (iso_string now) job \<in> set (db_gens s')"
    using live same unfolding gens sql_update_in by (intro bexI [of _ job]) (auto simp: list_ex_iff assms(4))
  moreover have "ss_stage (te_next e) = Succeeded" "ss_candidate_hash (te_next e) = Some ch" "ss_verdict_hash (te_next e) = Some vh"
    using e by (auto simp: plan_unfold split: if_splits)
  ultimately show ?thesis
    using c by (intro conjI bexI [of _ c] bexI [of _ c'] bexI [of _ "gen_mutation e (iso_string now) job"])
      (simp_all add: c'_def gen_mutation_def Let_def)
qed

definition example_verified :: gen_row where
  "example_verified = stage_state.extend ((fresh_stage ''g'')\<lparr>ss_stage := SemanticVerifying, ss_stage_generation := 2,
       ss_plan_hash := Some ''p'', ss_candidate_hash := Some ''h''\<rparr>)
    \<lparr>gr_job_id = ''j'', gr_user = ''u'', gr_claim = ''c'', gr_reason = ''first_open'', gr_updated_at = ''t'',
     gr_finished_at = None, gr_public_failure = None, gr_failure_class = None, gr_cancellation = None,
     gr_retention = None\<rparr>"

definition example_publishing :: store where
  "example_publishing =
     \<lparr>db_jobs = [\<lparr>jb_id = ''j'', jb_user = ''u'', jb_type = pattern_job_type, jb_status = JobRunning, jb_token = Some ''tok'',
         jb_lease = Some ''l'', jb_available = None, jb_dispatched = None, jb_started = None, jb_finished = None,
         jb_result_class = None, jb_attempts = 1\<rparr>],
      db_gens = [example_verified],
      db_claims = [\<lparr>cl_id = ''c'', cl_user = ''u'', cl_fingerprint = ''f'', cl_last_chart = Some ''h'',
         cl_status = ClaimReserved, cl_active = Some ''g'', cl_pending = None, cl_consumed_at = None,
         cl_accepted_at = None, cl_deleted_at = None, cl_superseded_at = None, cl_withdrawn_at = None,
         cl_created_at = ''t'', cl_updated_at = ''t''\<rparr>],
      db_active = [''u'']\<rparr>"

theorem publication_consumes_the_claim_witness:
  "\<exists>s. publish_pattern example_verified ''tok'' ''h'' ''v'' True 9 ''t9'' example_publishing = Some s \<and>
     (\<exists>c \<in> set (db_claims s). cl_status c = ClaimAccepted \<and> cl_consumed_at c = Some ''t9'')"
proof -
  obtain s where s: "publish_pattern example_verified ''tok'' ''h'' ''v'' True 9 ''t9'' example_publishing = Some s"
    by (simp add: publish_pattern_def build_transition_statements_def and_then_def plan_unfold stage_of_def
        example_verified_def stage_state.defs fresh_stage_def publication_guard_def probe_def example_publishing_def
        ownership_probes_def finished_stage_def publication_claim_def on_claims_def accept_claim_def update_claims_def
        claim_simps sql_update_def transition_mutations_def update_jobs_def update_gens_def)
  have "store_ok example_publishing"
    by (simp add: store_ok_def table_ok_def claim_simps example_publishing_def)
  with publication_consumes_the_claim [OF s] show ?thesis
    using s by (auto simp: example_publishing_def example_verified_def stage_state.defs)
qed

end
