(* ===== verification/Reader_State.thy ===== *)
theory Reader_State
  imports Pattern_Jobs
begin

text \<open>
  What a reader is shown and what a request does: \<open>buildPatternState\<close> of
  \<open>apps/api/src/services/pattern-state.ts\<close> and the decisions of \<open>enqueuePatternGeneration\<close> in
  \<open>services/pattern-enqueue.ts\<close> up to the reservation batch, which \<open>reserve_generation\<close> models. Both read
  the same tables, the record \<open>reader_tables\<close>. The digest of the chart fingerprint is the argument \<open>sha\<close>, the
  hash of the creation source (a generated constant) the argument \<open>source\<close>.
\<close>

section \<open>Tables\<close>

record chart_row =
  ch_id :: string
  ch_user :: string
  ch_fingerprint :: string
  ch_accuracy :: string
  ch_active :: bool
  ch_calculated_at :: string

record document_row =
  dr_id :: string
  dr_user :: string
  dr_fingerprint :: string
  dr_locale :: string
  dr_accuracy :: string
  dr_generated_at :: string
  dr_ontology :: string
  dr_source :: string

record consent_row =
  cn_id :: string
  cn_user :: string
  cn_status :: string
  cn_policy :: string
  cn_granted_at :: "string option"
  cn_expires_at :: "string option"
  cn_version :: nat
  cn_created_at :: string

record active_ontology =
  ao_version :: string
  ao_locale :: string
  ao_public :: bool
  ao_origin :: "string option"

text \<open>The job row joined with its \<open>jobs\<close> row: the columns these two readers select.\<close>

record seen_job = gen_row +
  sj_fingerprint :: string
  sj_created_at :: string
  sj_key :: string

text \<open>
  \<open>rt_preferences\<close> is the user's locale and its source; \<open>rt_switch\<close> the environment's
  \<open>PATTERN_GENERATION_ENABLED\<close>; \<open>rt_capacity\<close> and \<open>rt_publisher\<close> what the provider ledger and the publisher
  configuration answer.
\<close>

record reader_tables =
  rt_charts :: "chart_row list"
  rt_preferences :: "(string \<times> string) option"
  rt_ontology :: "active_ontology option"
  rt_releases :: "(string \<times> string) list"
  rt_claims :: "claim_row list"
  rt_documents :: "document_row list"
  rt_jobs :: "seen_job list"
  rt_consents :: "consent_row list"
  rt_switch :: "string option"
  rt_capacity :: bool
  rt_publisher :: bool

section \<open>Readers\<close>

text \<open>The first row in the order of a comparator: \<open>ORDER BY ... LIMIT 1\<close>.\<close>

definition first_by :: "('r \<Rightarrow> 'r \<Rightarrow> int) \<Rightarrow> 'r list \<Rightarrow> 'r option" where
  "first_by cmp rows = (case js_sort cmp rows of [] \<Rightarrow> None | r # _ \<Rightarrow> Some r)"

definition load_active_chart :: "reader_tables \<Rightarrow> string \<Rightarrow> chart_row option" where
  "load_active_chart t u =
     first_by (\<lambda>a b. cmp_asc (ch_calculated_at b) (ch_calculated_at a))
       (filter (\<lambda>c. ch_user c = u \<and> ch_active c) (rt_charts t))"

definition load_claim :: "reader_tables \<Rightarrow> string \<Rightarrow> string \<Rightarrow> claim_row option" where
  "load_claim t u fp = List.find (\<lambda>c. cl_user c = u \<and> cl_fingerprint c = fp) (rt_claims t)"

definition load_document :: "reader_tables \<Rightarrow> string \<Rightarrow> string \<Rightarrow> document_row option" where
  "load_document t u fp = List.find (\<lambda>d. dr_user d = u \<and> dr_fingerprint d = fp) (rt_documents t)"

definition is_ontology_recalled :: "reader_tables \<Rightarrow> string \<Rightarrow> bool" where
  "is_ontology_recalled t version = (js_map_get (rt_releases t) version = Some ''recalled'')"

definition pattern_locale_serves_reader :: "active_ontology \<Rightarrow> string \<Rightarrow> bool" where
  "pattern_locale_serves_reader o' locale = (ao_locale o' = locale)"

definition ontology_serves_account :: "active_ontology option \<Rightarrow> bool" where
  "ontology_serves_account o' =
     (case o' of
        None \<Rightarrow> False
      | Some a \<Rightarrow>
          if ao_origin a = Some ''machine_pipeline'' then ao_public a else ao_origin a = Some ''synthetic_internal'')"

text \<open>The two checks as the callers combine them.\<close>

definition ontology_for :: "active_ontology option \<Rightarrow> string \<Rightarrow> bool" where
  "ontology_for o' locale =
     (ontology_serves_account o' \<and> (case o' of None \<Rightarrow> False | Some a \<Rightarrow> pattern_locale_serves_reader a locale))"

definition consent_policy_version :: string where
  "consent_policy_version = ''1.1.0''"

definition chain :: "int \<Rightarrow> int \<Rightarrow> int" where
  "chain a b = (if a \<noteq> 0 then a else b)"

definition load_latest_consent :: "reader_tables \<Rightarrow> string \<Rightarrow> consent_row option" where
  "load_latest_consent t u =
     first_by (\<lambda>a b. chain (chain (cmp_asc (cn_version b) (cn_version a)) (cmp_asc (cn_created_at b) (cn_created_at a)))
         (cmp_asc (cn_id b) (cn_id a)))
       (filter (\<lambda>c. cn_user c = u) (rt_consents t))"

record generation_grant =
  gg_consent_id :: string
  gg_granted_at :: string

definition load_generation_grant :: "reader_tables \<Rightarrow> string \<Rightarrow> string \<Rightarrow> generation_grant option" where
  "load_generation_grant t u now =
     (case load_latest_consent t u of
        None \<Rightarrow> None
      | Some row \<Rightarrow>
          if cn_status row \<noteq> ''granted'' \<or> \<not> truthy (cn_granted_at row) \<or>
             (case cn_expires_at row of None \<Rightarrow> False | Some x \<Rightarrow> x \<le> now)
          then None
          else if cn_policy row \<noteq> consent_policy_version then None
          else Some \<lparr>gg_consent_id = cn_id row, gg_granted_at = the (cn_granted_at row)\<rparr>)"

definition generation_is_enabled :: "string option \<Rightarrow> bool" where
  "generation_is_enabled switch = (case switch of None \<Rightarrow> True | Some v \<Rightarrow> js_trim v = ''1'')"

definition failure_is_retryable :: "reader_tables \<Rightarrow> string option \<Rightarrow> bool" where
  "failure_is_retryable t failure_class =
     (if \<not> generation_is_enabled (rt_switch t) then False
      else if failure_class \<noteq> Some ''publisher_budget_exhausted'' then True
      else rt_capacity t)"

section \<open>The state document\<close>

datatype reader_state =
    ChartRequired | LocaleConfirmationRequired | ConsentRequired | OntologyUnavailable | AvailableState
  | StageState public_stage | ReadyState | FailedState | DeletedState | WithdrawnState

record state_generation =
  sg_generation_id :: string
  sg_stage :: public_stage
  sg_updated_at :: string
  sg_started_at :: string
  sg_retryable :: bool

record state_pattern =
  sp_pattern_id :: string
  sp_generated_at :: string
  sp_locale :: string
  sp_accuracy :: string

record state_regeneration =
  sr_eligible :: bool
  sr_generation :: "state_generation option"
  sr_failure :: "state_generation option"

record state_document =
  sd_state :: reader_state
  sd_chart :: "(string \<times> string) option"
  sd_grant :: "generation_grant option"
  sd_generation :: "state_generation option"
  sd_pattern :: "state_pattern option"
  sd_regeneration :: "state_regeneration option"

definition empty_state :: "reader_state \<Rightarrow> (string \<times> string) option \<Rightarrow> generation_grant option \<Rightarrow> state_document" where
  "empty_state st chart grant =
     \<lparr>sd_state = st, sd_chart = chart, sd_grant = grant, sd_generation = None, sd_pattern = None, sd_regeneration = None\<rparr>"

definition pattern_generation_state :: "seen_job \<Rightarrow> public_stage \<Rightarrow> bool \<Rightarrow> state_generation" where
  "pattern_generation_state row stage retryable =
     \<lparr>sg_generation_id = ss_generation_id row, sg_stage = stage, sg_updated_at = gr_updated_at row,
      sg_started_at = sj_created_at row, sg_retryable = retryable\<rparr>"

definition failure_stage :: "seen_job \<Rightarrow> public_stage" where
  "failure_stage row = orelse (public_failure_stage_for (gr_public_failure row)) OrganizingEvidence"

definition latest_failure :: "reader_tables \<Rightarrow> string \<Rightarrow> string \<Rightarrow> seen_job option" where
  "latest_failure t u fp =
     first_by (\<lambda>a b. cmp_asc (gr_updated_at b) (gr_updated_at a))
       (filter (\<lambda>g. gr_user g = u \<and> sj_fingerprint g = fp \<and> ss_stage g = Failed) (rt_jobs t))"

definition latest_regeneration_failure :: "reader_tables \<Rightarrow> string \<Rightarrow> string \<Rightarrow> string \<Rightarrow> seen_job option" where
  "latest_regeneration_failure t u fp since =
     first_by (\<lambda>a b. chain (cmp_asc (gr_updated_at b) (gr_updated_at a)) (cmp_asc (ss_generation_id b) (ss_generation_id a)))
       (filter (\<lambda>g. gr_user g = u \<and> sj_fingerprint g = fp \<and> gr_reason g = ''source_update'' \<and> ss_stage g = Failed \<and>
         since < sj_created_at g) (rt_jobs t))"

definition find_job :: "reader_tables \<Rightarrow> string \<Rightarrow> string \<Rightarrow> seen_job option" where
  "find_job t u gid = List.find (\<lambda>g. ss_generation_id g = gid \<and> gr_user g = u) (rt_jobs t)"

definition find_regeneration :: "reader_tables \<Rightarrow> string \<Rightarrow> string \<Rightarrow> seen_job option" where
  "find_regeneration t u gid =
     List.find (\<lambda>g. ss_generation_id g = gid \<and> gr_user g = u \<and> gr_reason g = ''source_update'') (rt_jobs t)"

definition can_regenerate ::
  "reader_tables \<Rightarrow> string \<Rightarrow> generation_grant option \<Rightarrow> string \<Rightarrow> document_row \<Rightarrow> bool" where
  "can_regenerate t source grant locale document =
     (generation_is_enabled (rt_switch t) \<and> dr_source document \<noteq> source \<and> grant \<noteq> None \<and>
      ontology_for (rt_ontology t) locale)"

definition regeneration_block ::
  "reader_tables \<Rightarrow> string \<Rightarrow> string \<Rightarrow> string \<Rightarrow> generation_grant option \<Rightarrow> string \<Rightarrow> claim_row \<Rightarrow> document_row \<Rightarrow>
   state_regeneration" where
  "regeneration_block t u fp source grant locale claim document =
     (let eligible = can_regenerate t source grant locale document;
          plain = \<lparr>sr_eligible = eligible, sr_generation = None, sr_failure = None\<rparr>
      in if truthy (cl_pending claim)
         then (case find_regeneration t u (the (cl_pending claim)) of
                 None \<Rightarrow> plain
               | Some active \<Rightarrow>
                   (case public_stage_for (ss_stage active) of
                      None \<Rightarrow> plain
                    | Some st \<Rightarrow> \<lparr>sr_eligible = False,
                        sr_generation = Some (pattern_generation_state active st False), sr_failure = None\<rparr>))
         else if eligible
         then (case latest_regeneration_failure t u fp (dr_generated_at document) of
                 None \<Rightarrow> plain
               | Some failed \<Rightarrow> \<lparr>sr_eligible = True, sr_generation = None,
                   sr_failure = Some (pattern_generation_state failed (failure_stage failed)
                     (failure_is_retryable t (gr_failure_class failed)))\<rparr>)
         else plain)"

text \<open>The part below the claim's own answers: the ontology, the locale and the consent.\<close>

definition open_state ::
  "reader_tables \<Rightarrow> (string \<times> string) option \<Rightarrow> generation_grant option \<Rightarrow> string \<Rightarrow> state_document" where
  "open_state t chart grant locale =
     (if \<not> ontology_serves_account (rt_ontology t) then empty_state OntologyUnavailable chart grant
      else if \<not> ontology_for (rt_ontology t) locale then empty_state LocaleConfirmationRequired chart grant
      else if grant = None then empty_state ConsentRequired chart grant
      else empty_state AvailableState chart grant)"

text \<open>The failed attempt of an available claim; \<open>None\<close> falls through.\<close>

definition failed_state ::
  "reader_tables \<Rightarrow> string \<Rightarrow> string \<Rightarrow> (string \<times> string) option \<Rightarrow> generation_grant option \<Rightarrow> string \<Rightarrow> state_document option" where
  "failed_state t u fp chart grant locale =
     map_option (\<lambda>failed.
       if ontology_serves_account (rt_ontology t) \<and> \<not> ontology_for (rt_ontology t) locale
       then empty_state LocaleConfirmationRequired chart grant
       else (empty_state FailedState chart grant)\<lparr>sd_generation := Some (pattern_generation_state failed
         (failure_stage failed) (grant \<noteq> None \<and> failure_is_retryable t (gr_failure_class failed)))\<rparr>)
     (latest_failure t u fp)"

text \<open>The generation of a reserved claim; \<open>None\<close> falls through.\<close>

definition reserved_state ::
  "reader_tables \<Rightarrow> string \<Rightarrow> string \<Rightarrow> (string \<times> string) option \<Rightarrow> generation_grant option \<Rightarrow> state_document option" where
  "reserved_state t u gid chart grant =
     (case find_job t u gid of
        None \<Rightarrow> None
      | Some job \<Rightarrow>
          if ss_stage job = Failed
          then Some ((empty_state FailedState chart grant)\<lparr>sd_generation := Some (pattern_generation_state job
            (orelse (public_stage_for (ss_stage job)) OrganizingEvidence) (grant \<noteq> None))\<rparr>)
          else map_option (\<lambda>st. (empty_state (StageState st) chart grant)\<lparr>sd_generation :=
            Some (pattern_generation_state job st False)\<rparr>) (public_stage_for (ss_stage job)))"

definition ready_state ::
  "reader_tables \<Rightarrow> string \<Rightarrow> string \<Rightarrow> string \<Rightarrow> (string \<times> string) option \<Rightarrow> generation_grant option \<Rightarrow> string \<Rightarrow>
   claim_row \<Rightarrow> document_row \<Rightarrow> state_document" where
  "ready_state t u fp source chart grant locale claim document =
     (if dr_fingerprint document \<noteq> fp then empty_state AvailableState chart grant
      else (empty_state ReadyState chart grant)
        \<lparr>sd_pattern := Some \<lparr>sp_pattern_id = dr_id document, sp_generated_at = dr_generated_at document,
           sp_locale = dr_locale document, sp_accuracy = dr_accuracy document\<rparr>,
         sd_regeneration := Some (regeneration_block t u fp source grant locale claim document)\<rparr>)"

text \<open>The decisions once chart and locale are there.\<close>

definition claim_state ::
  "reader_tables \<Rightarrow> string \<Rightarrow> string \<Rightarrow> string \<Rightarrow> (string \<times> string) option \<Rightarrow> generation_grant option \<Rightarrow> string \<Rightarrow>
   claim_row option \<Rightarrow> document_row option \<Rightarrow> state_document" where
  "claim_state t u fp source chart grant locale claim document =
     (let status = map_option cl_status claim in
      if (case document of None \<Rightarrow> False | Some d \<Rightarrow> is_ontology_recalled t (dr_ontology d))
      then empty_state WithdrawnState chart grant
      else if status = Some ClaimDeleted then empty_state DeletedState chart grant
      else if status = Some ClaimWithdrawn then empty_state WithdrawnState chart grant
      else if status = Some ClaimSuperseded \<and> document = None then empty_state DeletedState chart grant
      else (case (if status = Some ClaimAvailable then failed_state t u fp chart grant locale else None) of
        Some doc \<Rightarrow> doc
      | None \<Rightarrow>
         if document \<noteq> None \<and> status = Some ClaimAccepted
         then ready_state t u fp source chart grant locale (the claim) (the document)
         else (case (if status = Some ClaimReserved \<and> truthy (cl_active (the claim))
               then reserved_state t u (the (cl_active (the claim))) chart grant else None) of
           Some doc \<Rightarrow> doc
         | None \<Rightarrow> open_state t chart grant locale)))"

definition build_pattern_state ::
  "(string \<Rightarrow> string) \<Rightarrow> string \<Rightarrow> reader_tables \<Rightarrow> string \<Rightarrow> string \<Rightarrow> state_document" where
  "build_pattern_state sha source t u now =
     (let grant = load_generation_grant t u now in
      case load_active_chart t u of
        None \<Rightarrow> empty_state ChartRequired None grant
      | Some chart \<Rightarrow>
         (let block = Some (ch_id chart, ch_accuracy chart) in
          case rt_preferences t of
            None \<Rightarrow> empty_state LocaleConfirmationRequired block grant
          | Some (locale, origin) \<Rightarrow>
              if origin \<noteq> ''user_confirmed'' then empty_state LocaleConfirmationRequired block grant
              else (let fp = sha (ch_fingerprint chart) in
                claim_state t u fp source block grant locale (load_claim t u fp) (load_document t u fp))))"

section \<open>The decisions of a request\<close>

record reservation_plan =
  rp_source_update :: bool
  rp_claim :: "string option"
  rp_new_consent :: bool
  rp_chart :: string
  rp_fingerprint :: string

datatype enqueue_outcome =
    Refused nat string
  | Replayed string replay_stage
  | Reserves reservation_plan

definition load_stored_reservation :: "reader_tables \<Rightarrow> string \<Rightarrow> string \<Rightarrow> seen_job option" where
  "load_stored_reservation t u key = List.find (\<lambda>g. gr_user g = u \<and> sj_key g = key) (rt_jobs t)"

text \<open>The refusals of the claim; \<open>None\<close> lets the request go on, \<open>Some\<close> ends it.\<close>

definition source_update_outcome ::
  "reader_tables \<Rightarrow> string \<Rightarrow> string \<Rightarrow> generation_grant option \<Rightarrow> claim_row option \<Rightarrow> document_row option \<Rightarrow>
   enqueue_outcome option" where
  "source_update_outcome t u source grant claim document =
     (case (claim, document) of
        (Some c, Some d) \<Rightarrow>
          if cl_status c \<noteq> ClaimAccepted then Some (Refused 409 ''pattern_regeneration_not_available'')
          else if truthy (cl_pending c)
          then (case find_regeneration t u (the (cl_pending c)) of
                  Some job \<Rightarrow> Some (Replayed (the (cl_pending c)) (accepted_replay_stage (ss_stage job)))
                | None \<Rightarrow> Some (Refused 409 ''pattern_regeneration_in_progress''))
          else if dr_source d = source then Some (Refused 409 ''pattern_regeneration_not_available'')
          else if grant = None then Some (Refused 409 ''pattern_generation_consent_required'')
          else None
      | _ \<Rightarrow> Some (Refused 409 ''pattern_regeneration_not_available''))"

definition claim_outcome ::
  "reader_tables \<Rightarrow> string \<Rightarrow> string \<Rightarrow> string \<Rightarrow> generation_grant option \<Rightarrow> claim_row option \<Rightarrow> document_row option \<Rightarrow>
   enqueue_outcome option" where
  "claim_outcome t u reason source grant claim document =
     (if reason = ''source_update'' then source_update_outcome t u source grant claim document
      else (case claim of
        None \<Rightarrow> None
      | Some c \<Rightarrow> if is_consumed_status (cl_status c) then Some (Refused 409 ''pattern_already_consumed'') else None))"

definition reserved_outcome :: "reader_tables \<Rightarrow> string \<Rightarrow> claim_row option \<Rightarrow> enqueue_outcome option" where
  "reserved_outcome t u claim =
     (case claim of
        None \<Rightarrow> None
      | Some c \<Rightarrow>
          if cl_status c = ClaimReserved \<and> truthy (cl_active c)
          then Some (Replayed (the (cl_active c)) (accepted_replay_stage
            (case find_job t u (the (cl_active c)) of None \<Rightarrow> Reserved | Some job \<Rightarrow> ss_stage job)))
          else None)"

definition enqueue_for_chart ::
  "reader_tables \<Rightarrow> string \<Rightarrow> string \<Rightarrow> string \<Rightarrow> generation_grant option \<Rightarrow> chart_row \<Rightarrow> string \<Rightarrow> enqueue_outcome" where
  "enqueue_for_chart t u reason source grant chart fp =
     (let claim = load_claim t u fp;
          document = (if reason = ''source_update'' then load_document t u fp else None)
      in case claim_outcome t u reason source grant claim document of
           Some outcome \<Rightarrow> outcome
         | None \<Rightarrow>
            (case reserved_outcome t u claim of
               Some outcome \<Rightarrow> outcome
             | None \<Rightarrow>
                 if reason = ''failed_attempt_retry'' \<and> latest_failure t u fp = None
                 then Refused 409 ''pattern_retry_not_available''
                 else if \<not> rt_publisher t then Refused 503 ''pattern_generation_unavailable''
                 else if reason = ''chart_correction'' \<and> grant = None
                 then Refused 409 ''pattern_generation_consent_required''
                 else Reserves \<lparr>rp_source_update = (reason = ''source_update''), rp_claim = map_option cl_id claim,
                   rp_new_consent = (grant = None), rp_chart = ch_id chart, rp_fingerprint = fp\<rparr>))"

definition enqueue_decision ::
  "(string \<Rightarrow> string) \<Rightarrow> string \<Rightarrow> reader_tables \<Rightarrow> string \<Rightarrow> string \<Rightarrow> string \<Rightarrow> string \<Rightarrow> string \<Rightarrow> enqueue_outcome" where
  "enqueue_decision sha source t u reason policy key now =
     (if policy \<noteq> consent_policy_version then Refused 409 ''consent_policy_version_stale''
      else (case load_stored_reservation t u key of
        Some existing \<Rightarrow>
          if gr_reason existing \<noteq> reason then Refused 409 ''idempotency_key_reused''
          else Replayed (ss_generation_id existing) (accepted_replay_stage (ss_stage existing))
      | None \<Rightarrow>
          if \<not> generation_is_enabled (rt_switch t) then Refused 503 ''pattern_generation_paused''
          else (case load_active_chart t u of
            None \<Rightarrow> Refused 409 ''chart_required''
          | Some chart \<Rightarrow>
             (case rt_preferences t of
                None \<Rightarrow> Refused 409 ''locale_confirmation_required''
              | Some (locale, origin) \<Rightarrow>
                  if origin \<noteq> ''user_confirmed'' then Refused 409 ''locale_confirmation_required''
                  else if \<not> ontology_serves_account (rt_ontology t) then Refused 409 ''ontology_unavailable''
                  else if \<not> ontology_for (rt_ontology t) locale then Refused 409 ''locale_unsupported''
                  else enqueue_for_chart t u reason source (load_generation_grant t u now) chart
                    (sha (ch_fingerprint chart))))))"

section \<open>What the state says of chart, claim and document\<close>

text \<open>A request that is not answered before the tables of the reader are looked at.\<close>

definition admitted :: "reader_tables \<Rightarrow> string \<Rightarrow> string \<Rightarrow> string \<Rightarrow> bool" where
  "admitted t u policy key =
     (policy = consent_policy_version \<and> load_stored_reservation t u key = None \<and> generation_is_enabled (rt_switch t))"

lemma enqueue_admitted:
  assumes "admitted t u policy key" and "load_active_chart t u = Some chart"
    and "rt_preferences t = Some (locale, ''user_confirmed'')"
  shows "enqueue_decision sha source t u reason policy key now =
    (if \<not> ontology_serves_account (rt_ontology t) then Refused 409 ''ontology_unavailable''
     else if \<not> ontology_for (rt_ontology t) locale then Refused 409 ''locale_unsupported''
     else enqueue_for_chart t u reason source (load_generation_grant t u now) chart (sha (ch_fingerprint chart)))"
  using assms by (simp add: enqueue_decision_def admitted_def)

lemma empty_state_simps [simp]:
  "sd_state (empty_state st c g) = st" "sd_regeneration (empty_state st c g) = None"
  "sd_generation (empty_state st c g) = None" "sd_grant (empty_state st c g) = g"
  by (simp_all add: empty_state_def)

text \<open>Every state but the first two is the answer of \<open>claim_state\<close>.\<close>

lemma state_cases:
  assumes "build_pattern_state sha source t u now = doc"
    and "sd_state doc \<notin> {ChartRequired, LocaleConfirmationRequired}"
  obtains chart loc where "load_active_chart t u = Some chart"
    and "rt_preferences t = Some (loc, ''user_confirmed'')"
    and "doc = claim_state t u (sha (ch_fingerprint chart)) source (Some (ch_id chart, ch_accuracy chart))
      (load_generation_grant t u now) loc (load_claim t u (sha (ch_fingerprint chart)))
      (load_document t u (sha (ch_fingerprint chart)))"
  using assms by (auto simp: build_pattern_state_def Let_def split: option.splits if_splits prod.splits)

lemma document_fingerprint: "load_document t u fp = Some d \<Longrightarrow> dr_fingerprint d = fp"
  by (auto simp: load_document_def dest: find_SomeD)

lemma open_state_open:
  assumes "sd_state (open_state t chart grant locale) \<in> {AvailableState, ConsentRequired}"
  shows "ontology_serves_account (rt_ontology t)" and "ontology_for (rt_ontology t) locale"
  using assms by (auto simp: open_state_def split: if_splits)

text \<open>The answers of the parts of \<open>claim_state\<close>, by their state.\<close>

lemma ready_state_state:
  "dr_fingerprint d = fp \<Longrightarrow> sd_state (ready_state t u fp source chart grant loc c d) = ReadyState"
  by (simp add: ready_state_def empty_state_def)

lemma failed_state_state:
  "failed_state t u fp chart grant loc = Some doc \<Longrightarrow> sd_state doc \<in> {LocaleConfirmationRequired, FailedState}"
  by (auto simp: failed_state_def empty_state_def split: if_splits)

lemma reserved_state_state:
  "reserved_state t u gid chart grant = Some doc \<Longrightarrow> sd_state doc = FailedState \<or> (\<exists>st. sd_state doc = StageState st)"
  by (auto simp: reserved_state_def empty_state_def split: option.splits if_splits)

lemma open_state_state:
  "sd_state (open_state t chart grant loc) \<in>
     {OntologyUnavailable, LocaleConfirmationRequired, ConsentRequired, AvailableState}"
  by (simp add: open_state_def)

text \<open>What is left of the claim when the state offers a first generation.\<close>

definition consumed_without_state :: "claim_row option \<Rightarrow> document_row option \<Rightarrow> bool" where
  "consumed_without_state claim document =
     (\<exists>c. claim = Some c \<and>
       (cl_status c = ClaimAccepted \<and> document = None \<or> cl_status c = ClaimSuperseded \<and> document \<noteq> None))"

lemma claim_state_split:
  assumes "sd_state (claim_state t u fp source chart grant loc claim document) \<notin> {WithdrawnState, DeletedState}"
    and "st = map_option cl_status claim"
  shows "st \<noteq> Some ClaimDeleted" and "st \<noteq> Some ClaimWithdrawn" and "\<not> (st = Some ClaimSuperseded \<and> document = None)"
    and "claim_state t u fp source chart grant loc claim document =
      (case (if st = Some ClaimAvailable then failed_state t u fp chart grant loc else None) of
         Some doc \<Rightarrow> doc
       | None \<Rightarrow> if document \<noteq> None \<and> st = Some ClaimAccepted
           then ready_state t u fp source chart grant loc (the claim) (the document)
           else (case (if st = Some ClaimReserved \<and> truthy (cl_active (the claim))
               then reserved_state t u (the (cl_active (the claim))) chart grant else None) of
             Some doc \<Rightarrow> doc | None \<Rightarrow> open_state t chart grant loc))"
proof -
  have not: "\<not> (case document of None \<Rightarrow> False | Some d \<Rightarrow> is_ontology_recalled t (dr_ontology d))"
    "st \<noteq> Some ClaimDeleted" "st \<noteq> Some ClaimWithdrawn" "\<not> (st = Some ClaimSuperseded \<and> document = None)"
    using assms(1) by (auto simp: claim_state_def Let_def assms(2) [symmetric] split: if_splits)
  then show "st \<noteq> Some ClaimDeleted" "st \<noteq> Some ClaimWithdrawn" "\<not> (st = Some ClaimSuperseded \<and> document = None)"
    by simp_all
  show "claim_state t u fp source chart grant loc claim document =
      (case (if st = Some ClaimAvailable then failed_state t u fp chart grant loc else None) of
         Some doc \<Rightarrow> doc
       | None \<Rightarrow> if document \<noteq> None \<and> st = Some ClaimAccepted
           then ready_state t u fp source chart grant loc (the claim) (the document)
           else (case (if st = Some ClaimReserved \<and> truthy (cl_active (the claim))
               then reserved_state t u (the (cl_active (the claim))) chart grant else None) of
             Some doc \<Rightarrow> doc | None \<Rightarrow> open_state t chart grant loc))"
    using not by (simp only: claim_state_def Let_def assms(2) [symmetric] if_False if_True simp_thms)
qed

lemma claim_state_open:
  assumes "sd_state (claim_state t u fp source chart grant loc claim document) \<in> {AvailableState, ConsentRequired}"
    and "\<And>d. document = Some d \<Longrightarrow> dr_fingerprint d = fp"
  shows "claim_state t u fp source chart grant loc claim document = open_state t chart grant loc"
    and "\<And>c. claim = Some c \<Longrightarrow> is_consumed_status (cl_status c) \<Longrightarrow> consumed_without_state claim document"
proof -
  define st where "st = map_option cl_status claim"
  have notin: "sd_state (claim_state t u fp source chart grant loc claim document) \<notin> {WithdrawnState, DeletedState}"
    using assms(1) by auto
  note not = claim_state_split(1-3) [OF notin st_def] and eq = claim_state_split(4) [OF notin st_def]
  let ?failed = "if st = Some ClaimAvailable then failed_state t u fp chart grant loc else None"
  let ?reserved = "if st = Some ClaimReserved \<and> truthy (cl_active (the claim))
    then reserved_state t u (the (cl_active (the claim))) chart grant else None"
  have f: "?failed = None"
    using assms(1) failed_state_state [of t u fp chart grant loc] unfolding eq by (fastforce split: if_splits option.splits)
  have r: "\<not> (document \<noteq> None \<and> st = Some ClaimAccepted)"
    using assms(1) ready_state_state [OF assms(2), of "the document"] unfolding eq f by (auto split: if_splits)
  have v: "?reserved = None"
    using assms(1) reserved_state_state [of t u "the (cl_active (the claim))" chart grant] unfolding eq f
    using r by (fastforce split: if_splits option.splits)
  show "claim_state t u fp source chart grant loc claim document = open_state t chart grant loc"
    unfolding eq f v by (simp only: option.case if_not_P [OF r])
  show "consumed_without_state claim document" if "claim = Some c" "is_consumed_status (cl_status c)" for c
    using that not r by (auto simp: consumed_without_state_def is_consumed_status_def st_def)
qed

lemma reserved_outcome_cases:
  "reserved_outcome t u claim = Some outcome \<Longrightarrow>
   \<exists>c gid st. claim = Some c \<and> cl_status c = ClaimReserved \<and> cl_active c = Some gid \<and> outcome = Replayed gid st"
  by (cases claim; cases "cl_active (the claim)") (auto simp: reserved_outcome_def split: if_splits)

text \<open>The answer of a state that shows a running generation.\<close>

lemma claim_state_reserved:
  assumes "sd_state (claim_state t u fp source chart grant loc claim document) = StageState st"
  obtains c gid where "claim = Some c" and "cl_status c = ClaimReserved" and "cl_active c = Some gid" and "gid \<noteq> []"
    and "reserved_state t u gid chart grant = Some (claim_state t u fp source chart grant loc claim document)"
proof -
  define s where "s = map_option cl_status claim"
  have notin: "sd_state (claim_state t u fp source chart grant loc claim document) \<notin> {WithdrawnState, DeletedState}"
    using assms by auto
  note eq = claim_state_split(4) [OF notin s_def]
  let ?failed = "if s = Some ClaimAvailable then failed_state t u fp chart grant loc else None"
  let ?reserved = "if s = Some ClaimReserved \<and> truthy (cl_active (the claim))
    then reserved_state t u (the (cl_active (the claim))) chart grant else None"
  have f: "?failed = None"
    using assms failed_state_state [of t u fp chart grant loc] unfolding eq by (fastforce split: if_splits option.splits)
  have r: "\<not> (document \<noteq> None \<and> s = Some ClaimAccepted)"
    using assms unfolding eq f by (auto simp: ready_state_def split: if_splits)
  have rest: "claim_state t u fp source chart grant loc claim document =
      (case ?reserved of Some doc \<Rightarrow> doc | None \<Rightarrow> open_state t chart grant loc)"
    unfolding eq f by (simp only: option.case if_not_P [OF r])
  have some: "?reserved \<noteq> None"
  proof
    assume "?reserved = None"
    then have "claim_state t u fp source chart grant loc claim document = open_state t chart grant loc"
      using rest by (simp only: option.case)
    then show False using assms open_state_state [of t chart grant loc] by auto
  qed
  then have hit: "s = Some ClaimReserved \<and> truthy (cl_active (the claim))" by presburger
  then obtain c gid where c: "claim = Some c" "cl_status c = ClaimReserved" "cl_active c = Some gid" "gid \<noteq> []"
    by (cases claim; cases "cl_active (the claim)") (auto simp: s_def)
  have eq': "?reserved = reserved_state t u gid chart grant"
    using c by (simp add: s_def)
  obtain doc where doc: "reserved_state t u gid chart grant = Some doc"
    using some eq' by (metis option.exhaust)
  then have "claim_state t u fp source chart grant loc claim document = doc"
    using rest by (simp only: eq' option.case)
  with doc have "reserved_state t u gid chart grant = Some (claim_state t u fp source chart grant loc claim document)"
    by (simp only:)
  with c show thesis by (rule that)
qed

lemma reserved_state_shown:
  assumes "reserved_state t u gid chart grant = Some doc" and "sd_state doc = StageState st" and "sd_generation doc = Some g"
  shows "\<exists>job. find_job t u gid = Some job \<and> public_stage_for (ss_stage job) = Some st \<and> g = pattern_generation_state job st False"
  using assms by (auto simp: reserved_state_def empty_state_def split: option.splits if_splits)

section \<open>Properties\<close>


text \<open>An example: a chart, a confirmed locale, an authored ontology and a granted consent.\<close>

definition example_tables :: reader_tables where
  "example_tables =
     \<lparr>rt_charts = [\<lparr>ch_id = ''ch'', ch_user = ''u'', ch_fingerprint = ''f'', ch_accuracy = ''exact'', ch_active = True,
        ch_calculated_at = ''t''\<rparr>],
      rt_preferences = Some (''en'', ''user_confirmed''),
      rt_ontology = Some \<lparr>ao_version = ''1'', ao_locale = ''en'', ao_public = False, ao_origin = Some ''synthetic_internal''\<rparr>,
      rt_releases = [], rt_claims = [], rt_documents = [], rt_jobs = [],
      rt_consents = [\<lparr>cn_id = ''cn'', cn_user = ''u'', cn_status = ''granted'', cn_policy = ''1.1.0'',
        cn_granted_at = Some ''t'', cn_expires_at = None, cn_version = 1, cn_created_at = ''t''\<rparr>],
      rt_switch = None, rt_capacity = True, rt_publisher = True\<rparr>"

lemmas reader_eval = build_pattern_state_def load_generation_grant_def load_latest_consent_def load_active_chart_def
  first_by_def js_sort_def Let_def consent_policy_version_def claim_state_def load_claim_def load_document_def
  open_state_def ontology_serves_account_def ontology_for_def pattern_locale_serves_reader_def
  admitted_def load_stored_reservation_def generation_is_enabled_def



definition example_failed :: reader_tables where
  "example_failed = example_tables\<lparr>rt_ontology := None,
     rt_claims := [\<lparr>cl_id = ''c'', cl_user = ''u'', cl_fingerprint = ''f'', cl_last_chart = None, cl_status = ClaimAvailable,
       cl_active = None, cl_pending = None, cl_consumed_at = None, cl_accepted_at = None, cl_deleted_at = None,
       cl_superseded_at = None, cl_withdrawn_at = None, cl_created_at = ''t'', cl_updated_at = ''t''\<rparr>],
     rt_jobs := [gen_row.extend (stage_state.extend ((fresh_stage ''g'')\<lparr>ss_stage := Failed, ss_stage_generation := 1\<rparr>)
       \<lparr>gr_job_id = ''j'', gr_user = ''u'', gr_claim = ''c'', gr_reason = ''first_open'', gr_updated_at = ''t1'',
        gr_finished_at = Some ''t1'', gr_public_failure = Some ''writing'', gr_failure_class = Some ''x'',
        gr_cancellation = None, gr_retention = None\<rparr>)
       \<lparr>sj_fingerprint = ''f'', sj_created_at = ''t0'', sj_key = ''k0''\<rparr>]\<rparr>"


text \<open>The answer of a ready state.\<close>

lemma claim_state_ready:
  assumes "sd_state (claim_state t u fp source chart grant loc claim document) = ReadyState"
  obtains c d where "claim = Some c" and "cl_status c = ClaimAccepted" and "document = Some d" and "dr_fingerprint d = fp"
    and "sd_regeneration (claim_state t u fp source chart grant loc claim document) =
      Some (regeneration_block t u fp source grant loc c d)"
proof -
  define st where "st = map_option cl_status claim"
  have notin: "sd_state (claim_state t u fp source chart grant loc claim document) \<notin> {WithdrawnState, DeletedState}"
    using assms by auto
  note not = claim_state_split(1-3) [OF notin st_def] and eq = claim_state_split(4) [OF notin st_def]
  let ?failed = "if st = Some ClaimAvailable then failed_state t u fp chart grant loc else None"
  let ?reserved = "if st = Some ClaimReserved \<and> truthy (cl_active (the claim))
    then reserved_state t u (the (cl_active (the claim))) chart grant else None"
  have f: "?failed = None"
    using assms failed_state_state [of t u fp chart grant loc] unfolding eq by (fastforce split: if_splits option.splits)
  have r: "document \<noteq> None \<and> st = Some ClaimAccepted"
  proof (rule ccontr)
    assume r: "\<not> (document \<noteq> None \<and> st = Some ClaimAccepted)"
    have "sd_state (case ?reserved of Some doc \<Rightarrow> doc | None \<Rightarrow> open_state t chart grant loc) = ReadyState"
      using assms unfolding eq f by (simp only: option.case if_not_P [OF r])
    then show False
      using reserved_state_state [of t u "the (cl_active (the claim))" chart grant] open_state_state [of t chart grant loc]
      by (fastforce split: option.splits if_splits)
  qed
  then obtain c d where cd: "claim = Some c" "cl_status c = ClaimAccepted" "document = Some d"
    by (auto simp: st_def)
  have ready: "claim_state t u fp source chart grant loc claim document = ready_state t u fp source chart grant loc c d"
    unfolding eq f using cd r by simp
  then have "dr_fingerprint d = fp"
    using assms by (auto simp: ready_state_def split: if_splits)
  moreover from this have "sd_regeneration (claim_state t u fp source chart grant loc claim document) =
      Some (regeneration_block t u fp source grant loc c d)"
    unfolding ready by (simp add: ready_state_def)
  ultimately show thesis using cd by (intro that [of c d])
qed

text \<open>
  a regeneration that is offered while none is pending is reserved by an admitted request; one that is
  offered although one is pending is answered by that one's generation, whatever has become of it.
\<close>
theorem offered_regeneration:
  assumes "sd_regeneration (build_pattern_state sha source t u now) = Some block" and "sr_eligible block"
    and "sd_state (build_pattern_state sha source t u now) = ReadyState"
    and "admitted t u policy key" and "rt_publisher t"
  shows "\<exists>c fp. load_claim t u fp = Some c \<and>
    (if truthy (cl_pending c)
     then (case find_regeneration t u (the (cl_pending c)) of
         None \<Rightarrow> enqueue_decision sha source t u ''source_update'' policy key now =
           Refused 409 ''pattern_regeneration_in_progress''
       | Some job \<Rightarrow> public_stage_for (ss_stage job) = None \<and>
           enqueue_decision sha source t u ''source_update'' policy key now =
             Replayed (the (cl_pending c)) (accepted_replay_stage (ss_stage job)))
     else (\<exists>p. enqueue_decision sha source t u ''source_update'' policy key now = Reserves p \<and>
       rp_source_update p \<and> rp_claim p = Some (cl_id c) \<and> \<not> rp_new_consent p))"
proof -
  have no: "sd_state (build_pattern_state sha source t u now) \<notin> {ChartRequired, LocaleConfirmationRequired}"
    using assms(3) by simp
  obtain chart loc where ch: "load_active_chart t u = Some chart" "rt_preferences t = Some (loc, ''user_confirmed'')"
    and doc: "build_pattern_state sha source t u now = claim_state t u (sha (ch_fingerprint chart)) source
      (Some (ch_id chart, ch_accuracy chart)) (load_generation_grant t u now) loc
      (load_claim t u (sha (ch_fingerprint chart))) (load_document t u (sha (ch_fingerprint chart)))"
    by (rule state_cases [OF refl no])
  define fp where "fp = sha (ch_fingerprint chart)"
  define grant where "grant = load_generation_grant t u now"
  obtain c d where c: "load_claim t u fp = Some c" "cl_status c = ClaimAccepted" "load_document t u fp = Some d"
    and block: "block = regeneration_block t u fp source grant loc c d"
    by (rule claim_state_ready [OF assms(3) [unfolded doc, folded fp_def grant_def]])
      (use assms(1) in \<open>simp add: doc fp_def [symmetric] grant_def [symmetric]\<close>)
  have can: "can_regenerate t source grant loc d"
    using assms(2) by (auto simp: block regeneration_block_def Let_def split: if_splits option.splits)
  then have g: "grant \<noteq> None" "dr_source d \<noteq> source" "ontology_for (rt_ontology t) loc"
    by (simp_all add: can_regenerate_def)
  have e: "enqueue_decision sha source t u ''source_update'' policy key now =
      enqueue_for_chart t u ''source_update'' source grant chart fp"
    using enqueue_admitted [OF assms(4) ch] g(3) by (simp add: fp_def grant_def ontology_for_def)
  have no_reserved: "reserved_outcome t u (Some c) = None"
    using c(2) by (simp add: reserved_outcome_def)
  show ?thesis
  proof (cases "truthy (cl_pending c)")
    case False
    then have "claim_outcome t u ''source_update'' source grant (Some c) (Some d) = None"
      using c(2) g by (simp add: claim_outcome_def source_update_outcome_def)
    then have "enqueue_for_chart t u ''source_update'' source grant chart fp =
        Reserves \<lparr>rp_source_update = True, rp_claim = Some (cl_id c), rp_new_consent = False, rp_chart = ch_id chart,
          rp_fingerprint = fp\<rparr>"
      using c no_reserved assms(5) g(1) by (simp add: enqueue_for_chart_def Let_def)
    then show ?thesis
      using False c(1) unfolding e by (intro exI [of _ c] exI [of _ fp]) simp
  next
    case True
    show ?thesis
    proof (cases "find_regeneration t u (the (cl_pending c))")
      case None
      then have "enqueue_for_chart t u ''source_update'' source grant chart fp = Refused 409 ''pattern_regeneration_in_progress''"
        using c True by (simp add: enqueue_for_chart_def Let_def claim_outcome_def source_update_outcome_def)
      then show ?thesis
        using True None c(1) unfolding e by (intro exI [of _ c] exI [of _ fp]) simp
    next
      case (Some job)
      then have "enqueue_for_chart t u ''source_update'' source grant chart fp =
          Replayed (the (cl_pending c)) (accepted_replay_stage (ss_stage job))"
        using c True by (simp add: enqueue_for_chart_def Let_def claim_outcome_def source_update_outcome_def)
      moreover have "public_stage_for (ss_stage job) = None"
        using assms(2) True Some by (auto simp: block regeneration_block_def Let_def split: option.splits)
      ultimately show ?thesis
        using True Some c(1) unfolding e by (intro exI [of _ c] exI [of _ fp]) simp
    qed
  qed
qed

text \<open>An accepted claim that still names a failed regeneration, as the sweep leaves it.\<close>

definition example_stuck :: reader_tables where
  "example_stuck = example_tables\<lparr>
     rt_claims := [\<lparr>cl_id = ''c'', cl_user = ''u'', cl_fingerprint = ''f'', cl_last_chart = None, cl_status = ClaimAccepted,
       cl_active = None, cl_pending = Some ''gen2'', cl_consumed_at = Some ''t'', cl_accepted_at = Some ''t'', cl_deleted_at = None,
       cl_superseded_at = None, cl_withdrawn_at = None, cl_created_at = ''t'', cl_updated_at = ''t''\<rparr>],
     rt_documents := [\<lparr>dr_id = ''d'', dr_user = ''u'', dr_fingerprint = ''f'', dr_locale = ''en'', dr_accuracy = ''exact'',
       dr_generated_at = ''t0'', dr_ontology = ''1'', dr_source = ''old''\<rparr>],
     rt_jobs := [gen_row.extend (stage_state.extend ((fresh_stage ''gen2'')\<lparr>ss_stage := Failed, ss_stage_generation := 1\<rparr>)
       \<lparr>gr_job_id = ''j'', gr_user = ''u'', gr_claim = ''c'', gr_reason = ''source_update'', gr_updated_at = ''t1'',
        gr_finished_at = Some ''t1'', gr_public_failure = None, gr_failure_class = Some ''stage_attempts_exhausted'',
        gr_cancellation = None, gr_retention = None\<rparr>)
       \<lparr>sj_fingerprint = ''f'', sj_created_at = ''t0'', sj_key = ''k0''\<rparr>]\<rparr>"

lemmas stuck_eval = reader_eval example_stuck_def example_tables_def ready_state_def empty_state_def regeneration_block_def
  can_regenerate_def find_regeneration_def gen_row.defs stage_state.defs fresh_stage_def is_ontology_recalled_def js_map_get_def

theorem offered_regeneration_witness:
  "map_option sr_eligible (sd_regeneration (build_pattern_state id ''new'' example_stuck ''u'' ''now'')) = Some True \<and>
   enqueue_decision id ''new'' example_stuck ''u'' ''source_update'' ''1.1.0'' ''k'' ''now'' =
     Replayed ''gen2'' (PublicStage OrganizingEvidence)"
proof -
  obtain block where b: "sd_regeneration (build_pattern_state id ''new'' example_stuck ''u'' ''now'') = Some block" "sr_eligible block"
    by (simp add: stuck_eval)
  have st: "sd_state (build_pattern_state id ''new'' example_stuck ''u'' ''now'') = ReadyState"
    by (simp add: stuck_eval)
  have adm: "admitted example_stuck ''u'' ''1.1.0'' ''k''" "rt_publisher example_stuck"
    by (simp_all add: stuck_eval)
  have claim: "load_claim example_stuck ''u'' fp = Some c \<Longrightarrow> cl_pending c = Some ''gen2''" for fp c
    by (auto simp: load_claim_def example_stuck_def split: if_splits)
  have job: "find_regeneration example_stuck ''u'' ''gen2'' = Some (hd (rt_jobs example_stuck))"
    "ss_stage (hd (rt_jobs example_stuck)) = Failed"
    by (simp_all add: stuck_eval)
  have "accepted_replay_stage Failed = PublicStage OrganizingEvidence"
    by (simp add: accepted_replay_stage_def)
  then show ?thesis
    using offered_regeneration [OF b st adm] b claim job by auto
qed

text \<open>
  while a generation is shown in one of its public stages, an admitted first-generation request is answered
  by that generation at that stage and reserves nothing.
\<close>
theorem shown_generation_is_replayed:
  assumes "sd_state (build_pattern_state sha source t u now) = StageState st"
    and "sd_generation (build_pattern_state sha source t u now) = Some g"
    and "admitted t u policy key" and "reason \<noteq> ''source_update''"
    and "rt_preferences t = Some (loc, origin)" and "ontology_for (rt_ontology t) loc"
  shows "enqueue_decision sha source t u reason policy key now = Replayed (sg_generation_id g) (PublicStage st)"
proof -
  have no: "sd_state (build_pattern_state sha source t u now) \<notin> {ChartRequired, LocaleConfirmationRequired}"
    using assms(1) by simp
  obtain chart loc' where ch: "load_active_chart t u = Some chart" "rt_preferences t = Some (loc', ''user_confirmed'')"
    and doc: "build_pattern_state sha source t u now = claim_state t u (sha (ch_fingerprint chart)) source
      (Some (ch_id chart, ch_accuracy chart)) (load_generation_grant t u now) loc'
      (load_claim t u (sha (ch_fingerprint chart))) (load_document t u (sha (ch_fingerprint chart)))"
    by (rule state_cases [OF refl no])
  define fp where "fp = sha (ch_fingerprint chart)"
  let ?grant = "load_generation_grant t u now" and ?block = "Some (ch_id chart, ch_accuracy chart)"
  obtain c gid where c: "load_claim t u fp = Some c" "cl_status c = ClaimReserved" "cl_active c = Some gid" "gid \<noteq> []"
    and r: "reserved_state t u gid ?block ?grant = Some (build_pattern_state sha source t u now)"
    using claim_state_reserved [OF assms(1) [unfolded doc]] by (auto simp: doc fp_def)
  obtain job where job: "find_job t u gid = Some job" "public_stage_for (ss_stage job) = Some st"
    "g = pattern_generation_state job st False"
    using reserved_state_shown [OF r assms(1,2)] by blast
  have "ss_generation_id job = gid"
    using job(1) by (auto simp: find_job_def dest: find_SomeD)
  moreover have "accepted_replay_stage (ss_stage job) = PublicStage st"
    using job(2) by (simp add: accepted_replay_stage_def)
  moreover have "reserved_outcome t u (Some c) = Some (Replayed gid (accepted_replay_stage (ss_stage job)))"
    using c job(1) by (simp add: reserved_outcome_def)
  moreover have "claim_outcome t u reason source ?grant (Some c) None = None"
    using assms(4) c(2) by (simp add: claim_outcome_def is_consumed_status_def)
  ultimately show ?thesis
    using enqueue_admitted [OF assms(3) ch] assms(4-6) ch(2) c(1) job(3)
    by (simp add: enqueue_for_chart_def Let_def fp_def [symmetric] ontology_for_def pattern_generation_state_def)
qed

text \<open>The first generation of the example reader, being written.\<close>

definition example_writing :: reader_tables where
  "example_writing = example_tables\<lparr>
     rt_claims := [\<lparr>cl_id = ''c'', cl_user = ''u'', cl_fingerprint = ''f'', cl_last_chart = None, cl_status = ClaimReserved,
       cl_active = Some ''g'', cl_pending = None, cl_consumed_at = None, cl_accepted_at = None, cl_deleted_at = None,
       cl_superseded_at = None, cl_withdrawn_at = None, cl_created_at = ''t'', cl_updated_at = ''t''\<rparr>],
     rt_jobs := [gen_row.extend (stage_state.extend ((fresh_stage ''g'')\<lparr>ss_stage := Writing, ss_stage_generation := 1\<rparr>)
       \<lparr>gr_job_id = ''j'', gr_user = ''u'', gr_claim = ''c'', gr_reason = ''first_open'', gr_updated_at = ''t1'',
        gr_finished_at = None, gr_public_failure = None, gr_failure_class = None, gr_cancellation = None, gr_retention = None\<rparr>)
       \<lparr>sj_fingerprint = ''f'', sj_created_at = ''t0'', sj_key = ''k0''\<rparr>]\<rparr>"

theorem shown_generation_is_replayed_witness:
  "enqueue_decision id ''s'' example_writing ''u'' ''first_open'' ''1.1.0'' ''k'' ''now'' =
     Replayed ''g'' (PublicStage WritingStage)"
proof -
  note ev = reader_eval example_writing_def example_tables_def reserved_state_def find_job_def empty_state_def
    gen_row.defs stage_state.defs fresh_stage_def pattern_generation_state_def
  obtain g where g: "sd_generation (build_pattern_state id ''s'' example_writing ''u'' ''now'') = Some g" "sg_generation_id g = ''g''"
    by (simp add: ev)
  have st: "sd_state (build_pattern_state id ''s'' example_writing ''u'' ''now'') = StageState WritingStage"
    by (simp add: ev)
  have adm: "admitted example_writing ''u'' ''1.1.0'' ''k''" "rt_preferences example_writing = Some (''en'', ''user_confirmed'')"
    "ontology_for (rt_ontology example_writing) ''en''"
    by (simp_all add: ev)
  show ?thesis
    using shown_generation_is_replayed [OF st g(1) adm(1) _ adm(2,3), of "''first_open''"] g(2) by simp
qed

end
