(* ===== verification/Request_Flow.thy ===== *)
theory Request_Flow
  imports Reader_State Job_Invariants
begin

text \<open>
  From a decision to the next answer: the reservation \<open>enqueuePatternGeneration\<close> decides on is the batch
  \<open>reserve_generation\<close> of \<open>Pattern_Jobs\<close>; its claims are the ones \<open>buildPatternState\<close> reads next. The theorems
  join the two readers of \<open>Reader_State\<close> with the store of the job batches.
\<close>

section \<open>Rows after a reservation\<close>

text \<open>The job row the batch inserts, as the two readers see it.\<close>

definition reserved_job ::
  "string \<Rightarrow> string \<Rightarrow> string \<Rightarrow> string \<Rightarrow> string \<Rightarrow> string \<Rightarrow> string \<Rightarrow> string \<Rightarrow> seen_job" where
  "reserved_job generation_id job_id user_id claim_id reason fingerprint key now =
     gen_row.extend (stage_state.extend (fresh_stage generation_id)
       \<lparr>gr_job_id = job_id, gr_user = user_id, gr_claim = claim_id, gr_reason = reason, gr_updated_at = now,
        gr_finished_at = None, gr_public_failure = None, gr_failure_class = None, gr_cancellation = None,
        gr_retention = None\<rparr>)
       \<lparr>sj_fingerprint = fingerprint, sj_created_at = now, sj_key = key\<rparr>"

lemma reserved_job_simps [simp]:
  "ss_generation_id (reserved_job g j u c reason fp key now) = g"
  "ss_stage (reserved_job g j u c reason fp key now) = Reserved"
  "gr_user (reserved_job g j u c reason fp key now) = u"
  "gr_reason (reserved_job g j u c reason fp key now) = reason"
  by (simp_all add: reserved_job_def gen_row.defs stage_state.defs fresh_stage_def)

text \<open>The tables once the batch has committed.\<close>

definition after_reservation :: "reader_tables \<Rightarrow> store \<Rightarrow> seen_job \<Rightarrow> reader_tables" where
  "after_reservation t s row = t\<lparr>rt_claims := db_claims s, rt_jobs := rt_jobs t @ [row]\<rparr>"

lemma after_reservation_simps [simp]:
  "load_active_chart (after_reservation t s row) u = load_active_chart t u"
  "load_document (after_reservation t s row) u fp = load_document t u fp"
  "load_generation_grant (after_reservation t s row) u now = load_generation_grant t u now"
  "rt_preferences (after_reservation t s row) = rt_preferences t"
  "rt_ontology (after_reservation t s row) = rt_ontology t"
  "is_ontology_recalled (after_reservation t s row) version = is_ontology_recalled t version"
  by (simp_all add: after_reservation_def load_active_chart_def load_document_def load_generation_grant_def
      load_latest_consent_def is_ontology_recalled_def)

lemma find_append_None: "List.find P xs = None \<Longrightarrow> List.find P (xs @ ys) = List.find P ys"
  by (induction xs) (auto split: if_splits)

lemma find_sql_update:
  assumes "\<And>r. P (upd r) = P r"
  shows "List.find P (sql_update sel upd rows) = map_option (\<lambda>r. if sel r then upd r else r) (List.find P rows)"
  using assms by (induction rows) (auto simp: sql_update_def)

lemma after_reservation_job:
  assumes "ss_generation_id row \<notin> ss_generation_id ` set (rt_jobs t)" and "gr_user row = u"
  shows "find_job (after_reservation t s row) u (ss_generation_id row) = Some row"
    and "gr_reason row = ''source_update'' \<Longrightarrow>
      find_regeneration (after_reservation t s row) u (ss_generation_id row) = Some row"
proof -
  have "List.find (\<lambda>g. ss_generation_id g = ss_generation_id row \<and> gr_user g = u) (rt_jobs t) = None"
    using assms(1) by (auto simp: find_None_iff image_iff)
  from find_append_None [OF this, of "[row]"] show "find_job (after_reservation t s row) u (ss_generation_id row) = Some row"
    using assms(2) by (simp add: find_job_def after_reservation_def)
  have "List.find (\<lambda>g. ss_generation_id g = ss_generation_id row \<and> gr_user g = u \<and> gr_reason g = ''source_update'')
      (rt_jobs t) = None"
    using assms(1) by (auto simp: find_None_iff image_iff)
  from find_append_None [OF this, of "[row]"]
  show "find_regeneration (after_reservation t s row) u (ss_generation_id row) = Some row"
    if "gr_reason row = ''source_update''"
    using assms(2) that by (simp add: find_regeneration_def after_reservation_def)
qed

section \<open>What a decision to reserve knows of the claim\<close>

text \<open>The claim as the batch will find it: absent, or one its statement changes.\<close>

lemma first_reservation:
  assumes "enqueue_for_chart t u reason source grant chart fp = Reserves p" and "reason \<noteq> ''source_update''"
  shows "p = \<lparr>rp_source_update = False, rp_claim = map_option cl_id (load_claim t u fp), rp_new_consent = (grant = None),
      rp_chart = ch_id chart, rp_fingerprint = fp\<rparr>"
    and "\<And>c. load_claim t u fp = Some c \<Longrightarrow> \<not> is_consumed_status (cl_status c) \<and>
      \<not> (cl_status c = ClaimReserved \<and> truthy (cl_active c))"
  using assms
  by (auto simp: enqueue_for_chart_def Let_def claim_outcome_def reserved_outcome_def split: option.splits if_splits)

lemma update_reservation:
  assumes "enqueue_for_chart t u ''source_update'' source grant chart fp = Reserves p"
  obtains c d where "load_claim t u fp = Some c" and "load_document t u fp = Some d" and "cl_status c = ClaimAccepted"
    and "\<not> truthy (cl_pending c)"
    and "p = \<lparr>rp_source_update = True, rp_claim = Some (cl_id c), rp_new_consent = False, rp_chart = ch_id chart,
      rp_fingerprint = fp\<rparr>"
  using assms
  by (auto simp: enqueue_for_chart_def Let_def claim_outcome_def source_update_outcome_def reserved_outcome_def
      split: option.splits if_splits)

lemma decision_for_chart:
  assumes "enqueue_decision sha source t u reason policy key now = Reserves p"
  obtains chart loc where "load_active_chart t u = Some chart" and "rt_preferences t = Some (loc, ''user_confirmed'')"
    and "enqueue_for_chart t u reason source (load_generation_grant t u now) chart (sha (ch_fingerprint chart)) = Reserves p"
  using assms by (auto simp: enqueue_decision_def split: option.splits if_splits prod.splits)

lemma load_claim_SomeD: "load_claim t u fp = Some c \<Longrightarrow> c \<in> set (rt_claims t) \<and> cl_user c = u \<and> cl_fingerprint c = fp"
  by (auto simp: load_claim_def dest: find_SomeD)

text \<open>Identifiers are never the empty string.\<close>

definition named_claims :: "reader_tables \<Rightarrow> bool" where
  "named_claims t = list_all (\<lambda>c. cl_active c \<noteq> Some [] \<and> cl_pending c \<noteq> Some []) (rt_claims t)"

lemma claim_is_available:
  assumes "claim_ok c" and "\<not> is_consumed_status (cl_status c)" and "\<not> (cl_status c = ClaimReserved \<and> truthy (cl_active c))"
    and "cl_active c \<noteq> Some []"
  shows "cl_status c = ClaimAvailable" and "cl_consumed_at c = None"
  using assms by (cases "cl_status c"; auto simp: claim_ok_def claim_check_def is_consumed_status_def truthy_def split: option.splits)+

section \<open>The batch commits\<close>

text \<open>Fresh identifiers for the job and the generation.\<close>

definition fresh_ids :: "string \<Rightarrow> string \<Rightarrow> store \<Rightarrow> bool" where
  "fresh_ids g j s =
     (j \<notin> jb_id ` set (db_jobs s) \<and> list_all (\<lambda>x. ss_generation_id x \<noteq> g \<and> gr_job_id x \<noteq> j) (db_gens s))"

lemma inserts_commit:
  assumes "fresh_ids g j s" and "db_jobs s' = db_jobs s" and "db_gens s' = db_gens s"
  shows "\<exists>s''. run_batch [insert_job j u, insert_generation g j u c reason now] s' = Some s'' \<and>
    db_claims s'' = db_claims s'"
proof -
  have job: "\<not> list_ex (\<lambda>x. jb_id x = j) (db_jobs s')"
    using assms(1,2) by (auto simp: fresh_ids_def list_ex_iff)
  have gen: "\<not> list_ex (\<lambda>x. ss_generation_id x = g \<or> gr_job_id x = j) (db_gens s')"
    using assms(1,3) by (auto simp: fresh_ids_def list_ex_iff list_all_iff)
  show ?thesis
    using job gen by (simp add: insert_job_def insert_generation_def)
qed

lemma batch_commits:
  assumes "run_batch (reservation_statements su ex cid u fp ch g now) s = Some s1" and "fresh_ids g j s"
    and "db_jobs s1 = db_jobs s" and "db_gens s1 = db_gens s"
  shows "\<exists>s'. reserve_generation su ex cid u fp ch g j reason now s = Some s' \<and> db_claims s' = db_claims s1"
  using inserts_commit [OF assms(2-4), of u cid reason now] assms(1)
  by (simp add: reserve_generation_def del: run_batch_simps)

text \<open>The three ways to reserve, each with the claim the next reader finds.\<close>

lemma new_reservation_commits:
  assumes "load_claim t u fp = None" and "db_claims s = rt_claims t" and "cid \<notin> cl_id ` set (db_claims s)" and "fresh_ids g j s"
  shows "\<exists>s' c. reserve_generation False False cid u fp ch g j reason now s = Some s' \<and>
    load_claim (after_reservation t s' row) u fp = Some c \<and> cl_status c = ClaimReserved \<and> cl_active c = Some g"
proof -
  have none: "List.find (\<lambda>c. cl_user c = u \<and> cl_fingerprint c = fp) (db_claims s) = None"
    using assms(1,2) by (simp add: load_claim_def)
  then have free: "\<not> list_ex (\<lambda>r. cl_id r = cid \<or> cl_user r = u \<and> cl_fingerprint r = fp) (db_claims s)"
    using assms(3) by (auto simp: find_None_iff list_ex_iff)
  then have "run_batch (reservation_statements False False cid u fp ch g now) s =
      Some (s\<lparr>db_claims := the (reserve_new_claim cid u fp ch g now (db_claims s))\<rparr>)"
    by (simp add: reservation_statements_def on_claims_def reserve_new_claim_def)
  from batch_commits [OF this assms(4), of reason] obtain s' where
    s': "reserve_generation False False cid u fp ch g j reason now s = Some s'"
      "db_claims s' = the (reserve_new_claim cid u fp ch g now (db_claims s))"
    by auto
  show ?thesis
    by (rule exI, rule exI, rule conjI [OF s'(1)])
      (use free find_append_None [OF none] in \<open>auto simp: load_claim_def after_reservation_def s'(2) reserve_new_claim_def\<close>)
qed

lemma claim_update_commits:
  assumes "load_claim t u fp = Some c" and "db_claims s = rt_claims t" and "sel c"
    and "\<And>r. cl_user (upd r) = cl_user r \<and> cl_fingerprint (upd r) = cl_fingerprint r"
  shows "load_claim (after_reservation t (s\<lparr>db_claims := sql_update sel upd (db_claims s)\<rparr>) row) u fp = Some (upd c)"
    and "upd c \<in> set (sql_update sel upd (db_claims s))"
proof -
  show "load_claim (after_reservation t (s\<lparr>db_claims := sql_update sel upd (db_claims s)\<rparr>) row) u fp = Some (upd c)"
    using assms(1,3) by (simp add: load_claim_def after_reservation_def find_sql_update assms(2,4))
  show "upd c \<in> set (sql_update sel upd (db_claims s))"
    using load_claim_SomeD [OF assms(1)] assms(2,3) by (force simp: sql_update_def)
qed

lemma existing_reservation_commits:
  assumes "load_claim t u fp = Some c" and "db_claims s = rt_claims t" and "table_ok (db_claims s)" and "fresh_ids g j s"
    and "cl_status c = ClaimAvailable" and "cl_consumed_at c = None"
  shows "\<exists>s' c'. reserve_generation False True (cl_id c) u fp ch g j reason now s = Some s' \<and>
    load_claim (after_reservation t s' row) u fp = Some c' \<and> cl_status c' = ClaimReserved \<and> cl_active c' = Some g"
proof -
  let ?sel = "\<lambda>r. cl_id r = cl_id c \<and> cl_user r = u \<and> cl_fingerprint r = fp \<and> cl_status r = ClaimAvailable \<and> cl_consumed_at r = None"
  let ?upd = "\<lambda>r. r\<lparr>cl_status := ClaimReserved, cl_active := Some g, cl_last_chart := Some ch, cl_updated_at := now\<rparr>"
  let ?s = "s\<lparr>db_claims := sql_update ?sel ?upd (db_claims s)\<rparr>"
  have upd: "reserve_existing_claim (cl_id c) u fp ch g now (db_claims s) = Some (sql_update ?sel ?upd (db_claims s))"
    using writers_total(1) [of "db_claims s" "cl_id c" u fp ch g now] assms(3)
    by (auto simp: table_ok_def reserve_existing_claim_def update_claims_def split: if_splits)
  have sel: "?sel c" using assms(5,6) load_claim_SomeD [OF assms(1)] by simp
  note after = claim_update_commits [where sel = ?sel and upd = ?upd, OF assms(1,2) sel, simplified]
  have "\<exists>r \<in> set (db_claims ?s). cl_id r = cl_id c \<and> cl_status r = ClaimReserved \<and> cl_active r = Some g"
    using after(2) by (intro bexI [of _ "?upd c"]) simp_all
  then have "run_batch (reservation_statements False True (cl_id c) u fp ch g now) s = Some ?s"
    using upd by (simp add: reservation_statements_def on_claims_def probe_def list_ex_iff)
  from batch_commits [OF this assms(4), of reason] obtain s' where
    s': "reserve_generation False True (cl_id c) u fp ch g j reason now s = Some s'" "db_claims s' = db_claims ?s"
    by auto
  then have "after_reservation t s' row = after_reservation t ?s row" by (simp add: after_reservation_def)
  then show ?thesis using s'(1) after(1) [of row] by auto
qed

lemma regeneration_commits:
  assumes "load_claim t u fp = Some c" and "db_claims s = rt_claims t" and "table_ok (db_claims s)" and "fresh_ids g j s"
    and "cl_status c = ClaimAccepted" and "cl_consumed_at c \<noteq> None" and "cl_pending c = None"
  shows "\<exists>s' c'. reserve_generation True ex (cl_id c) u fp ch g j reason now s = Some s' \<and>
    load_claim (after_reservation t s' row) u fp = Some c' \<and> cl_status c' = ClaimAccepted \<and> cl_pending c' = Some g"
proof -
  let ?sel = "\<lambda>r. cl_id r = cl_id c \<and> cl_user r = u \<and> cl_fingerprint r = fp \<and> cl_status r = ClaimAccepted \<and>
    cl_consumed_at r \<noteq> None \<and> cl_pending r = None"
  let ?upd = "\<lambda>r. r\<lparr>cl_pending := Some g, cl_last_chart := Some ch, cl_updated_at := now\<rparr>"
  let ?s = "s\<lparr>db_claims := sql_update ?sel ?upd (db_claims s)\<rparr>"
  have upd: "reserve_regeneration (cl_id c) u fp ch g now (db_claims s) = Some (sql_update ?sel ?upd (db_claims s))"
    using writers_total(5) [of "db_claims s" "cl_id c" u fp ch g now] assms(3)
    by (auto simp: table_ok_def reserve_regeneration_def update_claims_def split: if_splits)
  have sel: "?sel c" using assms(5-7) load_claim_SomeD [OF assms(1)] by simp
  note after = claim_update_commits [where sel = ?sel and upd = ?upd, OF assms(1,2) sel, simplified]
  have "\<exists>r \<in> set (db_claims ?s). cl_id r = cl_id c \<and> cl_status r = ClaimAccepted \<and> cl_pending r = Some g"
    using after(2) assms(5) by (intro bexI [of _ "?upd c"]) simp_all
  then have "run_batch (reservation_statements True ex (cl_id c) u fp ch g now) s = Some ?s"
    using upd by (simp add: reservation_statements_def on_claims_def probe_def list_ex_iff)
  from batch_commits [OF this assms(4), of reason] obtain s' where
    s': "reserve_generation True ex (cl_id c) u fp ch g j reason now s = Some s'" "db_claims s' = db_claims ?s"
    by auto
  then have "after_reservation t s' row = after_reservation t ?s row" by (simp add: after_reservation_def)
  then show ?thesis using s'(1) after(1) [of row] assms(5) by auto
qed

section \<open>The next answer\<close>

lemma state_for_chart:
  assumes "load_active_chart t u = Some chart" and "rt_preferences t = Some (loc, ''user_confirmed'')"
  shows "build_pattern_state sha source t u now =
    claim_state t u (sha (ch_fingerprint chart)) source (Some (ch_id chart, ch_accuracy chart)) (load_generation_grant t u now)
      loc (load_claim t u (sha (ch_fingerprint chart))) (load_document t u (sha (ch_fingerprint chart)))"
  using assms by (simp add: build_pattern_state_def Let_def)

lemma claim_state_not_recalled:
  "sd_state (claim_state t u fp source chart grant loc claim document) \<noteq> WithdrawnState \<Longrightarrow> document = Some d \<Longrightarrow>
   \<not> is_ontology_recalled t (dr_ontology d)"
  by (auto simp: claim_state_def)

lemma reserved_claim_is_shown:
  assumes "cl_status c = ClaimReserved" and "cl_active c = Some g" and "g \<noteq> []" and "find_job t u g = Some row"
    and "ss_stage row = Reserved" and "\<And>d. document = Some d \<Longrightarrow> \<not> is_ontology_recalled t (dr_ontology d)"
  shows "claim_state t u fp source chart grant loc (Some c) document =
    (empty_state (StageState OrganizingEvidence) chart grant)
      \<lparr>sd_generation := Some (pattern_generation_state row OrganizingEvidence False)\<rparr>"
  using assms by (cases document) (simp_all add: claim_state_def reserved_state_def)

lemma pending_claim_is_shown:
  assumes "cl_status c = ClaimAccepted" and "cl_pending c = Some g" and "g \<noteq> []" and "find_regeneration t u g = Some row"
    and "ss_stage row = Reserved" and "dr_fingerprint d = fp" and "\<not> is_ontology_recalled t (dr_ontology d)"
  shows "sd_state (claim_state t u fp source chart grant loc (Some c) (Some d)) = ReadyState"
    and "sd_regeneration (claim_state t u fp source chart grant loc (Some c) (Some d)) =
      Some \<lparr>sr_eligible = False, sr_generation = Some (pattern_generation_state row OrganizingEvidence False), sr_failure = None\<rparr>"
  using assms by (simp_all add: claim_state_def ready_state_def regeneration_block_def Let_def)

section \<open>Properties\<close>




text \<open>A reader whose accepted Pattern was written from an earlier source.\<close>

definition example_ready :: reader_tables where
  "example_ready = example_stuck\<lparr>rt_claims := map (cl_pending_update (\<lambda>_. None)) (rt_claims example_stuck), rt_jobs := []\<rparr>"


end
