(* ===== verification/Uncertainty_Disclosure.thy ===== *)
theory Uncertainty_Disclosure
  imports Text_Ops Pattern_Types
begin

text \<open>
  \<open>packages/reading-engine/src/uncertainty-disclosure.ts\<close>: the stored uncertainty report narrowed to
  the closed vocabulary of the daily reading, the disclosure statements it calls for, and the check that a text
  says exactly those. A \<open>throw\<close> is \<open>Inl\<close> with its message; the Unicode tables of the host
  (\<open>normalize("NFKC")\<close>, the category Cf, \<open>toLowerCase\<close>) are the argument \<open>folded\<close>.
\<close>

section \<open>The closed vocabulary\<close>

datatype suppressed_class = SuppressedHouses | SuppressedAngles | SuppressedAngleTransits | SuppressedMoon

fun suppressed_str :: "suppressed_class \<Rightarrow> string" where
  "suppressed_str SuppressedHouses = ''houses''"
| "suppressed_str SuppressedAngles = ''angles''"
| "suppressed_str SuppressedAngleTransits = ''angle_transits''"
| "suppressed_str SuppressedMoon = ''moon_time_sensitive''"

fun suppressed_label :: "suppressed_class \<Rightarrow> string" where
  "suppressed_label SuppressedHouses = ''Houses''"
| "suppressed_label SuppressedAngles = ''Angles''"
| "suppressed_label SuppressedAngleTransits = ''Angle transits''"
| "suppressed_label SuppressedMoon = ''Time-sensitive Moon details''"

definition suppressed_classes :: "suppressed_class list" where
  "suppressed_classes = [SuppressedHouses, SuppressedAngles, SuppressedAngleTransits, SuppressedMoon]"

datatype suppression_reason = NoBirthTime | NoBirthplace

fun suppression_str :: "suppression_reason \<Rightarrow> string" where
  "suppression_str NoBirthTime = ''unknown_birth_time''"
| "suppression_str NoBirthplace = ''birthplace_unavailable''"

text \<open>The four members of \<open>DailyUncertaintyQualification\<close>.\<close>

datatype daily_qualification = QualifiedInstant | QualifiedPlace | QualifiedHouses | QualifiedMoon

fun qualified_feature :: "daily_qualification \<Rightarrow> string" where
  "qualified_feature QualifiedInstant = ''birth_instant''"
| "qualified_feature QualifiedPlace = ''birthplace''"
| "qualified_feature QualifiedHouses = ''houses''"
| "qualified_feature QualifiedMoon = ''moon''"

fun qualified_kind :: "daily_qualification \<Rightarrow> string" where
  "qualified_kind QualifiedInstant = ''technique_specific''"
| "qualified_kind QualifiedPlace = ''technique_specific''"
| "qualified_kind QualifiedHouses = ''approximate_only''"
| "qualified_kind QualifiedMoon = ''low_confidence_moon''"

definition qualifications :: "(daily_qualification \<times> string) list" where
  "qualifications =
     [(QualifiedInstant, ''The time-zone mapping of your local birth time needs confirmation.''),
      (QualifiedPlace, ''Your birthplace needs confirmation.''),
      (QualifiedHouses, ''House details are approximate.''),
      (QualifiedMoon, ''Time-sensitive Moon details have low confidence.'')]"

definition find_qualification :: "string \<Rightarrow> string \<Rightarrow> (daily_qualification \<times> string) option" where
  "find_qualification feature kind =
     List.find (\<lambda>q. qualified_feature (fst q) = feature \<and> qualified_kind (fst q) = kind) qualifications"

section \<open>Narrowing the stored report\<close>

record raw_suppressed =
  rs_class :: string
  rs_id :: "string option"
  rs_reason :: string

record raw_report =
  ur_accuracy :: string
  ur_window :: "js_num option"
  ur_suppressed :: "raw_suppressed list"
  ur_qualified :: "(string \<times> string) list"

record daily_suppressed =
  ds_class :: suppressed_class
  ds_id :: "string option"
  ds_reason :: suppression_reason

record daily_uncertainty =
  du_accuracy :: birth_time_accuracy
  du_window :: "js_num option"
  du_suppressed :: "daily_suppressed list"
  du_qualified :: "daily_qualification list"

definition read_accuracy :: "string \<Rightarrow> birth_time_accuracy option" where
  "read_accuracy s = List.find (\<lambda>a. accuracy_str a = s) [Exact, Approximate, Unknown]"

definition read_class :: "string \<Rightarrow> suppressed_class option" where
  "read_class s = List.find (\<lambda>c. suppressed_str c = s) suppressed_classes"

definition read_reason :: "string \<Rightarrow> suppression_reason option" where
  "read_reason s = List.find (\<lambda>r. suppression_str r = s) [NoBirthTime, NoBirthplace]"

definition bad_window :: "js_num option \<Rightarrow> bool" where
  "bad_window w = (case w of None \<Rightarrow> False | Some n \<Rightarrow> snd (quotient_of n) \<noteq> 1 \<or> n < 0 \<or> n > 1440)"

text \<open>One round of the loop over the suppressed features; \<open>acc\<close> is \<open>suppressed\<close>.\<close>

definition suppress_step ::
  "birth_time_accuracy \<Rightarrow> daily_suppressed list \<Rightarrow> raw_suppressed \<Rightarrow> string + daily_suppressed list" where
  "suppress_step accuracy acc f =
     (case (read_class (rs_class f), read_reason (rs_reason f)) of
        (Some c, Some r) \<Rightarrow>
          if r = NoBirthTime \<and> accuracy \<noteq> Unknown then Inl ''unsupported uncertainty suppression''
          else if list_ex (\<lambda>e. ds_class e = c \<and> ds_reason e \<noteq> r) acc
          then Inl ''unsupported uncertainty suppression conflict''
          else Inr (acc @ [\<lparr>ds_class = c, ds_id = rs_id f, ds_reason = r\<rparr>])
      | _ \<Rightarrow> Inl ''unsupported uncertainty suppression'')"

fun suppress_loop ::
  "birth_time_accuracy \<Rightarrow> daily_suppressed list \<Rightarrow> raw_suppressed list \<Rightarrow> string + daily_suppressed list" where
  "suppress_loop accuracy acc [] = Inr acc"
| "suppress_loop accuracy acc (f # fs) =
     and_then (suppress_step accuracy acc f) (\<lambda>acc'. suppress_loop accuracy acc' fs)"

definition qualify :: "birth_time_accuracy \<Rightarrow> string \<times> string \<Rightarrow> string + daily_qualification" where
  "qualify accuracy q =
     (case find_qualification (fst q) (snd q) of
        None \<Rightarrow> Inl ''unsupported uncertainty qualification''
      | Some s \<Rightarrow>
          if (fst q = ''moon'' \<or> fst q = ''houses'') \<and> accuracy \<noteq> Approximate
          then Inl ''unsupported uncertainty qualification'' else Inr (fst s))"

definition compare_or :: "int \<Rightarrow> int \<Rightarrow> int" where
  "compare_or a b = (if a \<noteq> 0 then a else b)"

definition compare_suppressed :: "daily_suppressed \<Rightarrow> daily_suppressed \<Rightarrow> int" where
  "compare_suppressed a b =
     compare_or (compare_or (cmp_asc (suppressed_str (ds_class a)) (suppressed_str (ds_class b)))
       (cmp_asc (orelse (ds_id a) []) (orelse (ds_id b) [])))
       (cmp_asc (suppression_str (ds_reason a)) (suppression_str (ds_reason b)))"

definition compare_qualified :: "daily_qualification \<Rightarrow> daily_qualification \<Rightarrow> int" where
  "compare_qualified a b =
     compare_or (cmp_asc (qualified_feature a) (qualified_feature b)) (cmp_asc (qualified_kind a) (qualified_kind b))"

definition normalize_daily_uncertainty :: "raw_report \<Rightarrow> string + daily_uncertainty" where
  "normalize_daily_uncertainty input =
     (case read_accuracy (ur_accuracy input) of
        None \<Rightarrow> Inl ''unsupported uncertainty accuracy''
      | Some accuracy \<Rightarrow>
          if bad_window (ur_window input) then Inl ''unsupported uncertainty window''
          else and_then (suppress_loop accuracy [] (ur_suppressed input)) (\<lambda>suppressed.
            and_then (map_throw (qualify accuracy) (ur_qualified input)) (\<lambda>qualified.
              Inr \<lparr>du_accuracy = accuracy, du_window = ur_window input,
                du_suppressed = js_sort compare_suppressed suppressed,
                du_qualified = js_sort compare_qualified qualified\<rparr>)))"

section \<open>The disclosure plan\<close>

datatype disclosure_kind =
    BirthTimeDisclosure birth_time_accuracy
  | SuppressionDisclosure suppressed_class suppression_reason
  | QualificationDisclosure daily_qualification

record disclosure =
  di_kind :: disclosure_kind
  di_statement :: string

definition birth_time_disclosure :: "birth_time_accuracy \<Rightarrow> disclosure list" where
  "birth_time_disclosure a =
     (if a = Exact then []
      else [\<lparr>di_kind = BirthTimeDisclosure a, di_statement = ''Your birth time is '' @ accuracy_str a @ ''.''\<rparr>])"

fun suppression_cause :: "suppression_reason \<Rightarrow> string" where
  "suppression_cause NoBirthTime = ''your birth time is unknown''"
| "suppression_cause NoBirthplace = ''your birthplace is unavailable''"

definition suppression_disclosure :: "daily_suppressed \<Rightarrow> disclosure" where
  "suppression_disclosure f =
     \<lparr>di_kind = SuppressionDisclosure (ds_class f) (ds_reason f),
      di_statement = suppressed_label (ds_class f) @ '' are omitted because '' @ suppression_cause (ds_reason f) @ ''.''\<rparr>"

text \<open>The table has an entry for every qualification, so the code's \<open>!\<close> is safe.\<close>

definition qualification_disclosure :: "daily_qualification \<Rightarrow> disclosure" where
  "qualification_disclosure q =
     \<lparr>di_kind = QualificationDisclosure q,
      di_statement = snd (the (find_qualification (qualified_feature q) (qualified_kind q)))\<rparr>"

text \<open>The filter by \<open>findIndex\<close> keeps the first disclosure of each statement.\<close>

fun first_statements :: "string list \<Rightarrow> disclosure list \<Rightarrow> disclosure list" where
  "first_statements seen [] = []"
| "first_statements seen (d # ds) =
     (if di_statement d \<in> set seen then first_statements seen ds
      else d # first_statements (di_statement d # seen) ds)"

definition build_uncertainty_disclosure_plan :: "daily_uncertainty \<Rightarrow> disclosure list" where
  "build_uncertainty_disclosure_plan u =
     first_statements []
       (birth_time_disclosure (du_accuracy u) @ map suppression_disclosure (du_suppressed u) @
        map qualification_disclosure (du_qualified u))"

section \<open>The check of a text\<close>

definition is_stop :: "char \<Rightarrow> bool" where
  "is_stop c = (c \<in> {CHR ''.'', CHR ''!'', CHR ''?''})"

definition is_quote :: "char \<Rightarrow> bool" where
  "is_quote c = (c \<in> {CHR 0x22, CHR 0x27})"

definition newline :: char where
  "newline = CHR 0x0A"

text \<open>
  \<open>split(/[.!?](?:["']+)?(?=\s|$)|\n+/)\<close>; the lookahead can only hold after the last of a run of quotes.
  \<open>acc\<close> is the piece read so far, reversed.
\<close>

function sentence_pieces :: "string \<Rightarrow> string \<Rightarrow> string list" where
  "sentence_pieces acc [] = [rev acc]"
| "sentence_pieces acc (c # cs) =
     (let rest = dropWhile is_quote cs in
      if is_stop c \<and> (rest = [] \<or> is_ws (hd rest)) then rev acc # sentence_pieces [] rest
      else if c = newline then rev acc # sentence_pieces [] (dropWhile (\<lambda>x. x = newline) cs)
      else sentence_pieces (c # acc) cs)"
  by pat_completeness auto
termination
  by (relation "measure (\<lambda>(acc, s). length s)") (auto simp: length_dropWhile_le le_imp_less_Suc)

definition normalized_sentences :: "(string \<Rightarrow> string) \<Rightarrow> string \<Rightarrow> string list" where
  "normalized_sentences folded s = filter (\<lambda>p. p \<noteq> []) (map js_trim (sentence_pieces [] (folded s)))"

text \<open>The first sentence of a statement; \<open>None\<close> is the \<open>undefined\<close> of an empty array.\<close>

definition first_sentence :: "(string \<Rightarrow> string) \<Rightarrow> string \<Rightarrow> string option" where
  "first_sentence folded s = (case normalized_sentences folded s of [] \<Rightarrow> None | x # _ \<Rightarrow> Some x)"

definition uncertainty_disclosure_failure :: "(string \<Rightarrow> string) \<Rightarrow> string \<Rightarrow> disclosure list \<Rightarrow> string option" where
  "uncertainty_disclosure_failure folded s plan =
     (let expected = map (\<lambda>d. first_sentence folded (di_statement d)) plan;
          actual = normalized_sentences folded s
      in if list_ex (\<lambda>x. Some x \<notin> set expected) actual then Some ''unsupported_uncertainty_disclosure''
         else if card (set actual) \<noteq> length actual then Some ''duplicate_uncertainty_disclosure''
         else if list_ex (\<lambda>x. x \<notin> Some ` set actual) expected then Some ''incomplete_uncertainty_disclosure''
         else None)"

section \<open>Sentences of the statements\<close>

definition all_disclosures :: "disclosure list" where
  "all_disclosures =
     birth_time_disclosure Approximate @ birth_time_disclosure Unknown @
     concat (map (\<lambda>c. map (\<lambda>r. suppression_disclosure \<lparr>ds_class = c, ds_id = None, ds_reason = r\<rparr>)
       [NoBirthTime, NoBirthplace]) suppressed_classes) @
     map qualification_disclosure [QualifiedInstant, QualifiedPlace, QualifiedHouses, QualifiedMoon]"

definition all_statements :: "string list" where
  "all_statements = map di_statement all_disclosures"

text \<open>A statement is a body without stops or line breaks, trimmed, and a full stop.\<close>

definition plain_body :: "string \<Rightarrow> bool" where
  "plain_body b = (b \<noteq> [] \<and> list_all (\<lambda>c. \<not> is_stop c \<and> c \<noteq> newline) b \<and> \<not> is_ws (hd b) \<and> \<not> is_ws (last b))"

definition lower_statements :: "string list" where
  "lower_statements =
     [''your birth time is approximate.'', ''your birth time is unknown.'',
      ''houses are omitted because your birth time is unknown.'',
      ''houses are omitted because your birthplace is unavailable.'',
      ''angles are omitted because your birth time is unknown.'',
      ''angles are omitted because your birthplace is unavailable.'',
      ''angle transits are omitted because your birth time is unknown.'',
      ''angle transits are omitted because your birthplace is unavailable.'',
      ''time-sensitive moon details are omitted because your birth time is unknown.'',
      ''time-sensitive moon details are omitted because your birthplace is unavailable.'',
      ''the time-zone mapping of your local birth time needs confirmation.'',
      ''your birthplace needs confirmation.'', ''house details are approximate.'',
      ''time-sensitive moon details have low confidence.'']"

lemma lower_statements: "map (map to_lower) all_statements = lower_statements"
  by code_simp

lemma lower_distinct: "distinct lower_statements"
  by code_simp

definition is_ascii :: "string \<Rightarrow> bool" where
  "is_ascii s = list_all (\<lambda>c. (of_char c :: nat) < 128) s"

lemma statements_ascii: "list_all is_ascii all_statements"
  unfolding is_ascii_def by code_simp

lemma lower_plain: "list_all (\<lambda>s. plain_body (butlast s) \<and> last s = CHR ''.'') lower_statements"
  unfolding plain_body_def by code_simp

lemma pieces_plain:
  "list_all (\<lambda>c. \<not> is_stop c \<and> c \<noteq> newline) b \<Longrightarrow> sentence_pieces acc (b @ rest) = sentence_pieces (rev b @ acc) rest"
  by (induction b arbitrary: acc) (simp_all add: Let_def)

lemma pieces_stop:
  "sentence_pieces acc ''.'' = [rev acc, []]"
  "sentence_pieces acc (CHR ''.'' # CHR '' '' # rest) = rev acc # sentence_pieces '' '' rest"
  by (simp_all add: is_stop_def is_quote_def is_ws_def newline_def)

lemma trim_plain:
  assumes "plain_body b"
  shows "js_trim b = b" and "js_trim (CHR '' '' # b) = b"
proof -
  have l: "b \<noteq> []" "\<not> is_ws (hd b)" "\<not> is_ws (last b)"
    using assms by (simp_all add: plain_body_def)
  have "dropWhile is_ws b = b" using l by (cases b) simp_all
  moreover have "dropWhile is_ws (rev b) = rev b" using l by (cases b rule: rev_cases) simp_all
  ultimately show "js_trim b = b" "js_trim (CHR '' '' # b) = b"
    by (simp_all add: js_trim_def is_ws_def [of "CHR '' ''"])
qed

definition statement_like :: "string \<Rightarrow> bool" where
  "statement_like s = (\<exists>b. plain_body b \<and> s = b @ ''.'')"

lemma joined_sentences:
  "list_all statement_like xs \<Longrightarrow> acc = [] \<or> acc = '' '' \<Longrightarrow>
   filter (\<lambda>p. p \<noteq> []) (map js_trim (sentence_pieces acc (join '' '' xs))) = map butlast xs"
proof (induction xs arbitrary: acc rule: induct_list012)
  case 1
  then show ?case by (auto simp: js_trim_def is_ws_def)
next
  case (2 x)
  then obtain b where b: "plain_body b" "x = b @ ''.''" by (auto simp: statement_like_def)
  have "sentence_pieces acc x = [rev acc @ b, []]"
    using b(1) by (simp add: b(2) pieces_plain pieces_stop plain_body_def del: sentence_pieces.simps)
  moreover have "js_trim (rev acc @ b) = b"
    using 2(2) trim_plain [OF b(1)] by auto
  ultimately show ?case
    using b by (auto simp: plain_body_def js_trim_def)
next
  case (3 x y ys)
  then obtain b where b: "plain_body b" "x = b @ ''.''" by (auto simp: statement_like_def)
  have "sentence_pieces acc (join '' '' (x # y # ys)) = (rev acc @ b) # sentence_pieces '' '' (join '' '' (y # ys))"
    using b(1) by (simp add: b(2) pieces_plain pieces_stop plain_body_def del: sentence_pieces.simps)
  moreover have "js_trim (rev acc @ b) = b"
    using 3(4) trim_plain [OF b(1)] by auto
  moreover have "filter (\<lambda>p. p \<noteq> []) (map js_trim (sentence_pieces '' '' (join '' '' (y # ys)))) = map butlast (y # ys)"
    using 3(3) by (intro 3(2)) simp_all
  ultimately show ?case
    using b by (simp add: plain_body_def)
qed

section \<open>The disclosures of a plan\<close>

lemma first_statements_distinct:
  "distinct (map di_statement (first_statements seen ds)) \<and>
   set (map di_statement (first_statements seen ds)) = di_statement ` set ds - set seen \<and>
   set (first_statements seen ds) \<subseteq> set ds"
  by (induction ds arbitrary: seen) auto

lemma find_own_qualification [simp]:
  "find_qualification (qualified_feature q) (qualified_kind q) = Some (q, the (map_of qualifications q))"
  by (cases q) (simp_all add: find_qualification_def qualifications_def)

lemma kinds_listed:
  "suppression_disclosure f \<in> set all_disclosures"
  "qualification_disclosure q \<in> set all_disclosures"
  "d \<in> set (birth_time_disclosure a) \<Longrightarrow> d \<in> set all_disclosures"
proof -
  show "suppression_disclosure f \<in> set all_disclosures"
    by (cases "ds_class f"; cases "ds_reason f"; simp add: all_disclosures_def suppression_disclosure_def suppressed_classes_def)
  show "qualification_disclosure q \<in> set all_disclosures"
    by (cases q) (simp_all add: all_disclosures_def)
  show "d \<in> set (birth_time_disclosure a) \<Longrightarrow> d \<in> set all_disclosures"
    by (cases a) (auto simp: all_disclosures_def birth_time_disclosure_def)
qed

lemma plan_listed: "set (build_uncertainty_disclosure_plan u) \<subseteq> set all_disclosures"
proof -
  have "set (build_uncertainty_disclosure_plan u) \<subseteq> set (birth_time_disclosure (du_accuracy u) @
      map suppression_disclosure (du_suppressed u) @ map qualification_disclosure (du_qualified u))"
    unfolding build_uncertainty_disclosure_plan_def by (rule first_statements_distinct [THEN conjunct2, THEN conjunct2])
  then show ?thesis using kinds_listed by auto
qed

lemma statements_listed: "set (map di_statement (build_uncertainty_disclosure_plan u)) \<subseteq> set all_statements"
  using plan_listed [of u] by (auto simp: all_statements_def)

lemma lower_statement:
  assumes "st \<in> set all_statements"
  shows "statement_like (map to_lower st)"
proof -
  have "map to_lower st \<in> set lower_statements"
    using assms unfolding lower_statements [symmetric] by simp
  then have "plain_body (butlast (map to_lower st))" "last (map to_lower st) = CHR ''.''"
    using lower_plain by (auto simp: list_all_iff)
  moreover from this have "map to_lower st \<noteq> []" by (auto simp: plain_body_def)
  ultimately show ?thesis
    unfolding statement_like_def by (metis append_butlast_last_id)
qed

lemma lower_inj: "inj_on (map to_lower) (set all_statements)"
  using lower_distinct unfolding lower_statements [symmetric] by (simp add: distinct_map)

lemma butlast_inj: "inj_on butlast {s. statement_like s}"
  by (auto simp: inj_on_def statement_like_def)

lemma map_join: "map f (join sep xs) = join (map f sep) (map (map f) xs)"
  by (induction xs rule: induct_list012) simp_all

lemma ascii_join: "is_ascii sep \<Longrightarrow> list_all is_ascii xs \<Longrightarrow> is_ascii (join sep xs)"
  by (induction xs rule: induct_list012) (simp_all add: is_ascii_def)

text \<open>The text that joins statements has exactly their sentences.\<close>

lemma rendered_sentences:
  assumes "\<And>s. is_ascii s \<Longrightarrow> folded s = map to_lower s" and "set xs \<subseteq> set all_statements"
  shows "normalized_sentences folded (join '' '' xs) = map (\<lambda>x. butlast (map to_lower x)) xs"
proof -
  have "list_all is_ascii xs"
    using assms(2) statements_ascii by (auto simp: list_all_iff)
  then have "folded (join '' '' xs) = join '' '' (map (map to_lower) xs)"
    using assms(1) ascii_join [of "'' ''" xs] by (simp add: map_join is_ascii_def to_lower_def)
  moreover have "list_all statement_like (map (map to_lower) xs)"
    using assms(2) lower_statement by (auto simp: list_all_iff)
  ultimately show ?thesis
    using joined_sentences [of "map (map to_lower) xs" "[]"] by (simp add: normalized_sentences_def)
qed

lemma sentence_inj: "inj_on (\<lambda>x. butlast (map to_lower x)) (set all_statements)"
  using comp_inj_on [OF lower_inj inj_on_subset [OF butlast_inj]] lower_statement by (auto simp: comp_def)

lemma statement_determines: "inj_on di_statement (set all_disclosures)"
proof -
  have "distinct (map (map to_lower) all_statements)"
    using lower_distinct unfolding lower_statements .
  then have "distinct all_statements" unfolding distinct_map by (rule conjunct1)
  then show ?thesis by (simp add: all_statements_def distinct_map)
qed

section \<open>Accepted reports\<close>

text \<open>What the loop over the suppressed features accepts and returns.\<close>

definition one_reason :: "daily_suppressed list \<Rightarrow> bool" where
  "one_reason xs = (\<forall>e \<in> set xs. \<forall>f \<in> set xs. ds_class e = ds_class f \<longrightarrow> ds_reason e = ds_reason f)"

definition raw_of_suppressed :: "daily_suppressed \<Rightarrow> raw_suppressed" where
  "raw_of_suppressed d = \<lparr>rs_class = suppressed_str (ds_class d), rs_id = ds_id d, rs_reason = suppression_str (ds_reason d)\<rparr>"

lemma read_class_str: "read_class s = Some c \<longleftrightarrow> s = suppressed_str c"
  by (cases c) (auto simp: read_class_def suppressed_classes_def split: if_splits)

lemma read_reason_str: "read_reason s = Some r \<longleftrightarrow> s = suppression_str r"
  by (cases r) (auto simp: read_reason_def split: if_splits)

lemma read_accuracy_str: "read_accuracy s = Some a \<longleftrightarrow> s = accuracy_str a"
  by (cases a) (auto simp: read_accuracy_def split: if_splits)

lemma suppress_step_Inr:
  "suppress_step a acc f = Inr acc' \<longleftrightarrow>
     (\<exists>d. f = raw_of_suppressed d \<and> acc' = acc @ [d] \<and> (ds_reason d = NoBirthTime \<longrightarrow> a = Unknown) \<and>
       (\<forall>e \<in> set acc. ds_class e = ds_class d \<longrightarrow> ds_reason e = ds_reason d))" (is "?l = ?r")
proof
  assume l: ?l
  then obtain c r where c: "rs_class f = suppressed_str c" and r: "rs_reason f = suppression_str r"
    and n: "\<not> (r = NoBirthTime \<and> a \<noteq> Unknown)" and e: "\<not> list_ex (\<lambda>e. ds_class e = c \<and> ds_reason e \<noteq> r) acc"
    and acc: "acc' = acc @ [\<lparr>ds_class = c, ds_id = rs_id f, ds_reason = r\<rparr>]"
    by (auto simp: suppress_step_def read_class_str read_reason_str split: option.splits if_splits)
  then show ?r
    by (intro exI [of _ "\<lparr>ds_class = c, ds_id = rs_id f, ds_reason = r\<rparr>"])
      (auto simp: raw_of_suppressed_def list_ex_iff)
next
  assume ?r
  then obtain d where d: "f = raw_of_suppressed d" "acc' = acc @ [d]" "ds_reason d = NoBirthTime \<longrightarrow> a = Unknown"
    "\<forall>e \<in> set acc. ds_class e = ds_class d \<longrightarrow> ds_reason e = ds_reason d" by blast
  have "read_class (rs_class f) = Some (ds_class d)" "read_reason (rs_reason f) = Some (ds_reason d)"
    "rs_id f = ds_id d"
    by (simp_all add: d(1) raw_of_suppressed_def read_class_str read_reason_str)
  then show ?l
    using d(3,4) by (auto simp: suppress_step_def list_ex_iff d(2))
qed

lemma one_reason_snoc:
  assumes "one_reason acc"
  shows "one_reason (acc @ [d]) \<longleftrightarrow> (\<forall>e \<in> set acc. ds_class e = ds_class d \<longrightarrow> ds_reason e = ds_reason d)"
    (is "_ = ?r")
proof
  assume o: "one_reason (acc @ [d])"
  show ?r
  proof (intro ballI impI)
    fix e assume "e \<in> set acc" "ds_class e = ds_class d"
    then show "ds_reason e = ds_reason d"
      using bspec [OF bspec [OF o [unfolded one_reason_def], of e], of d] by simp
  qed
next
  assume r: ?r
  show "one_reason (acc @ [d])"
    unfolding one_reason_def
  proof (intro ballI impI)
    fix e f assume e: "e \<in> set (acc @ [d])" and f: "f \<in> set (acc @ [d])" and c: "ds_class e = ds_class f"
    consider "e \<in> set acc" "f \<in> set acc" | "e \<in> set acc" "f = d" | "e = d" "f \<in> set acc" | "e = d" "f = d"
      using e f by auto
    then show "ds_reason e = ds_reason f"
    proof cases
      case 1 then show ?thesis using assms c unfolding one_reason_def by blast
    next
      case 2 then show ?thesis using bspec [OF r, of e] c by simp
    next
      case 3 then show ?thesis using bspec [OF r, of f] c by simp
    qed simp
  qed
qed

lemma one_reason_prefix: "one_reason (xs @ ys) \<Longrightarrow> one_reason xs"
  by (simp add: one_reason_def)

definition supported :: "birth_time_accuracy \<Rightarrow> daily_suppressed list \<Rightarrow> bool" where
  "supported a ds = (\<forall>d \<in> set ds. ds_reason d = NoBirthTime \<longrightarrow> a = Unknown)"

lemma suppress_loop_accepts:
  "one_reason acc \<Longrightarrow> suppress_loop a acc fs = Inr ds \<Longrightarrow>
   \<exists>new. fs = map raw_of_suppressed new \<and> ds = acc @ new \<and> supported a new \<and> one_reason ds"
proof (induction fs arbitrary: acc)
  case Nil
  then show ?case by (auto simp: supported_def)
next
  case (Cons f fs)
  obtain acc' where one: "suppress_step a acc f = Inr acc'" and rest: "suppress_loop a acc' fs = Inr ds"
    using Cons.prems(2) by (auto simp: and_then_Inr)
  obtain d where d: "f = raw_of_suppressed d" "acc' = acc @ [d]" "ds_reason d = NoBirthTime \<longrightarrow> a = Unknown"
    "\<forall>e \<in> set acc. ds_class e = ds_class d \<longrightarrow> ds_reason e = ds_reason d"
    using one unfolding suppress_step_Inr by blast
  have "one_reason acc'" using one_reason_snoc [OF Cons.prems(1)] d by simp
  from Cons.IH [OF this rest] obtain new where "fs = map raw_of_suppressed new" "ds = acc' @ new" "supported a new" "one_reason ds"
    by blast
  then show ?case
    by (intro exI [of _ "d # new"]) (use d in \<open>simp add: supported_def\<close>)
qed

lemma suppress_loop_returns:
  "one_reason (acc @ new) \<Longrightarrow> supported a new \<Longrightarrow> suppress_loop a acc (map raw_of_suppressed new) = Inr (acc @ new)"
proof (induction new arbitrary: acc)
  case Nil
  then show ?case by simp
next
  case (Cons d new)
  have one: "one_reason (acc @ [d])"
    using Cons.prems(1) one_reason_prefix [of "acc @ [d]" new] by simp
  then have "suppress_step a acc (raw_of_suppressed d) = Inr (acc @ [d])"
    using one_reason_snoc [OF one_reason_prefix [OF one]] Cons.prems(2)
    unfolding suppress_step_Inr by (intro exI [of _ d]) (simp add: supported_def)
  then show ?case
    using Cons.IH [of "acc @ [d]"] Cons.prems by (simp add: supported_def)
qed

text \<open>The qualifications.\<close>

definition qualify_ok :: "birth_time_accuracy \<Rightarrow> daily_qualification \<Rightarrow> bool" where
  "qualify_ok a q = (q \<in> {QualifiedHouses, QualifiedMoon} \<longrightarrow> a = Approximate)"

definition raw_of_qualified :: "daily_qualification \<Rightarrow> string \<times> string" where
  "raw_of_qualified q = (qualified_feature q, qualified_kind q)"

lemma raw_moon_houses:
  "fst (raw_of_qualified q) = ''moon'' \<or> fst (raw_of_qualified q) = ''houses'' \<longleftrightarrow> q \<in> {QualifiedHouses, QualifiedMoon}"
  by (cases q) (simp_all add: raw_of_qualified_def)

lemma raw_of_qualified_eq [simp]: "raw_of_qualified p = raw_of_qualified q \<longleftrightarrow> p = q"
  by (cases p; cases q) (simp_all add: raw_of_qualified_def)

lemma qualify_raw: "qualify a (raw_of_qualified q) = (if qualify_ok a q then Inr q else Inl ''unsupported uncertainty qualification'')"
proof -
  have "find_qualification (fst (raw_of_qualified q)) (snd (raw_of_qualified q)) = Some (q, the (map_of qualifications q))"
    by (simp add: raw_of_qualified_def)
  then show ?thesis
    unfolding qualify_def raw_moon_houses by (simp add: qualify_ok_def)
qed

lemma qualify_Inr: "qualify a r = Inr q \<longleftrightarrow> r = raw_of_qualified q \<and> qualify_ok a q"
proof (cases "find_qualification (fst r) (snd r)")
  case None
  then have "r \<noteq> raw_of_qualified q" by (auto simp: raw_of_qualified_def)
  then show ?thesis using None by (simp add: qualify_def)
next
  case (Some s)
  then have "qualified_feature (fst s) = fst r \<and> qualified_kind (fst s) = snd r"
    unfolding find_qualification_def by (blast dest: find_SomeD)
  then have "r = raw_of_qualified (fst s)" by (simp add: raw_of_qualified_def prod_eq_iff)
  then show ?thesis by (auto simp: qualify_raw)
qed

lemma qualify_all_Inr:
  "map_throw (qualify a) rs = Inr qs \<longleftrightarrow> rs = map raw_of_qualified qs \<and> list_all (qualify_ok a) qs"
  unfolding map_throw_Inr
proof (induction qs arbitrary: rs)
  case (Cons q qs)
  show ?case
    unfolding list.map map_eq_Cons_conv qualify_Inr Cons.IH by (auto simp del: split_paired_Ex)
qed simp

definition raw_of_daily :: "daily_uncertainty \<Rightarrow> raw_report" where
  "raw_of_daily u =
     \<lparr>ur_accuracy = accuracy_str (du_accuracy u), ur_window = du_window u,
      ur_suppressed = map raw_of_suppressed (du_suppressed u), ur_qualified = map raw_of_qualified (du_qualified u)\<rparr>"

definition daily_ok :: "daily_uncertainty \<Rightarrow> bool" where
  "daily_ok u =
     (\<not> bad_window (du_window u) \<and> supported (du_accuracy u) (du_suppressed u) \<and> one_reason (du_suppressed u) \<and>
      list_all (qualify_ok (du_accuracy u)) (du_qualified u))"

definition sorted_daily :: "daily_uncertainty \<Rightarrow> daily_uncertainty" where
  "sorted_daily u =
     u\<lparr>du_suppressed := js_sort compare_suppressed (du_suppressed u),
       du_qualified := js_sort compare_qualified (du_qualified u)\<rparr>"

interpretation by_class: keyed_comparator compare_suppressed
  "\<lambda>d. (suppressed_str (ds_class d), orelse (ds_id d) [], suppression_str (ds_reason d))"
  by unfold_locales (auto simp: compare_suppressed_def compare_or_def cmp_asc_def less_prod_def' split: if_splits)

interpretation by_feature: keyed_comparator compare_qualified "\<lambda>q. (qualified_feature q, qualified_kind q)"
  by unfold_locales (auto simp: compare_qualified_def compare_or_def cmp_asc_def less_prod_def' split: if_splits)

lemma normalize_raw:
  assumes "daily_ok u"
  shows "normalize_daily_uncertainty (raw_of_daily u) = Inr (sorted_daily u)"
proof -
  have "read_accuracy (accuracy_str (du_accuracy u)) = Some (du_accuracy u)"
    by (simp add: read_accuracy_str)
  moreover have "suppress_loop (du_accuracy u) [] (map raw_of_suppressed (du_suppressed u)) = Inr (du_suppressed u)"
    using suppress_loop_returns [of "[]" "du_suppressed u" "du_accuracy u"] assms by (simp add: daily_ok_def)
  moreover have "map_throw (qualify (du_accuracy u)) (map raw_of_qualified (du_qualified u)) = Inr (du_qualified u)"
    using assms by (simp add: qualify_all_Inr daily_ok_def)
  ultimately show ?thesis
    using assms by (simp add: normalize_daily_uncertainty_def raw_of_daily_def daily_ok_def sorted_daily_def)
qed

lemma normalize_accepts:
  assumes "normalize_daily_uncertainty r = Inr v"
  obtains u where "r = raw_of_daily u" and "daily_ok u" and "v = sorted_daily u"
proof -
  obtain a ss qs where a: "read_accuracy (ur_accuracy r) = Some a" and w: "\<not> bad_window (ur_window r)"
    and ss: "suppress_loop a [] (ur_suppressed r) = Inr ss" and qs: "map_throw (qualify a) (ur_qualified r) = Inr qs"
    and v: "v = \<lparr>du_accuracy = a, du_window = ur_window r, du_suppressed = js_sort compare_suppressed ss,
      du_qualified = js_sort compare_qualified qs\<rparr>"
    using assms by (auto simp: normalize_daily_uncertainty_def and_then_Inr split: option.splits if_splits)
  have "one_reason []" by (simp add: one_reason_def)
  from suppress_loop_accepts [OF this ss] have "ur_suppressed r = map raw_of_suppressed ss" "supported a ss" "one_reason ss"
    by auto
  with a w qs v show thesis
    by (intro that [of "\<lparr>du_accuracy = a, du_window = ur_window r, du_suppressed = ss, du_qualified = qs\<rparr>"])
      (simp_all add: raw_of_daily_def daily_ok_def sorted_daily_def read_accuracy_str qualify_all_Inr)
qed

lemma sorted_daily_simps [simp]:
  "du_accuracy (sorted_daily u) = du_accuracy u" "du_window (sorted_daily u) = du_window u"
  "set (du_suppressed (sorted_daily u)) = set (du_suppressed u)"
  "set (du_qualified (sorted_daily u)) = set (du_qualified u)"
  by (simp_all add: sorted_daily_def)

lemma sorted_daily_ok: "daily_ok (sorted_daily u) = daily_ok u"
  by (simp add: daily_ok_def one_reason_def supported_def list_all_iff)

lemma sorted_daily_idem: "sorted_daily (sorted_daily u) = sorted_daily u"
  by (simp add: sorted_daily_def by_class.js_sort_sort_key by_feature.js_sort_sort_key sort_key_id_if_sorted)

text \<open>The disclosures of one suppressed class.\<close>

definition class_disclosures :: "suppressed_class \<Rightarrow> daily_uncertainty \<Rightarrow> disclosure list" where
  "class_disclosures c u =
     filter (\<lambda>d. \<exists>r. di_kind d = SuppressionDisclosure c r) (build_uncertainty_disclosure_plan u)"

lemma plan_origin:
  "set (build_uncertainty_disclosure_plan u) \<subseteq> set (birth_time_disclosure (du_accuracy u)) \<union>
     suppression_disclosure ` set (du_suppressed u) \<union> qualification_disclosure ` set (du_qualified u)"
proof -
  have "set (build_uncertainty_disclosure_plan u) \<subseteq> set (birth_time_disclosure (du_accuracy u) @
      map suppression_disclosure (du_suppressed u) @ map qualification_disclosure (du_qualified u))"
    unfolding build_uncertainty_disclosure_plan_def by (rule first_statements_distinct [THEN conjunct2, THEN conjunct2])
  then show ?thesis by auto
qed

lemma class_disclosures_from:
  assumes "d \<in> set (class_disclosures c u)"
  obtains f where "f \<in> set (du_suppressed u)" and "ds_class f = c" and "d = suppression_disclosure f"
proof -
  obtain r where k: "di_kind d = SuppressionDisclosure c r" and "d \<in> set (build_uncertainty_disclosure_plan u)"
    using assms by (auto simp: class_disclosures_def)
  with plan_origin [of u] consider "d \<in> set (birth_time_disclosure (du_accuracy u))"
    | f where "f \<in> set (du_suppressed u)" "d = suppression_disclosure f" | q where "d = qualification_disclosure q"
    by blast
  then show thesis
  proof cases
    case 1 then show ?thesis using k by (simp add: birth_time_disclosure_def split: if_splits)
  next
    case (2 f) then show ?thesis using k by (intro that [of f]) (simp_all add: suppression_disclosure_def)
  next
    case (3 q) then show ?thesis using k by (simp add: qualification_disclosure_def)
  qed
qed

lemma plan_statement:
  assumes "f \<in> set (du_suppressed u)"
  shows "suppression_disclosure f \<in> set (build_uncertainty_disclosure_plan u)"
proof -
  have "di_statement (suppression_disclosure f) \<in> set (map di_statement (build_uncertainty_disclosure_plan u))"
    unfolding build_uncertainty_disclosure_plan_def first_statements_distinct [THEN conjunct2, THEN conjunct1]
    using assms by simp
  then obtain d where d: "d \<in> set (build_uncertainty_disclosure_plan u)" "di_statement d = di_statement (suppression_disclosure f)"
    by auto
  then have "d = suppression_disclosure f"
    using plan_listed [of u] kinds_listed(1) [of f] by (intro inj_onD [OF statement_determines]) auto
  with d show ?thesis by simp
qed

lemma plan_distinct: "distinct (build_uncertainty_disclosure_plan u)"
proof -
  have "distinct (map di_statement (build_uncertainty_disclosure_plan u))"
    unfolding build_uncertainty_disclosure_plan_def by (rule first_statements_distinct [THEN conjunct1])
  then show ?thesis unfolding distinct_map by (rule conjunct1)
qed

lemma distinct_one:
  assumes "set xs = {x}" and "distinct xs"
  shows "xs = [x]"
proof -
  have "length xs = 1" using assms distinct_card [of xs] by simp
  then show ?thesis using assms(1) by (cases xs) simp_all
qed

lemma class_disclosed:
  assumes "one_reason (du_suppressed u)"
  shows "class_disclosures c u =
    (case List.find (\<lambda>f. ds_class f = c) (du_suppressed u) of None \<Rightarrow> [] | Some f \<Rightarrow> [suppression_disclosure f])"
proof (cases "List.find (\<lambda>f. ds_class f = c) (du_suppressed u)")
  case None
  have "d \<notin> set (class_disclosures c u)" for d
    using None by (auto simp: find_None_iff elim: class_disclosures_from)
  then have "class_disclosures c u = []" by (cases "class_disclosures c u") auto
  then show ?thesis using None by simp
next
  case (Some f)
  then have f: "f \<in> set (du_suppressed u)" "ds_class f = c" by (auto dest: find_SomeD)
  have "d = suppression_disclosure f" if d: "d \<in> set (class_disclosures c u)" for d
  proof -
    obtain g where g: "g \<in> set (du_suppressed u)" "ds_class g = c" "d = suppression_disclosure g"
      by (rule class_disclosures_from [OF d])
    have "ds_reason g = ds_reason f"
      using bspec [OF bspec [OF assms [unfolded one_reason_def] g(1)] f(1)] g(2) f(2) by simp
    then show ?thesis using g f(2) by (simp add: suppression_disclosure_def)
  qed
  moreover have "suppression_disclosure f \<in> set (class_disclosures c u)"
    using plan_statement [OF f(1)] f(2) by (simp add: class_disclosures_def suppression_disclosure_def)
  ultimately have "set (class_disclosures c u) = {suppression_disclosure f}" by blast
  moreover have "distinct (class_disclosures c u)"
    using plan_distinct by (simp add: class_disclosures_def)
  ultimately have "class_disclosures c u = [suppression_disclosure f]" by (intro distinct_one)
  then show ?thesis using Some by simp
qed

lemma check_accepts:
  assumes "map (\<lambda>d. first_sentence folded (di_statement d)) plan = map Some (normalized_sentences folded s)"
    and "distinct (normalized_sentences folded s)"
  shows "uncertainty_disclosure_failure folded s plan = None"
  unfolding uncertainty_disclosure_failure_def Let_def assms(1)
  using assms(2) by (simp add: distinct_card list_ex_iff)

section \<open>Properties\<close>

text \<open>
  C32: whatever the stored report, the text that joins the statements of its plan passes the check: the plan
  never asks for something the check refuses. The hypothesis is what Unicode promises of ASCII text.
\<close>
theorem rendered_plan_passes:
  assumes "\<And>s. is_ascii s \<Longrightarrow> folded s = map to_lower s"
  shows "uncertainty_disclosure_failure folded
    (join '' '' (map di_statement (build_uncertainty_disclosure_plan u))) (build_uncertainty_disclosure_plan u) = None"
proof -
  define plan where "plan = build_uncertainty_disclosure_plan u"
  define sts where "sts = map di_statement plan"
  have sub: "set sts \<subseteq> set all_statements"
    using statements_listed [of u] by (simp add: sts_def plan_def)
  have "distinct sts"
    using first_statements_distinct [of "[]"] by (simp add: sts_def plan_def build_uncertainty_disclosure_plan_def)
  then have dist: "distinct (map (\<lambda>x. butlast (map to_lower x)) sts)"
    using inj_on_subset [OF sentence_inj sub] by (simp add: distinct_map)
  have actual: "normalized_sentences folded (join '' '' sts) = map (\<lambda>x. butlast (map to_lower x)) sts"
    by (rule rendered_sentences [OF assms sub])
  have first: "first_sentence folded x = Some (butlast (map to_lower x))" if "x \<in> set sts" for x
    using rendered_sentences [OF assms, of "[x]"] sub that by (auto simp: first_sentence_def)
  have expected: "map (\<lambda>d. first_sentence folded (di_statement d)) plan = map (\<lambda>x. Some (butlast (map to_lower x))) sts"
    using first by (simp add: sts_def)
  have "uncertainty_disclosure_failure folded (join '' '' sts) plan = None"
    by (rule check_accepts) (use dist in \<open>simp_all add: actual expected\<close>)
  then show ?thesis by (simp add: sts_def plan_def)
qed

definition example_daily :: daily_uncertainty where
  "example_daily = \<lparr>du_accuracy = Unknown, du_window = None,
     du_suppressed = [\<lparr>ds_class = SuppressedHouses, ds_id = None, ds_reason = NoBirthTime\<rparr>,
       \<lparr>ds_class = SuppressedHouses, ds_id = Some ''h1'', ds_reason = NoBirthTime\<rparr>], du_qualified = [QualifiedPlace]\<rparr>"

theorem rendered_plan_passes_witness:
  "uncertainty_disclosure_failure (map to_lower)
     (join '' '' (map di_statement (build_uncertainty_disclosure_plan example_daily)))
     (build_uncertainty_disclosure_plan example_daily) = None \<and>
   length (build_uncertainty_disclosure_plan example_daily) = 3"
proof
  show "length (build_uncertainty_disclosure_plan example_daily) = 3" by code_simp
qed (rule rendered_plan_passes, rule refl)

text \<open>
  the check accepts a text exactly when its sentences are the first sentences of the statements, each said once.
\<close>
theorem disclosure_check_iff:
  "uncertainty_disclosure_failure folded s plan = None \<longleftrightarrow>
     Some ` set (normalized_sentences folded s) = (\<lambda>d. first_sentence folded (di_statement d)) ` set plan \<and>
     distinct (normalized_sentences folded s)"
  unfolding uncertainty_disclosure_failure_def Let_def
  by (auto simp: list_ex_iff card_distinct distinct_card)

text \<open>
  a stored report is accepted exactly when it spells a daily report whose window is a whole number of minutes
  within a day, whose suppressions give one reason per class, blame the birth time only when it is unknown, and whose
  house and Moon qualifications belong to an approximate time.
\<close>
theorem report_accepted_iff:
  "(\<exists>v. normalize_daily_uncertainty r = Inr v) \<longleftrightarrow> (\<exists>u. r = raw_of_daily u \<and> daily_ok u)"
  using normalize_raw normalize_accepts by metis

text \<open>narrowing an accepted report again, from its stored form, changes nothing.\<close>
theorem normalized_report_is_stable:
  assumes "normalize_daily_uncertainty r = Inr v"
  shows "normalize_daily_uncertainty (raw_of_daily v) = Inr v"
proof -
  obtain u where "daily_ok u" "v = sorted_daily u" by (rule normalize_accepts [OF assms])
  then show ?thesis using normalize_raw [of v] by (simp add: sorted_daily_ok sorted_daily_idem)
qed

lemma example_daily_ok: "daily_ok example_daily"
  by (simp add: daily_ok_def example_daily_def supported_def one_reason_def qualify_ok_def bad_window_def)

theorem normalized_report_is_stable_witness:
  "normalize_daily_uncertainty (raw_of_daily (sorted_daily example_daily)) = Inr (sorted_daily example_daily)"
  by (rule normalized_report_is_stable [OF normalize_raw [OF example_daily_ok]])

text \<open>
  the plan of an accepted report names every suppressed class exactly once, with its one reason, however many
  features of the class the report lists, and names no other class.
\<close>
theorem suppression_disclosed_once:
  assumes "normalize_daily_uncertainty r = Inr v"
  shows "map di_kind (class_disclosures c v) =
    (case List.find (\<lambda>f. ds_class f = c) (du_suppressed v) of
       None \<Rightarrow> [] | Some f \<Rightarrow> [SuppressionDisclosure c (ds_reason f)])"
proof -
  obtain u where "daily_ok u" "v = sorted_daily u" by (rule normalize_accepts [OF assms])
  then have "daily_ok v" by (simp add: sorted_daily_ok)
  then have "one_reason (du_suppressed v)" unfolding daily_ok_def by (elim conjE)
  note plan = class_disclosed [OF this, of c]
  show ?thesis
  proof (cases "List.find (\<lambda>f. ds_class f = c) (du_suppressed v)")
    case None
    then show ?thesis using plan by simp
  next
    case (Some f)
    then have "ds_class f = c" by (auto dest: find_SomeD)
    then show ?thesis using plan Some by (simp add: suppression_disclosure_def)
  qed
qed

theorem suppression_disclosed_once_witness:
  "map di_kind (class_disclosures SuppressedHouses (sorted_daily example_daily)) =
     [SuppressionDisclosure SuppressedHouses NoBirthTime]"
  using suppression_disclosed_once [OF normalize_raw [OF example_daily_ok], of SuppressedHouses]
  by (simp add: sorted_daily_def example_daily_def js_sort_def compare_suppressed_def compare_or_def cmp_asc_def
      split: if_splits)

end
