(* ===== verification/Packet_Facts.thy ===== *)
theory Packet_Facts
  imports Ranking Identity Uncertainty_Disclosure
begin

text \<open>
  The fact side of \<open>packages/reading-engine/src/constrained-input.ts\<close> with the types of
  \<open>constrained-types.ts\<close>: how calculated cycles, daily-sky facts and natal facts become the facts a model may
  cite, which of them the uncertainty report suppresses, and their order in the packet.

  The closed vocabularies the wire types enumerate (bodies, signs, aspects, lunar phases) are strings, as on the wire.
\<close>

section \<open>Errors\<close>

text \<open>
  \<open>ConstrainedInputError\<close>, the errors of the engine parts, the \<open>RangeError\<close> of \<open>toISOString\<close> on an invalid
  date and the \<open>CanonicalizationError\<close>.
\<close>

datatype packet_error =
    InputInvalid string
  | EngineFailure engine_error
  | InvalidDate string
  | NotCanonicalJson jcs_error

definition lift_engine :: "engine_error + 'a \<Rightarrow> packet_error + 'a" where
  "lift_engine r = (case r of Inl e \<Rightarrow> Inl (EngineFailure e) | Inr x \<Rightarrow> Inr x)"

lemma lift_engine_simps [simp]: "lift_engine (Inl e) = Inl (EngineFailure e)" "lift_engine (Inr x) = Inr x"
  by (simp_all add: lift_engine_def)

lemma lift_engine_Inr [simp]: "lift_engine r = Inr x \<longleftrightarrow> r = Inr x"
  by (cases r) simp_all

section \<open>Calculated input\<close>

text \<open>
  The details of a daily-sky fact; the code casts \<open>detail\<close> by \<open>kind\<close>, which the wire validation ties to it.
  The arguments are: body, longitude, sign, sign degree, speed, retrograde; phase, elongation, illuminated fraction;
  transiting body, natal target, aspect, direction, speed; body, old sign, new sign, direction; body, other body,
  aspect, direction; body, house, house system, longitude.
\<close>

datatype sky_detail =
    AnchorPosition string js_num string js_num js_num bool
  | LunarPhase string js_num js_num
  | TransitNatalContact string string string string js_num
  | SignIngress string string string string
  | CollectiveExactAspect string string string string
  | HousePlacement string nat string js_num

datatype fact_scope = Personalized | Collective

fun scope_str :: "fact_scope \<Rightarrow> string" where
  "scope_str Personalized = ''personalized''"
| "scope_str Collective = ''collective''"

record sky_fact =
  sk_id :: string
  sk_scope :: fact_scope
  sk_effective_at :: string
  sk_label :: string
  sk_detail :: sky_detail
  sk_digest :: string

fun sky_kind :: "sky_detail \<Rightarrow> string" where
  "sky_kind (AnchorPosition _ _ _ _ _ _) = ''anchor_position''"
| "sky_kind (LunarPhase _ _ _) = ''lunar_phase''"
| "sky_kind (TransitNatalContact _ _ _ _ _) = ''transit_natal_contact''"
| "sky_kind (SignIngress _ _ _ _) = ''sign_ingress''"
| "sky_kind (CollectiveExactAspect _ _ _ _) = ''collective_exact_aspect''"
| "sky_kind (HousePlacement _ _ _ _) = ''house_placement''"

record natal_fact =
  nt_id :: string
  nt_class :: string
  nt_body :: string
  nt_target :: "string option"
  nt_aspect :: "string option"
  nt_sign :: "string option"
  nt_degree :: "js_num option"
  nt_house :: "nat option"

section \<open>Facts of the packet\<close>

record fact_attributes =
  fa_bodies :: "string list"
  fa_aspect :: "string option"
  fa_signs :: "string list"
  fa_houses :: "nat list"
  fa_phase :: "cycle_phase option"
  fa_lunar :: "string option"
  fa_degrees :: "js_num list"
  fa_timestamps :: "string list"
  fa_dates :: "string list"

definition empty_attributes :: fact_attributes where
  "empty_attributes =
     \<lparr>fa_bodies = [], fa_aspect = None, fa_signs = [], fa_houses = [], fa_phase = None, fa_lunar = None, fa_degrees = [],
      fa_timestamps = [], fa_dates = []\<rparr>"

datatype fact_support = CycleSupport normalized_cycle | SkySupport sky_fact | NatalSupport natal_fact

record constrained_fact =
  cf_id :: string
  cf_class :: string
  cf_scope :: fact_scope
  cf_lane :: nat
  cf_label :: string
  cf_attributes :: fact_attributes
  cf_support :: fact_support
  cf_origin :: string
  cf_digest :: "string option"
  cf_category :: string

section \<open>Rendering\<close>

definition body_label :: "(string \<times> string) list" where
  "body_label =
     [(''sun'', ''Sun''), (''moon'', ''Moon''), (''mercury'', ''Mercury''), (''venus'', ''Venus''), (''mars'', ''Mars''),
      (''jupiter'', ''Jupiter''), (''saturn'', ''Saturn''), (''uranus'', ''Uranus''), (''neptune'', ''Neptune''),
      (''pluto'', ''Pluto''), (''true_node'', ''True Node''), (''ascendant'', ''Ascendant''), (''midheaven'', ''Midheaven'')]"

definition sign_label :: "(string \<times> string) list" where
  "sign_label =
     [(''aries'', ''Aries''), (''taurus'', ''Taurus''), (''gemini'', ''Gemini''), (''cancer'', ''Cancer''), (''leo'', ''Leo''),
      (''virgo'', ''Virgo''), (''libra'', ''Libra''), (''scorpio'', ''Scorpio''), (''sagittarius'', ''Sagittarius''),
      (''capricorn'', ''Capricorn''), (''aquarius'', ''Aquarius''), (''pisces'', ''Pisces'')]"

definition aspect_label :: "(string \<times> string) list" where
  "aspect_label =
     [(''conjunction'', ''conjunct''), (''sextile'', ''sextile''), (''square'', ''square''), (''trine'', ''trine''),
      (''opposition'', ''opposite'')]"

text \<open>\<open>RECORD[key]\<close> inside a template literal: a missing key renders as \<open>undefined\<close>.\<close>

definition shown :: "(string \<times> string) list \<Rightarrow> string \<Rightarrow> string" where
  "shown table key = orelse (js_map_get table key) ''undefined''"

definition as_body :: "string option \<Rightarrow> string option" where
  "as_body v = (case v of None \<Rightarrow> None | Some b \<Rightarrow> if b \<noteq> [] \<and> b \<in> fst ` set body_label then Some b else None)"

text \<open>\<open>value.toFixed(2)\<close>; between two nearest hundredths the larger one, and the sign is kept apart.\<close>

definition fixed2 :: "js_num \<Rightarrow> string" where
  "fixed2 x =
     (let n = nat \<lfloor>\<bar>x\<bar> * 100 + 1 / 2\<rfloor>
      in (if x < 0 then ''-'' else []) @ nat_str (n div 100) @ ''.'' @ pad_start 2 (CHR ''0'') (nat_str (n mod 100)))"

definition date_of :: "string \<Rightarrow> string" where
  "date_of s = take 10 s"

text \<open>\<open>new Date(instant).toISOString().replace(/\.000Z$/, "Z")\<close>.\<close>

definition whole_seconds :: "string \<Rightarrow> string" where
  "whole_seconds s = (let n = length s - 5 in if 5 \<le> length s \<and> drop n s = ''.000Z'' then take n s @ ''Z'' else s)"

definition utc_instant :: "(string \<Rightarrow> int option) \<Rightarrow> string \<Rightarrow> packet_error + string" where
  "utc_instant dp s = (case dp s of None \<Rightarrow> Inl (InvalidDate s) | Some t \<Rightarrow> Inr (whole_seconds (iso_string t)))"

section \<open>Lanes\<close>

definition lane_rank :: "string \<Rightarrow> nat" where
  "lane_rank c =
     (if c = ''cycle_instance'' then 1
      else if c = ''transit_natal_contact'' \<or> c = ''house_placement'' then 2
      else if c = ''natal_position'' \<or> c = ''natal_aspect'' then 4 else 3)"

definition fact_category :: "string \<Rightarrow> string" where
  "fact_category c =
     (if c = ''cycle_instance'' then ''active_calculated_cycles''
      else if c = ''natal_position'' \<or> c = ''natal_aspect'' then ''calculated_natal_facts'' else ''calculated_daily_sky'')"

text \<open>\<open>[...new Set(values)].sort(...)\<close> on strings.\<close>

definition unique_sorted :: "string list \<Rightarrow> string list" where
  "unique_sorted xs = js_sort cmp_asc (uniq xs)"

definition present :: "'a option list \<Rightarrow> 'a list" where
  "present xs = map the (filter (\<lambda>x. x \<noteq> None) xs)"

section \<open>Projection\<close>

text \<open>The degree sign is U+00B0.\<close>

definition degree_sign :: string where
  "degree_sign = [CHR 0xB0]"

definition cycle_label :: "normalized_cycle \<Rightarrow> cycle_phase option \<Rightarrow> string \<Rightarrow> string \<Rightarrow> string \<Rightarrow> string" where
  "cycle_label c phase start exact stop =
     ''Transiting '' @ (case as_body (Some (cy_body c)) of None \<Rightarrow> cy_body c | Some b \<Rightarrow> shown body_label b) @ '' '' @
     shown aspect_label (cy_aspect c) @ '' natal '' @
     (case as_body (Some (cy_target c)) of None \<Rightarrow> cy_target c | Some b \<Rightarrow> shown body_label b) @
     (case phase of None \<Rightarrow> [] | Some p \<Rightarrow> '', '' @ phase_str p) @
     ''; configured orb limit '' @ fixed2 (cy_orb c) @ degree_sign @
     ''; starts '' @ date_of start @ ''; exact '' @ exact @ ''; ends '' @ date_of stop"

definition project_cycle_fact ::
  "(string \<Rightarrow> int option) \<Rightarrow> string \<Rightarrow> normalized_cycle \<Rightarrow> packet_error + constrained_fact" where
  "project_cycle_fact dp midpoint c =
     and_then (lift_engine (compute_phase dp c midpoint)) (\<lambda>phase.
     and_then (utc_instant dp (cy_start_at c)) (\<lambda>start.
     and_then (map_throw (\<lambda>p. utc_instant dp (pass_exact_at p)) (cy_passes c)) (\<lambda>passes.
     and_then (utc_instant dp (cy_end_at c)) (\<lambda>stop.
     and_then (utc_instant dp (cy_exact_at c)) (\<lambda>exact.
       Inr \<lparr>cf_id = cy_id c, cf_class = ''cycle_instance'', cf_scope = Personalized, cf_lane = lane_rank ''cycle_instance'',
         cf_label = cycle_label c phase start exact stop,
         cf_attributes = empty_attributes
           \<lparr>fa_bodies := unique_sorted (present [as_body (Some (cy_body c)), as_body (Some (cy_target c))]),
            fa_aspect := Some (cy_aspect c), fa_degrees := [cy_orb c],
            fa_dates := unique_sorted (date_of start # map date_of passes @ [date_of stop]),
            fa_timestamps := unique_sorted (start # passes @ [stop]), fa_phase := phase\<rparr>,
         cf_support = CycleSupport c, cf_origin = ''cycle_scan'', cf_digest = None,
         cf_category = fact_category ''cycle_instance''\<rparr>)))))"

definition anchor_sampled :: "sky_detail \<Rightarrow> bool" where
  "anchor_sampled d = (sky_kind d \<in> {''anchor_position'', ''lunar_phase'', ''house_placement''})"

fun sky_attributes :: "sky_detail \<Rightarrow> fact_attributes \<Rightarrow> fact_attributes" where
  "sky_attributes (AnchorPosition body _ sign degree _ _) a = a\<lparr>fa_bodies := [body], fa_signs := [sign], fa_degrees := [degree]\<rparr>"
| "sky_attributes (LunarPhase phase _ _) a = a\<lparr>fa_bodies := [''moon'', ''sun''], fa_lunar := Some phase\<rparr>"
| "sky_attributes (TransitNatalContact body target aspect _ _) a =
     a\<lparr>fa_bodies := unique_sorted [body, target], fa_aspect := Some aspect\<rparr>"
| "sky_attributes (SignIngress body from_sign to_sign _) a = a\<lparr>fa_bodies := [body], fa_signs := unique_sorted [from_sign, to_sign]\<rparr>"
| "sky_attributes (CollectiveExactAspect body other aspect _) a =
     a\<lparr>fa_bodies := unique_sorted [body, other], fa_aspect := Some aspect\<rparr>"
| "sky_attributes (HousePlacement body house _ _) a = a\<lparr>fa_bodies := [body], fa_houses := [house]\<rparr>"

definition project_sky_fact :: "(string \<Rightarrow> int option) \<Rightarrow> sky_fact \<Rightarrow> packet_error + constrained_fact" where
  "project_sky_fact dp f =
     and_then (utc_instant dp (sk_effective_at f)) (\<lambda>moment.
       let timing = ''; '' @ (if anchor_sampled (sk_detail f) then ''sampled'' else ''exact'') @ '' '' @ moment;
           kind = sky_kind (sk_detail f)
       in Inr \<lparr>cf_id = sk_id f, cf_class = kind, cf_scope = sk_scope f, cf_lane = lane_rank kind,
         cf_label = (if length (sk_label f) + length timing \<le> 200 then sk_label f @ timing else sk_label f),
         cf_attributes = sky_attributes (sk_detail f) (empty_attributes\<lparr>fa_timestamps := [moment]\<rparr>),
         cf_support = SkySupport f, cf_origin = ''daily_sky'', cf_digest = Some (sk_digest f), cf_category = fact_category kind\<rparr>)"

definition natal_label :: "natal_fact \<Rightarrow> string" where
  "natal_label f =
     (let body = (case as_body (Some (nt_body f)) of None \<Rightarrow> nt_body f | Some b \<Rightarrow> shown body_label b);
          target = as_body (nt_target f)
      in if nt_class f = ''natal_aspect'' \<and> truthy (nt_aspect f) \<and> target \<noteq> None
         then ''Natal '' @ body @ '' '' @ shown aspect_label (the (nt_aspect f)) @ '' natal '' @ shown body_label (the target)
         else if truthy (nt_sign f) \<and> nt_degree f \<noteq> None
         then ''Natal '' @ body @ '' at '' @ fixed2 (the (nt_degree f)) @ '' degrees '' @ shown sign_label (the (nt_sign f))
         else if truthy (nt_sign f) then ''Natal '' @ body @ '' in '' @ shown sign_label (the (nt_sign f))
         else ''Natal '' @ body)"

definition truthy_value :: "string option \<Rightarrow> string option" where
  "truthy_value v = (if truthy v then v else None)"

definition listed :: "'a option \<Rightarrow> 'a list" where
  "listed v = (case v of None \<Rightarrow> [] | Some x \<Rightarrow> [x])"

definition project_natal_fact :: "natal_fact \<Rightarrow> constrained_fact" where
  "project_natal_fact f =
     \<lparr>cf_id = nt_id f, cf_class = nt_class f, cf_scope = Personalized, cf_lane = lane_rank (nt_class f),
      cf_label = natal_label f,
      cf_attributes = empty_attributes
        \<lparr>fa_bodies := unique_sorted (present [as_body (Some (nt_body f)), as_body (nt_target f)]),
         fa_aspect := truthy_value (nt_aspect f), fa_signs := listed (truthy_value (nt_sign f)),
         fa_houses := listed (nt_house f), fa_degrees := listed (nt_degree f)\<rparr>,
      cf_support = NatalSupport f, cf_origin = ''natal'', cf_digest = None, cf_category = fact_category (nt_class f)\<rparr>"

section \<open>Order\<close>

definition blank_fact :: "string \<Rightarrow> string \<Rightarrow> fact" where
  "blank_fact fid cls =
     \<lparr>fc_id = fid, fc_class = cls, fc_technique = None, fc_body = None, fc_target = None, fc_aspect = None, fc_phase = None,
      fc_orb = None, fc_first_exact_at = None, fc_pass_count = None, fc_start_at = None, fc_end_at = None,
      fc_pass_exact_ats = None\<rparr>"

fun sky_assembly_fact :: "sky_detail \<Rightarrow> string \<Rightarrow> fact \<Rightarrow> fact" where
  "sky_assembly_fact (TransitNatalContact body target aspect _ _) moment f =
     f\<lparr>fc_technique := Some ''transit'', fc_body := Some body, fc_target := Some target, fc_aspect := Some aspect,
       fc_first_exact_at := Some moment, fc_pass_count := Some 1\<rparr>"
| "sky_assembly_fact (HousePlacement body _ _ _) moment f =
     f\<lparr>fc_body := Some body, fc_first_exact_at := Some moment, fc_pass_count := Some 1\<rparr>"
| "sky_assembly_fact (AnchorPosition body _ _ _ _ _) moment f =
     f\<lparr>fc_body := Some body, fc_first_exact_at := Some moment, fc_pass_count := Some 1\<rparr>"
| "sky_assembly_fact (LunarPhase _ _ _) moment f =
     f\<lparr>fc_body := Some ''moon'', fc_target := Some ''sun'', fc_first_exact_at := Some moment, fc_pass_count := Some 1\<rparr>"
| "sky_assembly_fact (SignIngress body _ _ _) moment f =
     f\<lparr>fc_body := Some body, fc_first_exact_at := Some moment, fc_pass_count := Some 1\<rparr>"
| "sky_assembly_fact (CollectiveExactAspect body other aspect _) moment f =
     f\<lparr>fc_body := Some body, fc_target := Some other, fc_aspect := Some aspect, fc_first_exact_at := Some moment,
       fc_pass_count := Some 1\<rparr>"

definition to_assembly_fact ::
  "(string \<Rightarrow> int option) \<Rightarrow> string \<Rightarrow> constrained_fact \<Rightarrow> packet_error + fact" where
  "to_assembly_fact dp midpoint f =
     (case cf_support f of
        CycleSupport c \<Rightarrow>
          and_then (lift_engine (compute_phase dp c midpoint)) (\<lambda>phase.
            Inr ((blank_fact (cf_id f) ''cycle_instance'')
              \<lparr>fc_technique := Some (cy_technique c), fc_body := Some (cy_body c), fc_target := Some (cy_target c),
               fc_aspect := Some (cy_aspect c), fc_phase := phase, fc_orb := Some (cy_orb c),
               fc_first_exact_at := Some (first_exact_at c), fc_pass_count := Some (cy_pass_count c),
               fc_start_at := Some (cy_start_at c), fc_end_at := Some (cy_end_at c),
               fc_pass_exact_ats := Some (map pass_exact_at (cy_passes c))\<rparr>))
      | SkySupport s \<Rightarrow>
          Inr (sky_assembly_fact (sk_detail s) (sk_effective_at s) (blank_fact (cf_id f) (sky_kind (sk_detail s))))
      | NatalSupport n \<Rightarrow>
          Inr ((blank_fact (cf_id f) (nt_class n))
            \<lparr>fc_body := Some (nt_body n), fc_target := nt_target n, fc_aspect := nt_aspect n,
             fc_orb := (if nt_class n = ''natal_aspect'' then nt_degree n else None)\<rparr>))"

definition score_for :: "(string \<Rightarrow> int option) \<Rightarrow> string \<Rightarrow> string option \<Rightarrow> fact \<Rightarrow> scored_fact" where
  "score_for dp midpoint domain f =
     score_fact dp f \<lparr>so_domain = domain, so_has_object = False, so_seen_recently = False, so_at = Some midpoint\<rparr>"

definition compare_ranked :: "constrained_fact \<times> scored_fact \<Rightarrow> constrained_fact \<times> scored_fact \<Rightarrow> int" where
  "compare_ranked a b =
     (if cf_lane (fst a) \<noteq> cf_lane (fst b) then int (cf_lane (fst a)) - int (cf_lane (fst b))
      else compare_scored (snd a) (snd b))"

definition rank_facts ::
  "(string \<Rightarrow> int option) \<Rightarrow> constrained_fact list \<Rightarrow> string \<Rightarrow> string option \<Rightarrow> packet_error + constrained_fact list" where
  "rank_facts dp facts midpoint domain =
     and_then (map_throw (\<lambda>f. and_then (to_assembly_fact dp midpoint f) (\<lambda>a. Inr (f, score_for dp midpoint domain a))) facts)
       (\<lambda>scored. Inr (map fst (js_sort compare_ranked scored)))"

section \<open>Suppression\<close>

definition probe_fact :: "constrained_fact \<Rightarrow> string \<Rightarrow> fact" where
  "probe_fact f body = (blank_fact (cf_id f) ''cycle_instance'')\<lparr>fc_target := Some body\<rparr>"

text \<open>The only reason that contains \<open>moon\<close> is the one of the Moon itself.\<close>

definition contains_text :: "string \<Rightarrow> string \<Rightarrow> bool" where
  "contains_text s t = list_ex (\<lambda>k. take (length t) (drop k s) = t) [0..<Suc (length s)]"

fun body_suppression :: "constrained_fact \<Rightarrow> string list \<Rightarrow> string list \<Rightarrow> string option" where
  "body_suppression f suppressed [] = None"
| "body_suppression f suppressed (b # bs) =
     (case fact_suppression_reason (probe_fact f b) suppressed of
        Some reason \<Rightarrow>
          if cf_scope f = Personalized \<or> \<not> contains_text reason ''moon'' then Some reason else body_suppression f suppressed bs
      | None \<Rightarrow> body_suppression f suppressed bs)"

definition suppression_reason_for :: "constrained_fact \<Rightarrow> string list \<Rightarrow> string option" where
  "suppression_reason_for f suppressed =
     (if fa_houses (cf_attributes f) \<noteq> [] \<and> ''houses'' \<in> set suppressed then Some ''uncertainty_houses_suppressed''
      else body_suppression f suppressed (fa_bodies (cf_attributes f)))"

end
