(* ===== verification/Packet_Context.thy ===== *)
theory Packet_Context
  imports Packet_Facts
begin

text \<open>
  The context side of \<open>packages/reading-engine/src/constrained-input.ts\<close>: UTF-8 lengths and the excerpt cut,
  the expansion of consented signals into pins, the feedback cap and the order in which pins spend the packet's
  budget. Free text is a list of UTF-16 code units; \<open>normalize("NFC")\<close> is the argument \<open>nfc\<close>.
\<close>

section \<open>Bytes\<close>

definition max_context_text_bytes :: nat where "max_context_text_bytes = 2048"
definition max_feedback_records :: nat where "max_feedback_records = 20"
definition max_context_items :: nat where "max_context_items = 999"

fun utf8_byte_length :: "units \<Rightarrow> nat" where
  "utf8_byte_length [] = 0"
| "utf8_byte_length (c # cs) =
     (if c < 0x80 then 1 + utf8_byte_length cs
      else if c < 0x800 then 2 + utf8_byte_length cs
      else if is_high c then
        (case cs of
           [] \<Rightarrow> 3
         | d # ds \<Rightarrow> if is_low d then 4 + utf8_byte_length ds else 3 + utf8_byte_length cs)
      else 3 + utf8_byte_length cs)"

text \<open>The string iterator: code points as lists of one or two units.\<close>

fun code_points :: "units \<Rightarrow> units list" where
  "code_points [] = []"
| "code_points (c # cs) =
     (if is_high c then
        (case cs of [] \<Rightarrow> [[c]] | d # ds \<Rightarrow> if is_low d then [c, d] # code_points ds else [c] # code_points cs)
      else [c] # code_points cs)"

text \<open>The loop of \<open>normalizeExcerpt\<close>; \<open>bytes\<close> is the length of what was kept.\<close>

fun cut_points :: "nat \<Rightarrow> units list \<Rightarrow> units" where
  "cut_points bytes [] = []"
| "cut_points bytes (p # ps) =
     (if bytes + utf8_byte_length p > max_context_text_bytes then []
      else p @ cut_points (bytes + utf8_byte_length p) ps)"

definition normalize_excerpt :: "(units \<Rightarrow> units) \<Rightarrow> units \<Rightarrow> units" where
  "normalize_excerpt nfc t =
     (let normalized = nfc t in
      if utf8_byte_length normalized \<le> max_context_text_bytes then normalized else cut_points 0 (code_points normalized))"

section \<open>Sources, signals and pins\<close>

datatype context_content = TextContent units | StructuredContent "(units \<times> jvalue) list"

record source_input =
  so_source_id :: string
  so_permission_state :: string
  so_permission_uses :: "string list"
  so_permission_consent :: string
  so_consent_id :: string
  so_consent_source :: string
  so_consent_status :: string
  so_consent_version :: nat
  so_consent_uses :: "string list"

record signal_input =
  si_signal_id :: string
  si_source_id :: string
  si_category :: string
  si_allowed_uses :: "string list"
  si_lane :: string
  si_hash :: string
  si_freshness :: string
  si_observed_at :: string
  si_expires_at :: "string option"
  si_content :: context_content

record pending_pin =
  pp_signal :: signal_input
  pp_source :: source_input
  pp_use :: string

definition m5_supported_uses :: "string list" where
  "m5_supported_uses =
     [''annual_context'', ''environment_context'', ''life_domain_selection'', ''narrative_continuity'',
      ''optional_recommendations'', ''pattern_profile'', ''reflection_prompt'', ''relationship_interpretation'',
      ''repetition_control'', ''routine_context'', ''theme_eligibility'', ''theme_filtering'', ''theme_ranking'', ''tone'',
      ''travel_context'', ''user_memory'', ''workload_context'']"

definition is_m5_supported_use :: "string \<Rightarrow> bool" where
  "is_m5_supported_use u = (u \<in> set m5_supported_uses)"

definition same_use_set :: "string list \<Rightarrow> string list \<Rightarrow> bool" where
  "same_use_set a b = (js_sort_str (uniq a) = js_sort_str (uniq b))"

definition source_rejection :: "source_input \<Rightarrow> string option" where
  "source_rejection s =
     (if so_permission_state s \<noteq> ''active'' then Some ''context_permission_inactive''
      else if so_consent_status s \<noteq> ''granted'' then Some ''context_source_consent_not_granted''
      else if so_permission_consent s \<noteq> so_consent_id s \<or> so_consent_source s \<noteq> so_source_id s \<or>
        \<not> same_use_set (so_permission_uses s) (so_consent_uses s)
      then Some ''context_source_consent_disagreement'' else None)"

definition compare_signals :: "signal_input \<Rightarrow> signal_input \<Rightarrow> int" where
  "compare_signals a b =
     (if si_observed_at a \<noteq> si_observed_at b then (if si_observed_at a < si_observed_at b then 1 else -1)
      else cmp_asc (si_signal_id a) (si_signal_id b))"

definition reject :: "string \<Rightarrow> string \<Rightarrow> string \<Rightarrow> string \<Rightarrow> rejection" where
  "reject kind subject reason detail = \<lparr>rj_kind = kind, rj_subject = subject, rj_reason = reason, rj_detail = detail\<rparr>"

section \<open>Expansion\<close>

text \<open>The sources that may speak, and a rejection for every other one.\<close>

fun admit_sources :: "source_input list \<Rightarrow> source_input list \<times> rejection list" where
  "admit_sources [] = ([], [])"
| "admit_sources (s # ss) =
     (case admit_sources ss of (admitted, rejections) \<Rightarrow>
       (case source_rejection s of
          Some reason \<Rightarrow> (admitted, reject ''source'' (so_source_id s) reason (''source '' @ so_source_id s) # rejections)
        | None \<Rightarrow> (s # admitted, rejections)))"

definition expired_at :: "(string \<Rightarrow> int option) \<Rightarrow> string \<Rightarrow> signal_input \<Rightarrow> bool" where
  "expired_at dp anchor s =
     (case si_expires_at s of
        None \<Rightarrow> False
      | Some x \<Rightarrow> (case (dp x, dp anchor) of (Some expiry, Some moment) \<Rightarrow> expiry \<le> moment | _ \<Rightarrow> True))"

text \<open>The uses both records grant and the packet supports, sorted.\<close>

definition signal_uses :: "signal_input \<Rightarrow> source_input \<Rightarrow> string list" where
  "signal_uses s source =
     js_sort_str (filter (\<lambda>u. u \<in> set (so_consent_uses source) \<and> is_m5_supported_use u) (uniq (si_allowed_uses s)))"

text \<open>The pins of one signal, or the reason it has none.\<close>

definition expand_signal ::
  "(string \<Rightarrow> int option) \<Rightarrow> string \<Rightarrow> string list \<Rightarrow> source_input list \<Rightarrow> signal_input \<Rightarrow> rejection + pending_pin list" where
  "expand_signal dp anchor granted sources s =
     (if expired_at dp anchor s
      then Inl (reject ''context'' (si_signal_id s) ''context_expired_at_anchor'' (''source '' @ si_source_id s))
      else if si_category s \<notin> set granted
      then Inl (reject ''context'' (si_signal_id s) ''consent_category_not_granted'' (''category '' @ si_category s))
      else (case index_by so_source_id sources (si_source_id s) of
        None \<Rightarrow> Inl (reject ''context'' (si_signal_id s) ''context_source_not_permitted'' (''source '' @ si_source_id s))
      | Some source \<Rightarrow>
          if signal_uses s source = []
          then Inl (reject ''context'' (si_signal_id s) ''context_no_supported_use'' (''source '' @ si_source_id s))
          else Inr (map (\<lambda>u. \<lparr>pp_signal = s, pp_source = source, pp_use = u\<rparr>) (signal_uses s source))))"

fun expand_signals ::
  "(string \<Rightarrow> int option) \<Rightarrow> string \<Rightarrow> string list \<Rightarrow> source_input list \<Rightarrow> signal_input list \<Rightarrow>
   pending_pin list \<times> rejection list" where
  "expand_signals dp anchor granted sources [] = ([], [])"
| "expand_signals dp anchor granted sources (s # ss) =
     (case expand_signals dp anchor granted sources ss of (pins, rejections) \<Rightarrow>
       (case expand_signal dp anchor granted sources s of
          Inl r \<Rightarrow> (pins, r # rejections)
        | Inr ps \<Rightarrow> (ps @ pins, rejections)))"

text \<open>The normalized signal \<open>partitionContext\<close> sees, and the key it is found again under.\<close>

definition candidate_of :: "pending_pin \<Rightarrow> context_signal" where
  "candidate_of p =
     \<lparr>cs_signal_id = si_signal_id (pp_signal p), cs_source_id = si_source_id (pp_signal p), cs_allowed_use = pp_use p,
      cs_lane = si_lane (pp_signal p), cs_hash = Some (si_hash (pp_signal p)), cs_permission = ''active'',
      cs_freshness = si_freshness (pp_signal p), cs_label = None\<rparr>"

definition pin_key :: "string \<Rightarrow> string \<Rightarrow> string" where
  "pin_key signal_id allowed_use = signal_id @ ''|'' @ allowed_use"

definition expand_context ::
  "(string \<Rightarrow> int option) \<Rightarrow> string \<Rightarrow> string list \<Rightarrow> source_input list \<Rightarrow> signal_input list \<Rightarrow>
   pending_pin list \<times> rejection list" where
  "expand_context dp anchor granted sources signals =
     (case admit_sources (js_sort (\<lambda>a b. cmp_asc (so_source_id a) (so_source_id b)) sources) of (admitted, r1) \<Rightarrow>
      (case expand_signals dp anchor granted admitted (js_sort compare_signals signals) of (pins, r2) \<Rightarrow>
      (case partition_context (map candidate_of pins) of (eligible, r3) \<Rightarrow>
        (present (map (\<lambda>c. js_map_get (map (\<lambda>p. (pin_key (si_signal_id (pp_signal p)) (pp_use p), p)) pins)
           (pin_key (cs_signal_id c) (cs_allowed_use c))) eligible),
         r1 @ r2 @ r3))))"

section \<open>The feedback cap\<close>

definition is_feedback :: "pending_pin \<Rightarrow> bool" where
  "is_feedback p = (si_category (pp_signal p) = ''reading_feedback'')"

text \<open>\<open>feedbackSignals.values()\<close>: the first position and the last value of every key.\<close>

definition feedback_signals :: "pending_pin list \<Rightarrow> signal_input list" where
  "feedback_signals pins =
     (let signals = map pp_signal (filter is_feedback pins) in
      map (\<lambda>k. the (index_by si_signal_id signals k)) (uniq (map si_signal_id signals)))"

definition cap_feedback :: "pending_pin list \<Rightarrow> pending_pin list \<times> rejection list" where
  "cap_feedback pins =
     (let signals = feedback_signals pins in
      if length signals \<le> max_feedback_records then (pins, [])
      else
        (let keep = map si_signal_id (take max_feedback_records (js_sort compare_signals signals));
             over = (\<lambda>p. is_feedback p \<and> si_signal_id (pp_signal p) \<notin> set keep)
         in (filter (\<lambda>p. \<not> over p) pins,
             map (\<lambda>p. reject ''context'' (si_signal_id (pp_signal p)) ''feedback_record_limit''
               (''limit '' @ nat_str max_feedback_records)) (filter over pins))))"

section \<open>The order\<close>

definition compare_pins :: "pending_pin \<Rightarrow> pending_pin \<Rightarrow> int" where
  "compare_pins a b =
     (let by_signal = compare_signals (pp_signal a) (pp_signal b)
      in if by_signal \<noteq> 0 then by_signal else cmp_asc (pp_use a) (pp_use b))"

definition pins_of :: "pending_pin list \<Rightarrow> string \<Rightarrow> pending_pin list" where
  "pins_of pins source_id = js_sort compare_pins (filter (\<lambda>p. so_source_id (pp_source p) = source_id) pins)"

definition newest_signal :: "pending_pin list \<Rightarrow> string" where
  "newest_signal ps = si_signal_id (pp_signal (hd ps))"

definition head_pins :: "pending_pin list \<Rightarrow> pending_pin list" where
  "head_pins ps = filter (\<lambda>p. si_signal_id (pp_signal p) = newest_signal ps) ps"

definition tail_pins :: "pending_pin list \<Rightarrow> pending_pin list" where
  "tail_pins ps = filter (\<lambda>p. si_signal_id (pp_signal p) \<noteq> newest_signal ps) ps"

text \<open>One pass of the fill loop shifts the first pin of every queue; it repeats while a queue still holds one.\<close>

function fill_rounds :: "'a list list \<Rightarrow> 'a list" where
  "fill_rounds queues =
     (let left = map (drop 1) queues
      in concat (map (take 1) queues) @ (if list_ex (\<lambda>q. q \<noteq> []) left then fill_rounds left else []))"
  by pat_completeness auto

lemma sum_list_drop1: "(\<Sum>q\<leftarrow>queues. length q - Suc 0) \<le> (\<Sum>q\<leftarrow>queues. length q)"
  by (induction queues) auto

lemma sum_list_drop1_less:
  "list_ex (\<lambda>q. q \<noteq> []) (map (drop 1) queues) \<Longrightarrow> (\<Sum>q\<leftarrow>queues. length q - Suc 0) < (\<Sum>q\<leftarrow>queues. length q)"
proof (induction queues)
  case (Cons q qs)
  then show ?case using sum_list_drop1 [of qs] by (cases "drop 1 q = []") (auto simp: not_le)
qed simp

termination fill_rounds
  by (relation "measure (\<lambda>queues. sum_list (map length queues))") (auto simp: comp_def intro!: sum_list_drop1_less [unfolded One_nat_def])

declare fill_rounds.simps [simp del]

definition order_pins :: "pending_pin list \<Rightarrow> pending_pin list" where
  "order_pins pins =
     (let source_ids = js_sort_str (uniq (map (\<lambda>p. so_source_id (pp_source p)) pins));
          lists = map (pins_of pins) source_ids
      in concat (map head_pins lists) @ fill_rounds (map tail_pins lists))"

end
