(* ===== verification/Packet.thy ===== *)
theory Packet
  imports Packet_Context
begin

text \<open>
  \<open>prepareConstrainedReadingInput\<close> of \<open>packages/reading-engine/src/constrained-input.ts\<close>: the checks, the
  request, the two loops that spend the byte limit and the two canonical texts. A \<open>throw\<close> is \<open>Inl\<close>.
\<close>

section \<open>Input\<close>

record calculation_pin =
  cp_policy_id :: string
  cp_policy_version :: string
  cp_orb_policy_id :: "string option"
  cp_orb_policy_version :: "string option"
  cp_request_digest :: string
  cp_response_digest :: string
  cp_container_digest :: string
  cp_ephemeris :: string

record day_window =
  dw_start_at :: string
  dw_end_at :: string
  dw_anchor_at :: string
  dw_anchor_resolution :: string
  dw_tzdb :: string
  dw_policy_version :: string

record packet_chart =
  pc_fingerprint :: string
  pc_contract_id :: string
  pc_contract_version :: string
  pc_container_digest :: string
  pc_accuracy :: string
  pc_uncertainty :: raw_report

record prior_reading =
  pr_local_date :: string
  pr_headline :: units
  pr_lead :: units
  pr_reflection :: units

record packet_input =
  pi_schema_version :: string
  pi_prompt_version :: string
  pi_output_schema :: string
  pi_selection_version :: string
  pi_validation_version :: string
  pi_max_bytes :: nat
  pi_local_date :: string
  pi_timezone :: string
  pi_locale :: string
  pi_anchor :: string
  pi_revision :: nat
  pi_domain :: "string option"
  pi_categories :: "string list"
  pi_day :: day_window
  pi_chart :: packet_chart
  pi_cycle_scan :: calculation_pin
  pi_cycles :: "normalized_cycle list"
  pi_daily_sky :: calculation_pin
  pi_sky_facts :: "sky_fact list"
  pi_natal_facts :: "natal_fact list"
  pi_sources :: "source_input list"
  pi_signals :: "signal_input list"
  pi_prior :: "prior_reading list"

section \<open>The request\<close>

record request_fact =
  rf_id :: string
  rf_class :: string
  rf_scope :: fact_scope
  rf_lane :: nat
  rf_label :: string
  rf_attributes :: fact_attributes

record context_pin =
  xp_ref :: string
  xp_signal_id :: string
  xp_source_id :: string
  xp_category :: string
  xp_use :: string
  xp_lane :: string
  xp_hash :: string
  xp_consent_id :: string
  xp_consent_version :: nat
  xp_observed_at :: string
  xp_expires_at :: "string option"
  xp_snapshot :: context_content

record request_context =
  rx_ref :: string
  rx_category :: string
  rx_use :: string
  rx_observed_on :: string
  rx_content :: context_content

record prior_excerpt =
  px_days_ago :: int
  px_headline :: units
  px_lead :: units
  px_reflection :: units

record composition =
  cm_roles :: "string list"
  cm_min :: nat
  cm_max :: nat
  cm_headline :: nat
  cm_lead :: nat
  cm_paragraph :: nat
  cm_reflection :: nat
  cm_note_required :: bool

record reading_request =
  rq_schema_version :: string
  rq_prompt_version :: string
  rq_selection_version :: string
  rq_output_schema :: string
  rq_local_date :: string
  rq_locale :: string
  rq_accuracy :: string
  rq_suppressed :: "string list"
  rq_disclosure :: "disclosure list"
  rq_domain :: "string option"
  rq_facts :: "request_fact list"
  rq_context :: "request_context list"
  rq_prior :: "prior_excerpt list"
  rq_composition :: composition

record prepared_input =
  pd_facts :: "constrained_fact list"
  pd_context :: "context_pin list"
  pd_prior :: "prior_reading list"
  pd_rejections :: "rejection list"
  pd_request :: reading_request
  pd_window :: "string \<times> string"
  pd_bytes :: nat
  pd_manifest :: units
  pd_identity :: units

section \<open>Constants\<close>

definition daily_schema_version :: string where "daily_schema_version = ''0.5.1''"
definition selection_policy_id :: string where "selection_policy_id = ''constrained-context-selection''"
definition selection_policy_version :: string where "selection_policy_version = ''1.5.0''"
definition categorized_feedback_version :: string where "categorized_feedback_version = ''1.6.0''"
definition validation_policy_version :: string where "validation_policy_version = ''1.2.0''"
definition identity_profile :: string where "identity_profile = ''patternlike.generation-input-id.v1''"
definition manifest_profile :: string where "manifest_profile = ''patternlike.generation-input-manifest.v1''"
definition max_prior_readings :: nat where "max_prior_readings = 7"
definition headline_max_chars :: nat where "headline_max_chars = 60"
definition lead_max_chars :: nat where "lead_max_chars = 600"
definition paragraph_max_chars :: nat where "paragraph_max_chars = 600"
definition reflection_max_chars :: nat where "reflection_max_chars = 240"

definition paragraph_roles :: "string list" where
  "paragraph_roles = [''supporting_theme'', ''phase_context'', ''timing'', ''collective_context'']"

section \<open>Parts\<close>

definition build_composition :: "constrained_fact list \<Rightarrow> bool \<Rightarrow> composition" where
  "build_composition facts note_required =
     (let has_phase = list_ex (\<lambda>f. fa_phase (cf_attributes f) \<noteq> None \<or> fa_lunar (cf_attributes f) \<noteq> None) facts;
          has_timing = list_ex (\<lambda>f. fa_timestamps (cf_attributes f) \<noteq> [] \<or> fa_dates (cf_attributes f) \<noteq> []) facts;
          has_collective = list_ex (\<lambda>f. cf_scope f = Collective) facts;
          allowed = filter (\<lambda>r. if r = ''supporting_theme'' then True else if r = ''phase_context'' then has_phase
            else if r = ''timing'' then has_timing else has_collective) paragraph_roles
      in \<lparr>cm_roles = allowed, cm_min = 1, cm_max = length allowed, cm_headline = headline_max_chars, cm_lead = lead_max_chars,
          cm_paragraph = paragraph_max_chars, cm_reflection = reflection_max_chars, cm_note_required = note_required\<rparr>)"

definition to_request_fact :: "constrained_fact \<Rightarrow> request_fact" where
  "to_request_fact f =
     \<lparr>rf_id = cf_id f, rf_class = cf_class f, rf_scope = cf_scope f, rf_lane = cf_lane f, rf_label = cf_label f,
      rf_attributes = cf_attributes f\<rparr>"

definition to_snapshot :: "(units \<Rightarrow> units) \<Rightarrow> context_content \<Rightarrow> context_content" where
  "to_snapshot nfc c =
     (case c of TextContent t \<Rightarrow> TextContent (normalize_excerpt nfc t) | StructuredContent v \<Rightarrow> StructuredContent v)"

text \<open>\<open>value.key\<close> of a JSON object.\<close>

definition js_get :: "(units \<times> jvalue) list \<Rightarrow> string \<Rightarrow> jvalue" where
  "js_get obj key = orelse (map_of obj (units key)) JUndefined"

definition feedback_schema :: string where "feedback_schema = ''reading-feedback-signal/v1''"

definition projected_snapshot :: "context_pin \<Rightarrow> string \<Rightarrow> context_content" where
  "projected_snapshot ref version =
     (case xp_snapshot ref of
        TextContent t \<Rightarrow> TextContent t
      | StructuredContent v \<Rightarrow>
          if version = categorized_feedback_version \<and> xp_source_id ref = ''USR-12'' \<and> xp_category ref = ''reading_feedback'' \<and>
            js_get v ''schema_version'' = JText (units feedback_schema)
          then StructuredContent
            [(units ''schema_version'', JText (units feedback_schema)), (units ''category'', js_get v ''category''),
             (units ''target_ref'', JText (units (xp_ref ref))), (units ''fact_ids'', js_get v ''fact_ids''),
             (units ''theme_ids'', js_get v ''theme_ids'')]
          else StructuredContent v)"

definition to_request_context :: "context_pin \<Rightarrow> string \<Rightarrow> request_context" where
  "to_request_context ref version =
     \<lparr>rx_ref = xp_ref ref, rx_category = xp_category ref, rx_use = xp_use ref, rx_observed_on = date_of (xp_observed_at ref),
      rx_content = projected_snapshot ref version\<rparr>"

section \<open>JSON\<close>

definition json_texts :: "string list \<Rightarrow> jvalue" where
  "json_texts xs = JArray (map json_text xs)"

definition json_nat :: "nat \<Rightarrow> jvalue" where
  "json_nat n = JNumber (of_nat n)"

definition optional_member :: "string \<Rightarrow> ('a \<Rightarrow> jvalue) \<Rightarrow> 'a option \<Rightarrow> (string \<times> jvalue) list" where
  "optional_member key f v = (case v of None \<Rightarrow> [] | Some x \<Rightarrow> [(key, f x)])"

definition json_attributes :: "fact_attributes \<Rightarrow> jvalue" where
  "json_attributes a = json_object
     ([(''bodies'', json_texts (fa_bodies a)), (''signs'', json_texts (fa_signs a)),
       (''houses'', JArray (map json_nat (fa_houses a))), (''degrees'', JArray (map JNumber (fa_degrees a))),
       (''timestamps'', json_texts (fa_timestamps a)), (''dates'', json_texts (fa_dates a))] @
      optional_member ''aspect'' json_text (fa_aspect a) @
      optional_member ''phase'' (\<lambda>p. json_text (phase_str p)) (fa_phase a) @
      optional_member ''lunar_phase'' json_text (fa_lunar a))"

definition json_request_fact :: "request_fact \<Rightarrow> jvalue" where
  "json_request_fact f = json_object
     [(''fact_id'', json_text (rf_id f)), (''fact_class'', json_text (rf_class f)), (''scope'', json_text (scope_str (rf_scope f))),
      (''lane_rank'', json_nat (rf_lane f)), (''label'', json_text (rf_label f)), (''attributes'', json_attributes (rf_attributes f))]"

fun json_content :: "context_content \<Rightarrow> jvalue" where
  "json_content (TextContent t) = json_object [(''kind'', json_text ''untrusted_text''), (''text'', JText t)]"
| "json_content (StructuredContent v) = json_object [(''kind'', json_text ''structured''), (''value'', JObject v)]"

definition json_request_context :: "request_context \<Rightarrow> jvalue" where
  "json_request_context x = json_object
     [(''context_ref'', json_text (rx_ref x)), (''category'', json_text (rx_category x)), (''allowed_use'', json_text (rx_use x)),
      (''observed_on'', json_text (rx_observed_on x)), (''content'', json_content (rx_content x))]"

definition json_prior :: "prior_excerpt \<Rightarrow> jvalue" where
  "json_prior p = json_object
     [(''days_ago'', JNumber (of_int (px_days_ago p))), (''headline'', JText (px_headline p)), (''lead'', JText (px_lead p)),
      (''reflection_prompt'', JText (px_reflection p))]"

definition json_composition :: "composition \<Rightarrow> jvalue" where
  "json_composition c = json_object
     [(''allowed_paragraph_roles'', json_texts (cm_roles c)), (''min_paragraphs'', json_nat (cm_min c)),
      (''max_paragraphs'', json_nat (cm_max c)), (''headline_max_chars'', json_nat (cm_headline c)),
      (''lead_max_chars'', json_nat (cm_lead c)), (''paragraph_max_chars'', json_nat (cm_paragraph c)),
      (''reflection_max_chars'', json_nat (cm_reflection c)), (''uncertainty_note_required'', JBoolean (cm_note_required c))]"

definition json_disclosure :: "disclosure \<Rightarrow> jvalue" where
  "json_disclosure d = json_object
     ((case di_kind d of
        BirthTimeDisclosure a \<Rightarrow>
          [(''kind'', json_text ''birth_time''),
           (''reason'', json_text (if a = Unknown then ''unknown_birth_time'' else ''approximate_birth_time''))]
      | SuppressionDisclosure c r \<Rightarrow>
          [(''kind'', json_text ''suppression''), (''feature_class'', json_text (suppressed_str c)),
           (''reason'', json_text (suppression_str r))]
      | QualificationDisclosure q \<Rightarrow>
          [(''kind'', json_text ''qualification''), (''feature_id'', json_text (qualified_feature q)),
           (''qualification'', json_text (qualified_kind q))]) @
      [(''statement'', json_text (di_statement d))])"

definition json_plan :: "disclosure list \<Rightarrow> jvalue" where
  "json_plan ds = json_object [(''policy_version'', json_text ''1.0.0''), (''disclosures'', JArray (map json_disclosure ds))]"

definition json_request :: "reading_request \<Rightarrow> jvalue" where
  "json_request r = json_object
     [(''schema_version'', json_text (rq_schema_version r)), (''prompt_version'', json_text (rq_prompt_version r)),
      (''selection_policy_version'', json_text (rq_selection_version r)), (''output_schema'', json_text (rq_output_schema r)),
      (''local_date'', json_text (rq_local_date r)), (''locale'', json_text (rq_locale r)),
      (''birth_time_accuracy'', json_text (rq_accuracy r)), (''suppressed_features'', json_texts (rq_suppressed r)),
      (''uncertainty_disclosure'', json_plan (rq_disclosure r)), (''domain_preference'', nullable json_text (rq_domain r)),
      (''facts'', JArray (map json_request_fact (rq_facts r))), (''context'', JArray (map json_request_context (rq_context r))),
      (''prior_readings'', JArray (map json_prior (rq_prior r))), (''composition'', json_composition (rq_composition r))]"

definition canonical_text :: "jvalue \<Rightarrow> packet_error + units" where
  "canonical_text v = (case jcs_canonicalize v of Inl e \<Rightarrow> Inl (NotCanonicalJson e) | Inr u \<Rightarrow> Inr u)"

definition packet_bytes :: "reading_request \<Rightarrow> packet_error + nat" where
  "packet_bytes r = and_then (canonical_text (json_request r)) (\<lambda>u. Inr (utf8_byte_length u))"

section \<open>Facts\<close>

definition projected_facts :: "(string \<Rightarrow> int option) \<Rightarrow> string \<Rightarrow> packet_input \<Rightarrow> packet_error + constrained_fact list" where
  "projected_facts dp midpoint input =
     and_then (map_throw (project_cycle_fact dp midpoint) (pi_cycles input)) (\<lambda>cycles.
     and_then (map_throw (project_sky_fact dp) (pi_sky_facts input)) (\<lambda>sky.
       Inr (cycles @ sky @ map project_natal_fact (pi_natal_facts input))))"

text \<open>Why a fact may not enter the packet.\<close>

definition fact_rejection :: "string list \<Rightarrow> string list \<Rightarrow> constrained_fact \<Rightarrow> rejection option" where
  "fact_rejection granted suppressed f =
     (if cf_category f \<notin> set granted
      then Some (reject ''fact'' (cf_id f) ''consent_category_not_granted'' (''category '' @ cf_category f))
      else map_option (\<lambda>reason. reject ''fact'' (cf_id f) reason (''fact_class '' @ cf_class f)) (suppression_reason_for f suppressed))"

section \<open>Prior readings\<close>

definition day_ms :: int where "day_ms = 86400000"

definition days_between :: "(string \<Rightarrow> int option) \<Rightarrow> string \<Rightarrow> string \<Rightarrow> packet_error + int" where
  "days_between dp earlier later =
     (case (dp (earlier @ ''T00:00:00Z''), dp (later @ ''T00:00:00Z'')) of
        (Some a, Some b) \<Rightarrow> Inr \<lfloor>of_int (b - a) / of_int day_ms + (1 / 2 :: js_num)\<rfloor>
      | _ \<Rightarrow> Inl (InputInvalid (''local dates are not parseable: '' @ earlier @ '' .. '' @ later)))"

definition newest_first :: "prior_reading \<Rightarrow> prior_reading \<Rightarrow> int" where
  "newest_first a b = cmp_asc (pr_local_date b) (pr_local_date a)"

text \<open>The recent readings with their distance in days, newest first, at most seven.\<close>

definition recent_readings ::
  "(string \<Rightarrow> int option) \<Rightarrow> string \<Rightarrow> prior_reading list \<Rightarrow> packet_error + (prior_reading \<times> int) list" where
  "recent_readings dp today readings =
     and_then (map_throw (\<lambda>p. and_then (days_between dp (pr_local_date p) today) (\<lambda>n. Inr (p, n))) (js_sort newest_first readings))
       (\<lambda>dated. Inr (take max_prior_readings (filter (\<lambda>(p, n). 1 \<le> n \<and> n \<le> int max_prior_readings) dated)))"

definition excerpt_of :: "(units \<Rightarrow> units) \<Rightarrow> prior_reading \<times> int \<Rightarrow> prior_excerpt" where
  "excerpt_of nfc d =
     \<lparr>px_days_ago = snd d, px_headline = normalize_excerpt nfc (pr_headline (fst d)),
      px_lead = normalize_excerpt nfc (pr_lead (fst d)), px_reflection = normalize_excerpt nfc (pr_reflection (fst d))\<rparr>"

text \<open>What the two loops carry: the request, its length, what was selected and what was rejected.\<close>

record 'a budget =
  bg_request :: reading_request
  bg_bytes :: nat
  bg_selected :: "'a list"
  bg_exhausted :: bool
  bg_rejections :: "rejection list"

fun add_priors ::
  "(units \<Rightarrow> units) \<Rightarrow> nat \<Rightarrow> (prior_reading \<times> int) list \<Rightarrow> prior_reading budget \<Rightarrow> packet_error + prior_reading budget" where
  "add_priors nfc limit [] b = Inr b"
| "add_priors nfc limit (d # ds) b =
     (let request = (bg_request b)\<lparr>rq_prior := rq_prior (bg_request b) @ [excerpt_of nfc d]\<rparr>
      in and_then (packet_bytes request) (\<lambda>next_bytes.
           if next_bytes > limit
           then Inr (b\<lparr>bg_rejections := bg_rejections b @ [reject ''context'' (pr_local_date (fst d))
             ''prior_reading_budget_exhausted'' (''ceiling '' @ nat_str limit)]\<rparr>)
           else add_priors nfc limit ds (b\<lparr>bg_request := request, bg_bytes := next_bytes,
             bg_selected := bg_selected b @ [fst d]\<rparr>)))"

definition select_priors ::
  "(string \<Rightarrow> int option) \<Rightarrow> (units \<Rightarrow> units) \<Rightarrow> packet_input \<Rightarrow> reading_request \<Rightarrow> nat \<Rightarrow> packet_error + prior_reading budget" where
  "select_priors dp nfc input request n =
     (let start = \<lparr>bg_request = request, bg_bytes = n, bg_selected = [], bg_exhausted = False, bg_rejections = []\<rparr> in
      if ''prior_reading_excerpts'' \<in> set (pi_categories input)
      then and_then (recent_readings dp (pi_local_date input) (pi_prior input)) (\<lambda>ds.
        add_priors nfc (pi_max_bytes input) ds start)
      else Inr (start\<lparr>bg_rejections := map (\<lambda>p. reject ''context'' (pr_local_date p) ''consent_category_not_granted''
        ''category prior_reading_excerpts'') (pi_prior input)\<rparr>))"

section \<open>Context\<close>

definition context_pin_of :: "(units \<Rightarrow> units) \<Rightarrow> nat \<Rightarrow> pending_pin \<Rightarrow> context_pin" where
  "context_pin_of nfc i p =
     \<lparr>xp_ref = ''ctx_'' @ nat_str (Suc i), xp_signal_id = si_signal_id (pp_signal p), xp_source_id = si_source_id (pp_signal p),
      xp_category = si_category (pp_signal p), xp_use = pp_use p, xp_lane = si_lane (pp_signal p), xp_hash = si_hash (pp_signal p),
      xp_consent_id = so_consent_id (pp_source p), xp_consent_version = so_consent_version (pp_source p),
      xp_observed_at = si_observed_at (pp_signal p), xp_expires_at = si_expires_at (pp_signal p),
      xp_snapshot = to_snapshot nfc (si_content (pp_signal p))\<rparr>"

definition context_step ::
  "(units \<Rightarrow> units) \<Rightarrow> string \<Rightarrow> nat \<Rightarrow> pending_pin \<Rightarrow> context_pin budget \<Rightarrow> packet_error + context_pin budget" where
  "context_step nfc version limit p b =
     (if bg_exhausted b \<or> length (bg_selected b) \<ge> max_context_items
      then Inr (b\<lparr>bg_rejections := bg_rejections b @ [reject ''context'' (si_signal_id (pp_signal p))
        (if bg_exhausted b then ''context_budget_exhausted'' else ''context_item_limit'') (''lane '' @ pp_use p)]\<rparr>)
      else
        (let ref = context_pin_of nfc (length (bg_selected b)) p;
             request = (bg_request b)\<lparr>rq_context := rq_context (bg_request b) @ [to_request_context ref version]\<rparr>
         in and_then (packet_bytes request) (\<lambda>next_bytes.
              if next_bytes > limit
              then Inr (b\<lparr>bg_exhausted := True, bg_rejections := bg_rejections b @ [reject ''context'' (si_signal_id (pp_signal p))
                ''context_budget_exhausted'' (''ceiling '' @ nat_str limit)]\<rparr>)
              else Inr (b\<lparr>bg_request := request, bg_bytes := next_bytes, bg_selected := bg_selected b @ [ref]\<rparr>))))"

fun add_context ::
  "(units \<Rightarrow> units) \<Rightarrow> string \<Rightarrow> nat \<Rightarrow> pending_pin list \<Rightarrow> context_pin budget \<Rightarrow> packet_error + context_pin budget" where
  "add_context nfc version limit [] b = Inr b"
| "add_context nfc version limit (p # ps) b =
     and_then (context_step nfc version limit p b) (\<lambda>b'. add_context nfc version limit ps b')"

text \<open>The pins in the order they spend the budget, with the rejections made on the way.\<close>

definition ordered_pins :: "(string \<Rightarrow> int option) \<Rightarrow> packet_input \<Rightarrow> pending_pin list \<times> rejection list" where
  "ordered_pins dp input =
     (case expand_context dp (pi_anchor input) (pi_categories input) (pi_sources input) (pi_signals input) of (pins, r1) \<Rightarrow>
      (case cap_feedback pins of (kept, r2) \<Rightarrow> (order_pins kept, r1 @ r2)))"

section \<open>The canonical texts\<close>

definition json_calculation :: "calculation_pin \<Rightarrow> jvalue" where
  "json_calculation p = json_object
     [(''policy_id'', json_text (cp_policy_id p)), (''policy_version'', json_text (cp_policy_version p)),
      (''orb_policy_id'', nullable json_text (cp_orb_policy_id p)), (''orb_policy_version'', nullable json_text (cp_orb_policy_version p)),
      (''request_digest'', json_text (cp_request_digest p)), (''response_digest'', json_text (cp_response_digest p)),
      (''container_digest'', json_text (cp_container_digest p)), (''ephemeris_data_version'', json_text (cp_ephemeris p))]"

definition json_selected_fact :: "constrained_fact \<Rightarrow> jvalue" where
  "json_selected_fact f = json_object
     [(''fact_id'', json_text (cf_id f)), (''fact_class'', json_text (cf_class f)), (''scope'', json_text (scope_str (cf_scope f))),
      (''lane_rank'', json_nat (cf_lane f)), (''origin'', json_text (cf_origin f)),
      (''content_digest'', nullable json_text (cf_digest f)), (''label'', json_text (cf_label f)),
      (''attributes'', json_attributes (cf_attributes f))]"

fun content_kind :: "context_content \<Rightarrow> string" where
  "content_kind (TextContent _) = ''text''"
| "content_kind (StructuredContent _) = ''structured''"

definition json_context_pin :: "context_pin \<Rightarrow> jvalue" where
  "json_context_pin x = json_object
     [(''context_ref'', json_text (xp_ref x)), (''signal_id'', json_text (xp_signal_id x)), (''source_id'', json_text (xp_source_id x)),
      (''category'', json_text (xp_category x)), (''allowed_use'', json_text (xp_use x)), (''evidence_lane'', json_text (xp_lane x)),
      (''normalized_hash'', json_text (xp_hash x)), (''consent_id'', json_text (xp_consent_id x)),
      (''consent_version'', json_nat (xp_consent_version x)), (''observed_at'', json_text (xp_observed_at x)),
      (''snapshot_kind'', json_text (content_kind (xp_snapshot x)))]"

definition json_daily_uncertainty :: "daily_uncertainty \<Rightarrow> jvalue" where
  "json_daily_uncertainty u = json_object
     [(''accuracy'', json_text (accuracy_str (du_accuracy u))), (''window_plus_minus_minutes'', nullable JNumber (du_window u)),
      (''suppressed_features'', JArray (map (\<lambda>f. json_object
         [(''feature_class'', json_text (suppressed_str (ds_class f))), (''feature_id'', nullable json_text (ds_id f)),
          (''reason'', json_text (suppression_str (ds_reason f)))]) (du_suppressed u))),
      (''qualified_features'', JArray (map (\<lambda>q. json_object
         [(''feature_id'', json_text (qualified_feature q)), (''qualification'', json_text (qualified_kind q))]) (du_qualified u)))]"

text \<open>What both texts share.\<close>

definition common_members ::
  "packet_input \<Rightarrow> daily_uncertainty \<Rightarrow> constrained_fact list \<Rightarrow> context_pin list \<Rightarrow> reading_request \<Rightarrow> (string \<times> jvalue) list" where
  "common_members input uncertainty facts context request =
     (let day = pi_day input; chart = pi_chart input in
      [(''schema_version'', json_text daily_schema_version), (''selection_policy_id'', json_text selection_policy_id),
       (''selection_policy_version'', json_text (pi_selection_version input)),
       (''validation_policy_version'', json_text (pi_validation_version input)),
       (''prompt_version'', json_text (pi_prompt_version input)), (''output_schema'', json_text (pi_output_schema input)),
       (''local_date'', json_text (pi_local_date input)), (''target_timezone'', json_text (pi_timezone input)),
       (''locale'', json_text (pi_locale input)), (''generation_anchor'', json_text (pi_anchor input)),
       (''revision'', json_nat (pi_revision input)), (''domain_preference'', nullable json_text (pi_domain input)),
       (''consent_categories'', json_texts (pi_categories input)),
       (''day'', json_object
          [(''day_start_at'', json_text (dw_start_at day)), (''day_end_at'', json_text (dw_end_at day)),
           (''anchor_at'', json_text (dw_anchor_at day)), (''anchor_resolution'', json_text (dw_anchor_resolution day)),
           (''tzdb_version'', json_text (dw_tzdb day)),
           (''local_day_resolution_policy_version'', json_text (dw_policy_version day))]),
       (''chart'', json_object
          [(''fingerprint'', json_text (pc_fingerprint chart)), (''contract_id'', json_text (pc_contract_id chart)),
           (''contract_version'', json_text (pc_contract_version chart)),
           (''container_digest'', json_text (pc_container_digest chart)),
           (''effective_accuracy'', json_text (pc_accuracy chart)), (''uncertainty'', json_daily_uncertainty uncertainty)]),
       (''cycle_scan'', json_calculation (pi_cycle_scan input)), (''daily_sky'', json_calculation (pi_daily_sky input)),
       (''composition'', json_composition (rq_composition request)), (''uncertainty_disclosure'', json_plan (rq_disclosure request)),
       (''facts'', JArray (map json_selected_fact facts)), (''context'', JArray (map json_context_pin context)),
       (''prior_readings'', JArray (map json_prior (rq_prior request)))])"

definition identity_canonical ::
  "packet_input \<Rightarrow> daily_uncertainty \<Rightarrow> constrained_fact list \<Rightarrow> context_pin list \<Rightarrow> reading_request \<Rightarrow> packet_error + units" where
  "identity_canonical input uncertainty facts context request =
     canonical_text (json_object ((''identity_profile'', json_text identity_profile) #
       common_members input uncertainty facts context request))"

definition manifest_canonical ::
  "packet_input \<Rightarrow> daily_uncertainty \<Rightarrow> constrained_fact list \<Rightarrow> context_pin list \<Rightarrow> reading_request \<Rightarrow> nat \<Rightarrow> packet_error + units" where
  "manifest_canonical input uncertainty facts context request n =
     canonical_text (json_object
       ([(''manifest_profile'', json_text manifest_profile), (''context_max_bytes'', json_nat (pi_max_bytes input)),
         (''packet_bytes'', json_nat n), (''fact_count'', json_nat (length facts)), (''context_count'', json_nat (length context)),
         (''prior_reading_count'', json_nat (length (rq_prior request))), (''supported_uses'', json_texts m5_supported_uses)] @
        common_members input uncertainty facts context request))"

section \<open>The entry point\<close>

definition supported_policy :: "packet_input \<Rightarrow> bool" where
  "supported_policy input =
     (pi_schema_version input = daily_schema_version \<and>
      (pi_selection_version input = selection_policy_version \<or> pi_selection_version input = categorized_feedback_version) \<and>
      pi_validation_version input = validation_policy_version)"

definition plan_text :: "disclosure list \<Rightarrow> string" where
  "plan_text ds = join '' '' (map di_statement ds)"

text \<open>The checks before anything is projected: the uncertainty report, its plan and the midpoint of the day.\<close>

definition checked_uncertainty :: "packet_input \<Rightarrow> packet_error + daily_uncertainty" where
  "checked_uncertainty input =
     (if \<not> supported_policy input then Inl (InputInvalid ''unsupported constrained input policy'')
      else (case normalize_daily_uncertainty (pc_uncertainty (pi_chart input)) of
        Inl message \<Rightarrow> Inl (InputInvalid message)
      | Inr u \<Rightarrow>
          if length (plan_text (build_uncertainty_disclosure_plan u)) > paragraph_max_chars
          then Inl (InputInvalid ''unsupported uncertainty disclosure length'')
          else if pc_accuracy (pi_chart input) \<noteq> accuracy_str (du_accuracy u)
          then Inl (InputInvalid (''effective_accuracy '' @ pc_accuracy (pi_chart input) @
            '' disagrees with uncertainty.accuracy '' @ accuracy_str (du_accuracy u)))
          else if ''birth_accuracy_and_uncertainty'' \<notin> set (pi_categories input)
          then Inl (InputInvalid ''the AI-synthesis grant must cover birth_accuracy_and_uncertainty: the packet cannot describe what it may not say without it'')
          else if pi_max_bytes input < 1024
          then Inl (InputInvalid ''context_max_bytes must be at least 1024'')
          else Inr u))"

definition initial_request :: "packet_input \<Rightarrow> daily_uncertainty \<Rightarrow> constrained_fact list \<Rightarrow> reading_request" where
  "initial_request input u facts =
     (let plan = build_uncertainty_disclosure_plan u in
      \<lparr>rq_schema_version = daily_schema_version, rq_prompt_version = pi_prompt_version input,
       rq_selection_version = pi_selection_version input, rq_output_schema = pi_output_schema input,
       rq_local_date = pi_local_date input, rq_locale = pi_locale input, rq_accuracy = pc_accuracy (pi_chart input),
       rq_suppressed = unique_sorted (map (\<lambda>f. suppressed_str (ds_class f)) (du_suppressed u)), rq_disclosure = plan,
       rq_domain = pi_domain input, rq_facts = map to_request_fact facts, rq_context = [], rq_prior = [],
       rq_composition = build_composition facts (plan \<noteq> [])\<rparr>)"

text \<open>The facts of the packet in their order, and the rejections of the others.\<close>

definition packet_facts ::
  "(string \<Rightarrow> int option) \<Rightarrow> packet_input \<Rightarrow> daily_uncertainty \<Rightarrow> packet_error + constrained_fact list \<times> rejection list" where
  "packet_facts dp input u =
     and_then (lift_engine (local_day_midpoint dp (dw_start_at (pi_day input)) (dw_end_at (pi_day input)))) (\<lambda>midpoint.
     and_then (projected_facts dp midpoint input) (\<lambda>projected.
       let suppressed = map (\<lambda>f. suppressed_str (ds_class f)) (du_suppressed u);
           verdict = fact_rejection (pi_categories input) suppressed;
           facts = filter (\<lambda>f. verdict f = None) projected
       in if facts = []
          then Inl (InputInvalid ''a constrained reading needs at least one calculated fact; a factless packet could only produce invented prose'')
          else and_then (rank_facts dp facts midpoint (pi_domain input)) (\<lambda>ranked.
            Inr (ranked, present (map verdict projected)))))"

definition finish_packet ::
  "(string \<Rightarrow> int option) \<Rightarrow> (units \<Rightarrow> units) \<Rightarrow> packet_input \<Rightarrow> daily_uncertainty \<Rightarrow> constrained_fact list \<Rightarrow> rejection list \<Rightarrow>
   packet_error + prepared_input" where
  "finish_packet dp nfc input u facts fact_rejections =
     (let request = initial_request input u facts in
      and_then (packet_bytes request) (\<lambda>n.
      if n > pi_max_bytes input
      then Inl (InputInvalid (''the mandatory packet is '' @ nat_str n @ '' bytes and the ceiling is '' @ nat_str (pi_max_bytes input) @
        ''; a reading cannot be produced by dropping a calculated fact''))
      else and_then (select_priors dp nfc input request n) (\<lambda>priors.
      case ordered_pins dp input of (pins, context_rejections) \<Rightarrow>
      and_then (add_context nfc (pi_selection_version input) (pi_max_bytes input) pins
        \<lparr>bg_request = bg_request priors, bg_bytes = bg_bytes priors, bg_selected = [], bg_exhausted = False, bg_rejections = []\<rparr>)
        (\<lambda>b.
      and_then (identity_canonical input u facts (bg_selected b) (bg_request b)) (\<lambda>identity.
      and_then (manifest_canonical input u facts (bg_selected b) (bg_request b) (bg_bytes b)) (\<lambda>manifest.
        Inr \<lparr>pd_facts = facts, pd_context = bg_selected b, pd_prior = bg_selected priors,
          pd_rejections = fact_rejections @ bg_rejections priors @ context_rejections @ bg_rejections b,
          pd_request = bg_request b, pd_window = (dw_start_at (pi_day input), dw_end_at (pi_day input)),
          pd_bytes = bg_bytes b, pd_manifest = manifest, pd_identity = identity\<rparr>))))))"

definition prepare_constrained_reading_input ::
  "(string \<Rightarrow> int option) \<Rightarrow> (units \<Rightarrow> units) \<Rightarrow> packet_input \<Rightarrow> packet_error + prepared_input" where
  "prepare_constrained_reading_input dp nfc input =
     and_then (checked_uncertainty input) (\<lambda>u.
     and_then (packet_facts dp input u) (\<lambda>(facts, rejections). finish_packet dp nfc input u facts rejections))"

end
