(* ===== verification/Packet_Order.thy ===== *)
theory Packet_Order
  imports Packet_Context
begin

text \<open>
  The order of \<open>orderPins\<close>: it is a permutation that serves the newest signal of every source first, and an
  initial part of it is in its own order already, which is what lets an execution rebuild the packet from the pins a
  command froze.
\<close>

section \<open>Comparators of a total preorder\<close>

text \<open>
  The law a comparator needs for its sort to be in order; unlike \<open>keyed_comparator\<close> it asks for no key, so it
  covers orders that descend in one component and ascend in another.
\<close>

locale total_comparator =
  fixes cmp :: "'a \<Rightarrow> 'a \<Rightarrow> int"
  assumes flip_less: "cmp x y < 0 \<longleftrightarrow> 0 < cmp y x"
    and less_trans: "cmp x y \<le> 0 \<Longrightarrow> cmp y z \<le> 0 \<Longrightarrow> cmp x z \<le> 0"
begin

lemma not_less: "\<not> cmp x y < 0 \<longleftrightarrow> cmp y x \<le> 0"
  using flip_less [of x y] flip_less [of y x] by auto

lemma cmp_self [simp]: "cmp x x = 0"
  using flip_less [of x x] by auto

abbreviation in_order :: "'a list \<Rightarrow> bool" where
  "in_order \<equiv> sorted_wrt (\<lambda>x y. cmp x y \<le> 0)"

lemma set_insert: "set (js_insert cmp x xs) = insert x (set xs)"
  by (induction xs) auto

lemma in_order_insert: "in_order ys \<Longrightarrow> in_order (js_insert cmp x ys)"
proof (induction ys)
  case (Cons y ys)
  show ?case
  proof (cases "cmp x y < 0")
    case True
    then show ?thesis using Cons.prems less_trans [of x y] by auto
  next
    case False
    then show ?thesis using Cons not_less [of x y] by (auto simp: set_insert)
  qed
qed simp

lemma in_order_sort: "in_order (js_sort cmp xs)"
proof -
  have "in_order ys \<Longrightarrow> in_order (fold (js_insert cmp) xs ys)" for ys
    by (induction xs arbitrary: ys) (simp_all add: in_order_insert)
  then show ?thesis by (simp add: js_sort_def)
qed

lemma in_order_unique:
  assumes "in_order xs" and "in_order ys" and "mset xs = mset ys"
    and "\<And>x y. x \<in> set xs \<Longrightarrow> y \<in> set xs \<Longrightarrow> cmp x y = 0 \<Longrightarrow> x = y"
  shows "xs = ys"
  using assms
proof (induction xs arbitrary: ys)
  case (Cons x xs)
  obtain y ys' where ys: "ys = y # ys'"
    using Cons.prems(3) by (cases ys) auto
  have sets: "insert x (set xs) = insert y (set ys')"
    using Cons.prems(3) unfolding ys by (metis list.simps(15) set_mset_mset)
  have "cmp x y \<le> 0" using Cons.prems(1) sets by (cases "x = y") auto
  moreover have "cmp y x \<le> 0" using Cons.prems(2) sets unfolding ys by (cases "x = y") auto
  ultimately have "cmp x y = 0" using flip_less [of x y] flip_less [of y x] by auto
  then have "x = y" using Cons.prems(4) [of x y] sets by auto
  moreover have "xs = ys'"
    using Cons.prems unfolding ys \<open>x = y\<close> by (intro Cons.IH) auto
  ultimately show ?case by (simp add: ys)
qed simp

lemma sort_unique:
  assumes "mset xs = mset ys" and "in_order ys"
    and "\<And>x y. x \<in> set xs \<Longrightarrow> y \<in> set xs \<Longrightarrow> cmp x y = 0 \<Longrightarrow> x = y"
  shows "js_sort cmp xs = ys"
  by (rule in_order_unique) (use assms in_order_sort in \<open>simp_all add: assms(1) [symmetric]\<close>)

end

lemma compare_signals_total: "total_comparator compare_signals"
  by unfold_locales (auto simp: compare_signals_def cmp_asc_def split: if_splits)

interpretation signal_order: total_comparator compare_signals
  by (rule compare_signals_total)

lemma compare_pins_le:
  "compare_pins a b \<le> 0 \<longleftrightarrow>
     compare_signals (pp_signal a) (pp_signal b) < 0 \<or>
     compare_signals (pp_signal a) (pp_signal b) = 0 \<and> pp_use a \<le> pp_use b"
  by (auto simp: compare_pins_def Let_def cmp_asc_def)

lemma compare_signals_trans_less:
  "compare_signals a b < 0 \<Longrightarrow> compare_signals b c \<le> 0 \<Longrightarrow> compare_signals a c < 0"
  "compare_signals a b \<le> 0 \<Longrightarrow> compare_signals b c < 0 \<Longrightarrow> compare_signals a c < 0"
  by (auto simp: compare_signals_def cmp_asc_def split: if_splits)

interpretation pin_order: total_comparator compare_pins
proof
  fix x y :: pending_pin
  show "compare_pins x y < 0 \<longleftrightarrow> 0 < compare_pins y x"
    by (auto simp: compare_pins_def Let_def cmp_asc_def compare_signals_def)
next
  fix x y z :: pending_pin
  assume "compare_pins x y \<le> 0" "compare_pins y z \<le> 0"
  then show "compare_pins x z \<le> 0"
    using compare_signals_trans_less [of "pp_signal x" "pp_signal y" "pp_signal z"]
      signal_order.less_trans [of "pp_signal x" "pp_signal y" "pp_signal z"]
      signal_order.less_trans [of "pp_signal z" "pp_signal y" "pp_signal x"]
      signal_order.flip_less [of "pp_signal x" "pp_signal z"] signal_order.flip_less [of "pp_signal z" "pp_signal y"]
      signal_order.flip_less [of "pp_signal y" "pp_signal x"]
    unfolding compare_pins_le by (auto dest: order.trans)
qed

section \<open>Pins by source\<close>

definition pin_source :: "pending_pin \<Rightarrow> string" where
  "pin_source p = so_source_id (pp_source p)"

text \<open>What tells the pins of a packet apart.\<close>

definition pin_id :: "pending_pin \<Rightarrow> string \<times> string" where
  "pin_id p = (si_signal_id (pp_signal p), pp_use p)"

lemma compare_pins_zero: "compare_pins a b = 0 \<Longrightarrow> pin_id a = pin_id b"
  by (auto simp: compare_pins_def compare_signals_def cmp_asc_def pin_id_def Let_def split: if_splits)

lemma distinct_pins_zero:
  "distinct (map pin_id ps) \<Longrightarrow> a \<in> set ps \<Longrightarrow> b \<in> set ps \<Longrightarrow> compare_pins a b = 0 \<Longrightarrow> a = b"
  using compare_pins_zero by (metis distinct_map inj_onD)

lemma pins_of_def': "pins_of pins k = js_sort compare_pins (filter (\<lambda>p. pin_source p = k) pins)"
  by (simp add: pins_of_def pin_source_def)

lemma set_pins_of [simp]: "set (pins_of pins k) = {p \<in> set pins. pin_source p = k}"
  by (simp add: pins_of_def')

lemma mset_pins_of [simp]: "mset (pins_of pins k) = filter_mset (\<lambda>p. pin_source p = k) (mset pins)"
  by (simp add: pins_of_def')

lemma pins_of_eqI:
  assumes "distinct (map pin_id pins)" and "pin_order.in_order ys" and "mset ys = filter_mset (\<lambda>p. pin_source p = k) (mset pins)"
  shows "pins_of pins k = ys"
  unfolding pins_of_def'
  by (rule pin_order.sort_unique) (use assms(2,3) distinct_pins_zero [OF assms(1)] in auto)

lemma pins_of_mset:
  "mset xs = mset ys \<Longrightarrow> distinct (map pin_id ys) \<Longrightarrow> pins_of xs k = pins_of ys k"
  unfolding pins_of_def' using distinct_pins_zero
  by (intro pin_order.sort_unique) (auto simp: pin_order.in_order_sort dest: mset_eq_setD)

definition source_ids :: "pending_pin list \<Rightarrow> string list" where
  "source_ids pins = js_sort_str (uniq (map pin_source pins))"

lemma set_source_ids [simp]: "set (source_ids pins) = pin_source ` set pins"
  by (simp add: source_ids_def)

lemma source_ids_sorted: "sorted (source_ids pins)" "distinct (source_ids pins)"
  by (simp_all add: source_ids_def)

lemma order_pins_alt:
  "order_pins pins =
     concat (map (\<lambda>k. head_pins (pins_of pins k)) (source_ids pins)) @
     fill_rounds (map (\<lambda>k. tail_pins (pins_of pins k)) (source_ids pins))"
  by (simp add: order_pins_def Let_def source_ids_def pin_source_def [abs_def] comp_def)

lemma source_ids_mset: "mset xs = mset ys \<Longrightarrow> source_ids xs = source_ids ys"
  using source_ids_sorted [of xs] source_ids_sorted [of ys]
  by (intro sorted_distinct_set_unique) (auto dest: mset_eq_setD)

lemma order_pins_mset: "mset xs = mset ys \<Longrightarrow> distinct (map pin_id ys) \<Longrightarrow> order_pins xs = order_pins ys"
  by (simp add: order_pins_alt source_ids_mset [of xs ys] pins_of_mset [of xs ys])

section \<open>A permutation\<close>

lemma mset_take_drop: "mset (concat (map (take 1) qs)) + mset (concat (map (drop 1) qs)) = mset (concat qs)"
proof (induction qs)
  case (Cons q qs)
  have "mset (take 1 q) + mset (drop 1 q) = mset q" by (metis append_take_drop_id mset_append)
  then show ?case using Cons by (simp add: ac_simps flip: add.assoc)
qed simp

lemma no_queue_left: "\<not> list_ex (\<lambda>q. q \<noteq> []) qs \<Longrightarrow> mset (concat qs) = {#}"
  by (auto simp: list_ex_iff)

lemma mset_fill_rounds [simp]: "mset (fill_rounds qs) = mset (concat qs)"
proof (induction qs rule: fill_rounds.induct)
  case (1 qs)
  show ?case
  proof (cases "list_ex (\<lambda>q. q \<noteq> []) (map (drop 1) qs)")
    case True
    then show ?thesis using 1 [OF refl] mset_take_drop [of qs] by (simp add: fill_rounds.simps [of qs])
  next
    case False
    have "fill_rounds qs = concat (map (take 1) qs)"
      using False by (subst fill_rounds.simps) (simp only: Let_def if_False append_Nil2)
    then show ?thesis
      using mset_take_drop [of qs] unfolding no_queue_left [OF False] by (simp only: add_0_right)
  qed
qed

lemma mset_concat_groups:
  "distinct ks \<Longrightarrow> mset (concat (map (\<lambda>k. filter (\<lambda>x. f x = k) xs) ks)) = mset (filter (\<lambda>x. f x \<in> set ks) xs)"
proof (induction ks)
  case (Cons k ks)
  have "mset (filter (\<lambda>x. f x = k \<or> f x \<in> set ks) xs) =
      mset (filter (\<lambda>x. f x = k) xs) + mset (filter (\<lambda>x. f x \<in> set ks) xs)"
    using Cons.prems by (induction xs) auto
  then show ?case using Cons by simp
qed simp

lemma mset_head_tail: "mset (head_pins ps) + mset (tail_pins ps) = mset ps"
  unfolding head_pins_def tail_pins_def mset_filter by (metis multiset_partition)

lemma mset_concat_map_cong: "(\<And>x. x \<in> set xs \<Longrightarrow> mset (f x) = mset (g x)) \<Longrightarrow> mset (concat (map f xs)) = mset (concat (map g xs))"
  by (induction xs) auto

lemma mset_concat_map_add: "mset (concat (map f xs)) + mset (concat (map g xs)) = mset (concat (map (\<lambda>x. f x @ g x) xs))"
  by (induction xs) auto

lemma mset_order_pins [simp]: "mset (order_pins pins) = mset pins"
proof -
  have "mset (order_pins pins) = mset (concat (map (\<lambda>k. head_pins (pins_of pins k) @ tail_pins (pins_of pins k)) (source_ids pins)))"
    by (simp add: order_pins_alt flip: mset_concat_map_add)
  also have "\<dots> = mset (concat (map (\<lambda>k. filter (\<lambda>p. pin_source p = k) pins) (source_ids pins)))"
    by (rule mset_concat_map_cong) (simp add: mset_head_tail)
  also have "\<dots> = mset (filter (\<lambda>p. pin_source p \<in> set (source_ids pins)) pins)"
    by (rule mset_concat_groups) (rule source_ids_sorted)
  finally show ?thesis by simp
qed

lemma set_order_pins [simp]: "set (order_pins pins) = set pins"
  by (metis mset_order_pins set_mset_mset)

section \<open>An initial part is in its own order\<close>

lemma fill_rounds_empty: "list_all (\<lambda>q. q = []) qs \<Longrightarrow> fill_rounds qs = []"
  by (subst fill_rounds.simps) (auto simp: list_ex_iff list_all_iff Let_def)

lemma fill_rounds_unfold: "fill_rounds qs = concat (map (take 1) qs) @ fill_rounds (map (drop 1) qs)"
proof (cases "list_ex (\<lambda>q. q \<noteq> []) (map (drop 1) qs)")
  case True
  then show ?thesis by (subst fill_rounds.simps) (simp only: Let_def if_True)
next
  case False
  then have "fill_rounds (map (drop 1) qs) = []"
    by (intro fill_rounds_empty) (auto simp: list_ex_iff list_all_iff)
  moreover have "fill_rounds qs = concat (map (take 1) qs)"
    using False by (subst fill_rounds.simps) (simp only: Let_def if_False append_Nil2)
  ultimately show ?thesis by simp
qed

text \<open>Queues without pins do not matter.\<close>

lemma concat_map_filter_empty: "concat (map g (filter (\<lambda>q. q \<noteq> []) qs)) = concat (map g qs)" if "g [] = []"
  using that by (induction qs) auto

lemma fill_rounds_filter: "fill_rounds (filter (\<lambda>q. q \<noteq> []) qs) = fill_rounds qs"
proof (induction "sum_list (map length qs)" arbitrary: qs rule: less_induct)
  case less
  have again: "filter (\<lambda>q. q \<noteq> []) (map (drop 1) (filter (\<lambda>q. q \<noteq> []) qs)) = filter (\<lambda>q. q \<noteq> []) (map (drop 1) qs)"
    by (induction qs) auto
  show ?case
  proof (cases "list_ex (\<lambda>q. q \<noteq> []) (map (drop 1) qs)")
    case True
    then have shorter: "sum_list (map length (map (drop 1) qs)) < sum_list (map length qs)"
      using sum_list_drop1_less [OF True] by (simp add: comp_def)
    have "sum_list (map length (map (drop 1) (filter (\<lambda>q. q \<noteq> []) xs))) = sum_list (map length (map (drop 1) xs))"
      for xs :: "'a list list"
      by (induction xs) auto
    then have "sum_list (map length (map (drop 1) (filter (\<lambda>q. q \<noteq> []) qs))) < sum_list (map length qs)"
      using shorter by simp
    from less [OF this] less [OF shorter]
    have "fill_rounds (map (drop 1) (filter (\<lambda>q. q \<noteq> []) qs)) = fill_rounds (map (drop 1) qs)"
      using again by simp
    then show ?thesis
      by (simp add: fill_rounds_unfold [of qs] fill_rounds_unfold [of "filter (\<lambda>q. q \<noteq> []) qs"] concat_map_filter_empty)
  next
    case False
    then have "\<not> list_ex (\<lambda>q. q \<noteq> []) (map (drop 1) (filter (\<lambda>q. q \<noteq> []) qs))"
      by (auto simp: list_ex_iff)
    with False have "fill_rounds (map (drop 1) qs) = []" "fill_rounds (map (drop 1) (filter (\<lambda>q. q \<noteq> []) qs)) = []"
      by (auto simp: list_ex_iff list_all_iff intro!: fill_rounds_empty)
    then show ?thesis
      by (simp add: fill_rounds_unfold [of qs] fill_rounds_unfold [of "filter (\<lambda>q. q \<noteq> []) qs"] concat_map_filter_empty)
  qed
qed

lemma fill_rounds_some:
  assumes "\<And>k. k \<in> set ks \<Longrightarrow> \<not> P k \<Longrightarrow> f k = []"
  shows "fill_rounds (map f (filter P ks)) = fill_rounds (map f ks)"
proof -
  have "filter (\<lambda>q. q \<noteq> []) (map f (filter P ks)) = filter (\<lambda>q. q \<noteq> []) (map f ks)"
    using assms by (induction ks) auto
  then show ?thesis using fill_rounds_filter [of "map f ks"] fill_rounds_filter [of "map f (filter P ks)"] by simp
qed

text \<open>An initial part of a round robin is the round robin of initial parts of the queues.\<close>

lemma prefix_first_round:
  assumes "concat (map (take 1) qs) = p @ r"
  shows "\<exists>ts. list_all2 (\<lambda>t q. \<exists>n. t = take n q \<and> n \<le> 1) ts qs \<and> concat ts = p"
  using assms
proof (induction qs arbitrary: p)
  case (Cons q qs)
  show ?case
  proof (cases q)
    case Nil
    then obtain ts where "list_all2 (\<lambda>t q. \<exists>n. t = take n q \<and> n \<le> 1) ts qs" "concat ts = p"
      using Cons by auto
    then show ?thesis by (intro exI [of _ "[] # ts"]) (auto simp: Nil)
  next
    case (Cons x xs)
    note q = this
    show ?thesis
    proof (cases p)
      case Nil
      have "list_all2 (\<lambda>t q. \<exists>n. t = take n q \<and> n \<le> 1) (map (\<lambda>_. []) (q # qs)) (q # qs)"
        by (simp only: list_all2_map1 list_all2_same) (auto intro!: exI [of _ 0])
      then show ?thesis using Nil by (intro exI [of _ "map (\<lambda>_. []) (q # qs)"]) (auto simp: comp_def)
    next
      case (Cons y p')
      then have "y = x" "concat (map (take 1) qs) = p' @ r" using Cons.prems q by auto
      then obtain ts where "list_all2 (\<lambda>t q. \<exists>n. t = take n q \<and> n \<le> 1) ts qs" "concat ts = p'"
        using Cons.IH by blast
      then show ?thesis
        using q Cons \<open>y = x\<close> by (intro exI [of _ "[x] # ts"]) (auto intro!: exI [of _ 1])
    qed
  qed
qed simp

lemma fill_rounds_short: "list_all (\<lambda>q. length q \<le> 1) qs \<Longrightarrow> fill_rounds qs = concat qs"
proof -
  assume short: "list_all (\<lambda>q. length q \<le> 1) qs"
  then have "map (take 1) qs = qs" by (induction qs) auto
  moreover have "fill_rounds (map (drop 1) qs) = []"
    using short by (intro fill_rounds_empty) (auto simp: list_all_iff)
  ultimately show ?thesis by (subst fill_rounds_unfold) (simp only: append_Nil2)
qed

lemma fill_rounds_prefix:
  "fill_rounds qs = p @ r \<Longrightarrow> \<exists>ts. list_all2 (\<lambda>t q. \<exists>n. t = take n q) ts qs \<and> fill_rounds ts = p"
proof (induction "sum_list (map length qs)" arbitrary: qs p rule: less_induct)
  case less
  let ?first = "concat (map (take 1) qs)" and ?left = "map (drop 1) qs"
  have split: "?first @ fill_rounds ?left = p @ r"
    using less.prems by (simp only: fill_rounds_unfold [of qs])
  show ?case
  proof (cases "length p \<le> length ?first")
    case True
    then obtain r' where "?first = p @ r'"
      using split by (metis append_eq_append_conv_if append_take_drop_id)
    from prefix_first_round [OF this] obtain ts where
      ts: "list_all2 (\<lambda>t q. \<exists>n. t = take n q \<and> n \<le> 1) ts qs" "concat ts = p" by blast
    then have "list_all (\<lambda>q. length q \<le> 1) ts"
      by (auto simp: list_all2_conv_all_nth list_all_length)
    then have "fill_rounds ts = p" using ts(2) by (simp add: fill_rounds_short)
    with ts(1) show ?thesis by (auto intro: list_all2_mono)
  next
    case False
    then obtain p' where p': "p = ?first @ p'" "fill_rounds ?left = p' @ r"
      using split by (metis append_eq_append_conv_if linear append_take_drop_id)
    have "list_ex (\<lambda>q. q \<noteq> []) ?left"
    proof (rule ccontr)
      assume none: "\<not> list_ex (\<lambda>q. q \<noteq> []) ?left"
      then have "fill_rounds ?left = []" by (intro fill_rounds_empty) (auto simp: list_ex_iff list_all_iff)
      then show False using p' False by simp
    qed
    then have "sum_list (map length ?left) < sum_list (map length qs)"
      using sum_list_drop1_less [of qs] by (simp add: comp_def)
    from less.hyps [OF this p'(2)] obtain ts where
      ts: "list_all2 (\<lambda>t q. \<exists>n. t = take n q) ts ?left" "fill_rounds ts = p'" by blast
    define us where "us = map2 (\<lambda>q t. take 1 q @ t) qs ts"
    have len: "length ts = length qs" using ts(1) by (auto dest: list_all2_lengthD)
    have each: "\<exists>n. ts ! i = take n (drop 1 (qs ! i))" if "i < length qs" for i
      using list_all2_nthD2 [OF ts(1), of i] that len by simp
    have whole: "list_all2 (\<lambda>t q. \<exists>n. t = take n q) us qs"
    proof (rule list_all2_all_nthI)
      fix i assume "i < length us"
      then have i: "i < length qs" "us ! i = take 1 (qs ! i) @ ts ! i" using len by (simp_all add: us_def)
      then obtain n where "ts ! i = take n (drop 1 (qs ! i))" using each by blast
      then have "us ! i = take (Suc n) (qs ! i)" using i(2) by (cases "qs ! i") simp_all
      then show "\<exists>n. us ! i = take n (qs ! i)" by blast
    qed (simp add: us_def len)
    have parts: "take 1 (us ! i) = take 1 (qs ! i)" "drop 1 (us ! i) = ts ! i" if i: "i < length qs" for i
      using each [OF i] i len by (cases "qs ! i"; auto simp: us_def)+
    have lens: "length us = length qs" by (simp add: us_def len)
    have "map (take 1) us = map (take 1) qs"
      by (rule nth_equalityI) (simp_all only: length_map lens nth_map parts)
    moreover have "map (drop 1) us = ts"
      by (rule nth_equalityI) (simp_all only: length_map lens len nth_map parts)
    ultimately have "fill_rounds us = p" using p'(1) ts(2) by (simp only: fill_rounds_unfold [of us])
    with whole show ?thesis by blast
  qed
qed

lemma prefix_concat:
  "concat qs = p @ r \<Longrightarrow> \<exists>ts. list_all2 (\<lambda>t q. \<exists>n. t = take n q) ts qs \<and> concat ts = p"
proof (induction qs arbitrary: p)
  case (Cons q qs)
  show ?case
  proof (cases "length p \<le> length q")
    case True
    have "take (length p) (concat (q # qs)) = p" unfolding Cons.prems by simp
    then have "take (length p) q = p" using True by simp
    moreover have "list_all2 (\<lambda>t q. \<exists>n. t = take n q) (map (\<lambda>_. []) qs) qs"
      by (simp only: list_all2_map1 list_all2_same) (auto intro!: exI [of _ 0])
    ultimately show ?thesis
      by (intro exI [of _ "p # map (\<lambda>_. []) qs"]) (auto simp: comp_def intro: sym)
  next
    case False
    then obtain p' where "p = q @ p'" "concat qs = p' @ r"
      using Cons.prems by (auto simp: append_eq_append_conv2)
    then obtain ts where "list_all2 (\<lambda>t q. \<exists>n. t = take n q) ts qs" "concat ts = p'"
      using Cons.IH by blast
    then show ?thesis
      using \<open>p = q @ p'\<close> by (intro exI [of _ "q # ts"]) (auto intro!: exI [of _ "length q"])
  qed
qed simp

text \<open>The pins of one signal carry the same signal record.\<close>

definition same_signals :: "pending_pin list \<Rightarrow> bool" where
  "same_signals pins =
     (\<forall>p \<in> set pins. \<forall>q \<in> set pins. si_signal_id (pp_signal p) = si_signal_id (pp_signal q) \<longrightarrow> pp_signal p = pp_signal q)"

lemma head_then_tail:
  assumes "pin_order.in_order ps" and "same_signals ps"
  shows "head_pins ps @ tail_pins ps = ps"
proof (cases ps)
  case (Cons p qs)
  let ?same = "\<lambda>q. si_signal_id (pp_signal q) = si_signal_id (pp_signal p)"
  have none: "\<not> ?same b" if ab: "compare_pins a b \<le> 0" "\<not> ?same a" "compare_pins p a \<le> 0" "a \<in> set ps" "b \<in> set ps" for a b
  proof
    assume same: "?same b"
    have "pp_signal b = pp_signal p" using assms(2) same ab Cons unfolding same_signals_def by auto
    moreover have "compare_signals (pp_signal p) (pp_signal a) < 0"
      using ab(2,3) unfolding compare_pins_le by (auto simp: compare_signals_def cmp_asc_def split: if_splits)
    ultimately show False
      using ab(1) signal_order.flip_less [of "pp_signal p" "pp_signal a"] unfolding compare_pins_le by auto
  qed
  have "filter ?same xs @ filter (\<lambda>q. \<not> ?same q) xs = xs"
    if "pin_order.in_order xs" "set xs \<subseteq> set ps" "\<forall>a \<in> set xs. compare_pins p a \<le> 0" for xs
    using that
  proof (induction xs)
    case (Cons x xs)
    show ?case
    proof (cases "?same x")
      case True
      then show ?thesis using Cons by simp
    next
      case False
      then have "filter ?same xs = []"
        using Cons.prems none [of x] by (auto simp: filter_empty_conv)
      then show ?thesis using Cons False by simp
    qed
  qed simp
  from this [of ps] show ?thesis
    using assms(1) by (simp add: head_pins_def tail_pins_def newest_signal_def Cons)
qed (simp add: head_pins_def tail_pins_def)

lemma head_pins_nonempty: "ps \<noteq> [] \<Longrightarrow> head_pins ps \<noteq> []"
  by (cases ps) (simp_all add: head_pins_def newest_signal_def)

text \<open>Initial parts of the heads and tails of every source, put in the order of \<open>orderPins\<close>, are in it.\<close>

lemma order_from_parts:
  assumes pins: "distinct (map pin_id pins)" "same_signals pins"
    and ks: "ks = source_ids pins"
    and H: "\<And>k. k \<in> set ks \<Longrightarrow> \<exists>n. H k = take n (head_pins (pins_of pins k))"
    and T: "\<And>k. k \<in> set ks \<Longrightarrow> \<exists>n. T k = take n (tail_pins (pins_of pins k))"
    and started: "\<And>k. k \<in> set ks \<Longrightarrow> H k = [] \<Longrightarrow> T k = []"
    and sel: "sel = concat (map H ks) @ fill_rounds (map T ks)"
    and part: "set sel \<subseteq> set pins" "distinct (map pin_id sel)"
  shows "order_pins sel = sel"
proof -
  have whole: "head_pins (pins_of pins k) @ tail_pins (pins_of pins k) = pins_of pins k" for k
    using pins(2) by (intro head_then_tail) (auto simp: same_signals_def pins_of_def' pin_order.in_order_sort)
  have in_heads: "set (H k) \<subseteq> set (head_pins (pins_of pins k))" if "k \<in> set ks" for k
    using H [OF that] by (auto dest: in_set_takeD)
  have in_tails: "set (T k) \<subseteq> set (tail_pins (pins_of pins k))" if "k \<in> set ks" for k
    using T [OF that] by (auto dest: in_set_takeD)
  have ordered: "pin_order.in_order (H k @ T k)" if k: "k \<in> set ks" for k
  proof -
    have "pin_order.in_order (head_pins (pins_of pins k) @ tail_pins (pins_of pins k))"
      unfolding whole by (simp add: pins_of_def' pin_order.in_order_sort)
    then show ?thesis
      using H [OF k] T [OF k] in_heads [OF k] in_tails [OF k] by (auto simp: sorted_wrt_append intro: sorted_wrt_take)
  qed
  have sources: "pin_source p = k" if "k \<in> set ks" "p \<in> set (H k) \<union> set (T k)" for p k
    using that in_heads [OF that(1)] in_tails [OF that(1)] by (auto simp: head_pins_def tail_pins_def)
  have msel: "mset sel = mset (concat (map (\<lambda>k. H k @ T k) ks))"
    by (simp add: sel flip: mset_concat_map_add)
  have only: "filter (\<lambda>p. pin_source p = k) (concat (map (\<lambda>k. H k @ T k) js)) = (if k \<in> set js then H k @ T k else [])"
    if "set js \<subseteq> set ks" "distinct js" for k js
    using that
  proof (induction js)
    case (Cons j js)
    have "filter (\<lambda>p. pin_source p = k) (H j @ T j) = (if j = k then H k @ T k else [])"
    proof (cases "j = k")
      case True
      then show ?thesis using sources [of k] Cons.prems by (auto simp: filter_id_conv)
    next
      case False
      then show ?thesis using sources [of j] Cons.prems by (auto simp: filter_empty_conv)
    qed
    then show ?case using Cons by auto
  qed simp
  have own: "pins_of sel k = H k @ T k" if "k \<in> set ks" for k
  proof (rule pins_of_eqI [OF part(2) ordered [OF that]])
    have "filter (\<lambda>p. pin_source p = k) (concat (map (\<lambda>k. H k @ T k) ks)) = H k @ T k"
      using only [of ks k] that source_ids_sorted(2) [of pins] by (simp add: ks)
    then show "mset (H k @ T k) = filter_mset (\<lambda>p. pin_source p = k) (mset sel)"
      unfolding msel mset_filter [symmetric] by (simp only:)
  qed
  have set_sel: "set sel = (\<Union>k \<in> set ks. set (H k) \<union> set (T k))"
    using arg_cong [OF msel, of set_mset] by simp
  have occur: "source_ids sel = filter (\<lambda>k. H k \<noteq> []) ks"
  proof (rule sorted_distinct_set_unique)
    show "set (source_ids sel) = set (filter (\<lambda>k. H k \<noteq> []) ks)"
    proof (intro set_eqI iffI)
      fix k assume "k \<in> set (source_ids sel)"
      then obtain p j where "pin_source p = k" "j \<in> set ks" "p \<in> set (H j) \<union> set (T j)" by (auto simp: set_sel)
      then show "k \<in> set (filter (\<lambda>k. H k \<noteq> []) ks)" using sources [of j p] started [of j] by auto
    next
      fix k assume k: "k \<in> set (filter (\<lambda>k. H k \<noteq> []) ks)"
      then have "hd (H k) \<in> set (H k)" by simp
      then obtain p where "p \<in> set (H k)" by blast
      then show "k \<in> set (source_ids sel)" using sources [of k p] k by (auto simp: set_sel)
    qed
  qed (use source_ids_sorted ks in \<open>auto intro: sorted_filter [of "\<lambda>x. x", simplified]\<close>)
  have parts: "head_pins (pins_of sel k) = H k" "tail_pins (pins_of sel k) = T k" if k: "k \<in> set ks" "H k \<noteq> []" for k
  proof -
    let ?new = "newest_signal (pins_of pins k)"
    obtain n where n: "H k = take n (head_pins (pins_of pins k))" using H k(1) by blast
    have "head_pins (pins_of pins k) \<noteq> []" using n k(2) by auto
    then have "hd (H k) = hd (pins_of pins k)"
      using n k(2) whole [of k] by (metis hd_append2 hd_take take_eq_Nil gr0I)
    then have new: "newest_signal (pins_of sel k) = ?new"
      using k by (simp add: own newest_signal_def)
    have "\<forall>p \<in> set (H k). si_signal_id (pp_signal p) = ?new" using in_heads [OF k(1)] by (auto simp: head_pins_def)
    moreover have "\<forall>p \<in> set (T k). si_signal_id (pp_signal p) \<noteq> ?new" using in_tails [OF k(1)] by (auto simp: tail_pins_def)
    ultimately show "head_pins (pins_of sel k) = H k" "tail_pins (pins_of sel k) = T k"
      unfolding head_pins_def tail_pins_def new unfolding own [OF k(1)] by (simp_all add: filter_id_conv filter_empty_conv)
  qed
  have "map (\<lambda>k. head_pins (pins_of sel k)) (source_ids sel) = map H (filter (\<lambda>k. H k \<noteq> []) ks)"
    "map (\<lambda>k. tail_pins (pins_of sel k)) (source_ids sel) = map T (filter (\<lambda>k. H k \<noteq> []) ks)"
    using parts by (auto simp: occur)
  moreover have "concat (map H (filter (\<lambda>k. H k \<noteq> []) ks)) = concat (map H ks)"
    by (induction ks) auto
  moreover have "fill_rounds (map T (filter (\<lambda>k. H k \<noteq> []) ks)) = fill_rounds (map T ks)"
    using started by (intro fill_rounds_some) auto
  ultimately show ?thesis unfolding order_pins_alt [of sel] by (simp only: sel [symmetric])
qed

text \<open>From lists of initial parts to functions of the source.\<close>

lemma list_as_map:
  assumes "distinct ks" and "list_all2 P ts (map f ks)"
  shows "\<exists>H. map H ks = ts \<and> (\<forall>k \<in> set ks. P (H k) (f k))"
proof -
  let ?H = "\<lambda>k. the (map_of (zip ks ts) k)"
  have len: "length ts = length ks" using assms(2) by (auto dest: list_all2_lengthD)
  have at_index: "?H (ks ! i) = ts ! i" if "i < length ks" for i
    using that len assms(1) by (simp add: map_of_zip_nth)
  have "map ?H ks = ts" by (rule nth_equalityI) (simp_all add: len at_index)
  moreover have "\<forall>k \<in> set ks. P (?H k) (f k)"
    using assms(2) at_index len by (auto simp: in_set_conv_nth list_all2_conv_all_nth)
  ultimately show ?thesis by blast
qed

lemma order_pins_initial:
  assumes pins: "distinct (map pin_id pins)" "same_signals pins" and initial: "order_pins pins = sel @ rest"
  shows "order_pins sel = sel"
proof -
  let ?ks = "source_ids pins"
  let ?heads = "map (\<lambda>k. head_pins (pins_of pins k)) ?ks" and ?tails = "map (\<lambda>k. tail_pins (pins_of pins k)) ?ks"
  have split: "concat ?heads @ fill_rounds ?tails = sel @ rest" using initial by (simp add: order_pins_alt)
  have part: "set sel \<subseteq> set pins" "distinct (map pin_id sel)"
  proof -
    show "set sel \<subseteq> set pins" using arg_cong [OF initial, of set] by auto
    have "mset (map pin_id (sel @ rest)) = mset (map pin_id pins)" by (simp flip: initial)
    then have "distinct (map pin_id (sel @ rest))" using pins(1) by (metis mset_eq_imp_distinct_iff)
    then show "distinct (map pin_id sel)" by simp
  qed
  have occupied: "head_pins (pins_of pins k) \<noteq> []" if k: "k \<in> set ?ks" for k
  proof -
    obtain p where "p \<in> set (pins_of pins k)" using k by auto
    then have "pins_of pins k \<noteq> []" by (metis empty_iff empty_set)
    then show ?thesis by (rule head_pins_nonempty)
  qed
  show ?thesis
  proof (cases "length sel \<le> length (concat ?heads)")
    case True
    then obtain r where "concat ?heads = sel @ r"
      using split by (metis append_eq_append_conv_if append_take_drop_id)
    from prefix_concat [OF this] obtain hs where hs: "list_all2 (\<lambda>t q. \<exists>n. t = take n q) hs ?heads" "concat hs = sel" by blast
    from list_as_map [OF source_ids_sorted(2) hs(1)] hs(2)
    obtain H where H: "concat (map H ?ks) = sel" "\<forall>k \<in> set ?ks. \<exists>n. H k = take n (head_pins (pins_of pins k))" by auto
    show ?thesis
    proof (rule order_from_parts [OF pins refl _ _ _ _ part, of H "\<lambda>_. []"])
      have "fill_rounds (map (\<lambda>_. []) ?ks) = []" by (rule fill_rounds_empty) (simp add: list_all_iff)
      then show "sel = concat (map H ?ks) @ fill_rounds (map (\<lambda>_. []) ?ks)" using H(1) by simp
    qed (use H(2) in \<open>auto intro: exI [of _ 0]\<close>)
  next
    case False
    then obtain p where p: "sel = concat ?heads @ p" "fill_rounds ?tails = p @ rest"
      using split by (auto simp: append_eq_append_conv2)
    from fill_rounds_prefix [OF p(2)] obtain ts where ts: "list_all2 (\<lambda>t q. \<exists>n. t = take n q) ts ?tails" "fill_rounds ts = p" by blast
    from list_as_map [OF source_ids_sorted(2) ts(1)] ts(2)
    obtain T where T: "fill_rounds (map T ?ks) = p" "\<forall>k \<in> set ?ks. \<exists>n. T k = take n (tail_pins (pins_of pins k))" by auto
    show ?thesis
    proof (rule order_from_parts [OF pins refl _ _ _ _ part, of "\<lambda>k. head_pins (pins_of pins k)" T])
      show "sel = concat ?heads @ fill_rounds (map T ?ks)" using p(1) T(1) by simp
      show "\<exists>n. head_pins (pins_of pins k) = take n (head_pins (pins_of pins k))" for k
        by (rule exI [of _ "length (head_pins (pins_of pins k))"]) simp
    qed (use T(2) occupied in auto)
  qed
qed

end
