(* ===== verification/Packet_Correct.thy ===== *)
theory Packet_Correct
  imports Packet Packet_Order
begin

text \<open>
  What a prepared packet guarantees: the excerpt cut, the two loops that spend the byte limit, the accounting of the
  facts and the consent behind every context item.
\<close>

section \<open>Excerpts\<close>

lemma utf8_cons_point:
  "utf8_byte_length (c # cs) =
     utf8_byte_length [c] + utf8_byte_length cs" if "\<not> is_high c \<or> cs = [] \<or> \<not> is_low (hd cs)"
  using that by (cases cs) auto

lemma code_points_concat [simp]: "concat (code_points t) = t"
  by (induction t rule: code_points.induct) (auto split: list.splits)

lemma cut_points_prefix: "\<exists>n. cut_points bytes ps = concat (take n ps)"
proof (induction ps arbitrary: bytes)
  case (Cons p ps)
  obtain n where n: "cut_points (bytes + utf8_byte_length p) ps = concat (take n ps)" using Cons by blast
  show ?case
  proof (cases "bytes + utf8_byte_length p > max_context_text_bytes")
    case True
    then show ?thesis by (intro exI [of _ 0]) simp
  next
    case False
    then show ?thesis using n by (intro exI [of _ "Suc n"]) simp
  qed
qed simp

lemma cut_points_head: "cut_points bytes (code_points (d # ds)) = [] \<or> hd (cut_points bytes (code_points (d # ds))) = d"
  by (cases ds) auto

lemma cut_points_bytes:
  "bytes \<le> max_context_text_bytes \<Longrightarrow> bytes + utf8_byte_length (cut_points bytes (code_points t)) \<le> max_context_text_bytes"
proof (induction t arbitrary: bytes rule: code_points.induct)
  case (2 c cs)
  have alone: ?case if single: "code_points (c # cs) = [c] # code_points cs"
    and IH: "\<And>bytes. bytes \<le> max_context_text_bytes \<Longrightarrow>
        bytes + utf8_byte_length (cut_points bytes (code_points cs)) \<le> max_context_text_bytes"
    and apart: "\<not> is_high c \<or> cs = [] \<or> \<not> is_low (hd cs)"
  proof (cases "bytes + utf8_byte_length [c] > max_context_text_bytes")
    case True
    then show ?thesis using single "2.prems" by simp
  next
    case False
    let ?rest = "cut_points (bytes + utf8_byte_length [c]) (code_points cs)"
    have "\<not> is_high c \<or> ?rest = [] \<or> \<not> is_low (hd ?rest)"
    proof (cases cs)
      case (Cons d ds)
      then show ?thesis
        using apart cut_points_head [of "bytes + utf8_byte_length [c]" d ds] by (metis list.distinct(1) list.sel(1))
    qed simp
    then have "utf8_byte_length (c # ?rest) = utf8_byte_length [c] + utf8_byte_length ?rest"
      by (rule utf8_cons_point)
    moreover have "cut_points bytes (code_points (c # cs)) = c # ?rest" using False single by simp
    ultimately show ?thesis using IH [of "bytes + utf8_byte_length [c]"] False by simp
  qed
  show ?case
  proof (cases "is_high c")
    case False
    then show ?thesis using alone "2.IH" by (cases cs) auto
  next
    case high: True
    show ?thesis
    proof (cases cs)
      case Nil
      then show ?thesis using alone by simp
    next
      case (Cons d ds)
      show ?thesis
      proof (cases "is_low d")
        case True
        have "\<not> c < 0x80" "\<not> c < 0x800" using high by (auto simp: is_high_def word_less_nat_alt word_le_nat_alt)
        then have four: "utf8_byte_length (c # d # x) = 4 + utf8_byte_length x" for x using high True by simp
        have "utf8_byte_length [c, d] = 4" using four [of "[]"] by (simp only: utf8_byte_length.simps(1) add_0_right)
        then have "cut_points bytes (code_points (c # cs)) =
            (if bytes + 4 > max_context_text_bytes then [] else c # d # cut_points (bytes + 4) (code_points ds))"
          using high Cons True by (simp del: utf8_byte_length.simps)
        then show ?thesis
          using "2.IH"(1) [OF high Cons True, of "bytes + 4"] "2.prems" four
          by (cases "bytes + 4 > max_context_text_bytes") (simp_all del: utf8_byte_length.simps(2))
      next
        case False
        then show ?thesis using alone "2.IH"(2) [OF high Cons False] high Cons by auto
      qed
    qed
  qed
qed simp

lemma normalize_excerpt_bytes: "utf8_byte_length (normalize_excerpt nfc t) \<le> max_context_text_bytes"
  using cut_points_bytes [of 0] by (simp add: normalize_excerpt_def Let_def)

text \<open>An excerpt is an initial part of the normalized text.\<close>

lemma normalize_excerpt_prefix: "\<exists>r. nfc t = normalize_excerpt nfc t @ r"
proof (cases "utf8_byte_length (nfc t) \<le> max_context_text_bytes")
  case False
  obtain n where "cut_points 0 (code_points (nfc t)) = concat (take n (code_points (nfc t)))"
    using cut_points_prefix by blast
  then have "nfc t = cut_points 0 (code_points (nfc t)) @ concat (drop n (code_points (nfc t)))"
    by (metis append_take_drop_id code_points_concat concat_append)
  then show ?thesis using False by (auto simp: normalize_excerpt_def Let_def)
qed (simp add: normalize_excerpt_def)

text \<open>Normalization forms are closed under substrings: an initial part of a normalized text is normalized.\<close>

definition prefix_closed :: "(units \<Rightarrow> units) \<Rightarrow> bool" where
  "prefix_closed nfc = (\<forall>t x y. nfc t = x @ y \<longrightarrow> nfc x = x)"

lemma normalize_excerpt_idempotent:
  assumes "prefix_closed nfc"
  shows "normalize_excerpt nfc (normalize_excerpt nfc t) = normalize_excerpt nfc t"
proof -
  obtain r where "nfc t = normalize_excerpt nfc t @ r" using normalize_excerpt_prefix by blast
  then have "nfc (normalize_excerpt nfc t) = normalize_excerpt nfc t" using assms by (auto simp: prefix_closed_def)
  then show ?thesis using normalize_excerpt_bytes [of nfc t] by (simp add: normalize_excerpt_def [of nfc "normalize_excerpt nfc t"] Let_def)
qed

section \<open>The byte limit\<close>

text \<open>The recorded length is the length of the recorded request, within the limit.\<close>

definition within_limit :: "nat \<Rightarrow> 'a budget \<Rightarrow> bool" where
  "within_limit limit b = (packet_bytes (bg_request b) = Inr (bg_bytes b) \<and> bg_bytes b \<le> limit)"

lemma add_priors_within: "add_priors nfc limit ds b = Inr b' \<Longrightarrow> within_limit limit b \<Longrightarrow> within_limit limit b'"
proof (induction ds arbitrary: b)
  case (Cons d ds)
  from Cons.prems obtain n where n: "packet_bytes ((bg_request b)\<lparr>rq_prior := rq_prior (bg_request b) @ [excerpt_of nfc d]\<rparr>) = Inr n"
    by (auto simp: Let_def and_then_Inr)
  show ?case
  proof (cases "n > limit")
    case True
    then show ?thesis using Cons.prems n by (auto simp: Let_def within_limit_def)
  next
    case False
    let ?next = "b\<lparr>bg_request := (bg_request b)\<lparr>rq_prior := rq_prior (bg_request b) @ [excerpt_of nfc d]\<rparr>,
      bg_bytes := n, bg_selected := bg_selected b @ [fst d]\<rparr>"
    have "add_priors nfc limit ds ?next = Inr b'" using Cons.prems(1) n False by (simp add: Let_def)
    moreover have "within_limit limit ?next" using n False by (simp add: within_limit_def)
    ultimately show ?thesis by (rule Cons.IH)
  qed
qed simp

text \<open>The three outcomes of a step: no room is left, the item does not fit, the item is added.\<close>

definition no_room :: "'a budget \<Rightarrow> bool" where
  "no_room b = (bg_exhausted b \<or> max_context_items \<le> length (bg_selected b))"

definition request_with :: "(units \<Rightarrow> units) \<Rightarrow> string \<Rightarrow> pending_pin \<Rightarrow> context_pin budget \<Rightarrow> reading_request" where
  "request_with nfc version p b = (bg_request b)
     \<lparr>rq_context := rq_context (bg_request b) @ [to_request_context (context_pin_of nfc (length (bg_selected b)) p) version]\<rparr>"

definition add_pin :: "(units \<Rightarrow> units) \<Rightarrow> string \<Rightarrow> pending_pin \<Rightarrow> nat \<Rightarrow> context_pin budget \<Rightarrow> context_pin budget" where
  "add_pin nfc version p n b = b\<lparr>bg_request := request_with nfc version p b, bg_bytes := n,
     bg_selected := bg_selected b @ [context_pin_of nfc (length (bg_selected b)) p]\<rparr>"

lemma context_step_room: "no_room b \<Longrightarrow> \<exists>r. context_step nfc version limit p b = Inr (b\<lparr>bg_rejections := r\<rparr>)"
  by (auto simp: context_step_def no_room_def)

lemma context_step_try:
  "\<not> no_room b \<Longrightarrow> context_step nfc version limit p b =
     and_then (packet_bytes (request_with nfc version p b)) (\<lambda>n.
       if n > limit then Inr (b\<lparr>bg_exhausted := True, bg_rejections := bg_rejections b @ [reject ''context'' (si_signal_id (pp_signal p))
         ''context_budget_exhausted'' (''ceiling '' @ nat_str limit)]\<rparr>)
       else Inr (add_pin nfc version p n b))"
  unfolding context_step_def no_room_def request_with_def add_pin_def Let_def by simp

lemma context_step_Inr:
  assumes "context_step nfc version limit p b = Inr b'"
  obtains (full) r where "no_room b" "b' = b\<lparr>bg_rejections := r\<rparr>"
    | (over) r where "\<not> no_room b" "b' = b\<lparr>bg_exhausted := True, bg_rejections := r\<rparr>"
    | (fits) n where "\<not> no_room b" "packet_bytes (request_with nfc version p b) = Inr n" "n \<le> limit" "b' = add_pin nfc version p n b"
proof (cases "no_room b")
  case True
  then show ?thesis using full context_step_room assms by (metis sum.inject(2))
next
  case False
  then obtain n where n: "packet_bytes (request_with nfc version p b) = Inr n"
    using assms by (auto simp: context_step_try and_then_Inr)
  show ?thesis
  proof (cases "n > limit")
    case True
    then show ?thesis using over False assms n by (auto simp: context_step_try)
  next
    case small: False
    then show ?thesis using fits False assms n by (auto simp: context_step_try)
  qed
qed

lemma context_step_within: "context_step nfc version limit p b = Inr b' \<Longrightarrow> within_limit limit b \<Longrightarrow> within_limit limit b'"
  by (erule context_step_Inr) (simp_all add: within_limit_def add_pin_def)

lemma add_context_within: "add_context nfc version limit ps b = Inr b' \<Longrightarrow> within_limit limit b \<Longrightarrow> within_limit limit b'"
  by (induction ps arbitrary: b) (auto simp: and_then_Inr intro: context_step_within)

lemma select_priors_Inr:
  assumes "select_priors dp nfc input request n = Inr b"
  obtains (granted) ds where "''prior_reading_excerpts'' \<in> set (pi_categories input)"
      "recent_readings dp (pi_local_date input) (pi_prior input) = Inr ds"
      "add_priors nfc (pi_max_bytes input) ds
         \<lparr>bg_request = request, bg_bytes = n, bg_selected = [], bg_exhausted = False, bg_rejections = []\<rparr> = Inr b"
    | (refused) r where "''prior_reading_excerpts'' \<notin> set (pi_categories input)"
      "b = \<lparr>bg_request = request, bg_bytes = n, bg_selected = [], bg_exhausted = False, bg_rejections = r\<rparr>"
proof (cases "''prior_reading_excerpts'' \<in> set (pi_categories input)")
  case True
  then show ?thesis using assms granted unfolding select_priors_def Let_def if_P [OF True] and_then_Inr by blast
next
  case False
  have "b = \<lparr>bg_request = request, bg_bytes = n, bg_selected = [], bg_exhausted = False, bg_rejections = bg_rejections b\<rparr>"
    using assms unfolding select_priors_def Let_def if_not_P [OF False] by auto
  then show ?thesis by (rule refused [OF False])
qed

lemma select_priors_within:
  assumes "select_priors dp nfc input request n = Inr b" and "packet_bytes request = Inr n" and "n \<le> pi_max_bytes input"
  shows "within_limit (pi_max_bytes input) b"
  using assms(1)
proof (cases rule: select_priors_Inr)
  case (granted ds)
  show ?thesis by (rule add_priors_within [OF granted(3)]) (simp add: within_limit_def assms)
next
  case (refused r)
  then show ?thesis by (simp add: within_limit_def assms)
qed

text \<open>How a prepared packet came about.\<close>

lemma prepare_Inr:
  "prepare_constrained_reading_input dp nfc input = Inr p \<longleftrightarrow>
     (\<exists>u facts rejections. checked_uncertainty input = Inr u \<and> packet_facts dp input u = Inr (facts, rejections) \<and>
        finish_packet dp nfc input u facts rejections = Inr p)"
  by (auto simp: prepare_constrained_reading_input_def and_then_Inr)

definition fresh_budget :: "prior_reading budget \<Rightarrow> context_pin budget" where
  "fresh_budget priors =
     \<lparr>bg_request = bg_request priors, bg_bytes = bg_bytes priors, bg_selected = [], bg_exhausted = False, bg_rejections = []\<rparr>"

lemma throw_if: "(if c then Inl e else r) = Inr x \<longleftrightarrow> \<not> c \<and> r = Inr x"
  by simp

lemma finish_Inr:
  "finish_packet dp nfc input u facts rejections = Inr p \<longleftrightarrow>
     (\<exists>n priors b identity manifest.
        packet_bytes (initial_request input u facts) = Inr n \<and> n \<le> pi_max_bytes input \<and>
        select_priors dp nfc input (initial_request input u facts) n = Inr priors \<and>
        add_context nfc (pi_selection_version input) (pi_max_bytes input) (fst (ordered_pins dp input)) (fresh_budget priors) = Inr b \<and>
        identity_canonical input u facts (bg_selected b) (bg_request b) = Inr identity \<and>
        manifest_canonical input u facts (bg_selected b) (bg_request b) (bg_bytes b) = Inr manifest \<and>
        p = \<lparr>pd_facts = facts, pd_context = bg_selected b, pd_prior = bg_selected priors,
          pd_rejections = rejections @ bg_rejections priors @ snd (ordered_pins dp input) @ bg_rejections b,
          pd_request = bg_request b, pd_window = (dw_start_at (pi_day input), dw_end_at (pi_day input)),
          pd_bytes = bg_bytes b, pd_manifest = manifest, pd_identity = identity\<rparr>)"
  by (simp only: finish_packet_def Let_def and_then_Inr case_prod_unfold throw_if not_less sum.inject fresh_budget_def) blast

lemma prepared_stages:
  assumes "prepare_constrained_reading_input dp nfc input = Inr p"
  obtains u rejections n priors b where "checked_uncertainty input = Inr u" "packet_facts dp input u = Inr (pd_facts p, rejections)"
    "packet_bytes (initial_request input u (pd_facts p)) = Inr n" "n \<le> pi_max_bytes input"
    "select_priors dp nfc input (initial_request input u (pd_facts p)) n = Inr priors"
    "add_context nfc (pi_selection_version input) (pi_max_bytes input) (fst (ordered_pins dp input)) (fresh_budget priors) = Inr b"
    "identity_canonical input u (pd_facts p) (bg_selected b) (bg_request b) = Inr (pd_identity p)"
    "manifest_canonical input u (pd_facts p) (bg_selected b) (bg_request b) (bg_bytes b) = Inr (pd_manifest p)"
    "pd_context p = bg_selected b" "pd_prior p = bg_selected priors" "pd_request p = bg_request b" "pd_bytes p = bg_bytes b"
    "pd_window p = (dw_start_at (pi_day input), dw_end_at (pi_day input))"
    "pd_rejections p = rejections @ bg_rejections priors @ snd (ordered_pins dp input) @ bg_rejections b"
proof -
  from assms obtain u facts rejections where stages: "checked_uncertainty input = Inr u"
    "packet_facts dp input u = Inr (facts, rejections)" "finish_packet dp nfc input u facts rejections = Inr p"
    unfolding prepare_Inr by blast
  from stages(3) obtain n priors b identity manifest where
    "packet_bytes (initial_request input u facts) = Inr n" "n \<le> pi_max_bytes input"
    "select_priors dp nfc input (initial_request input u facts) n = Inr priors"
    "add_context nfc (pi_selection_version input) (pi_max_bytes input) (fst (ordered_pins dp input)) (fresh_budget priors) = Inr b"
    "identity_canonical input u facts (bg_selected b) (bg_request b) = Inr identity"
    "manifest_canonical input u facts (bg_selected b) (bg_request b) (bg_bytes b) = Inr manifest"
    "p = \<lparr>pd_facts = facts, pd_context = bg_selected b, pd_prior = bg_selected priors,
          pd_rejections = rejections @ bg_rejections priors @ snd (ordered_pins dp input) @ bg_rejections b,
          pd_request = bg_request b, pd_window = (dw_start_at (pi_day input), dw_end_at (pi_day input)),
          pd_bytes = bg_bytes b, pd_manifest = manifest, pd_identity = identity\<rparr>"
    unfolding finish_Inr by blast
  with stages(1,2) show ?thesis by (intro that [of u rejections n priors b]) simp_all
qed

text \<open>
  C25: a prepared packet records the length of its own request, and it is within the ceiling.
\<close>

theorem packet_within_ceiling:
  assumes "prepare_constrained_reading_input dp nfc input = Inr p"
  shows "packet_bytes (pd_request p) = Inr (pd_bytes p) \<and> pd_bytes p \<le> pi_max_bytes input"
proof -
  obtain u n priors b where
    n: "packet_bytes (initial_request input u (pd_facts p)) = Inr n" "n \<le> pi_max_bytes input"
    and priors: "select_priors dp nfc input (initial_request input u (pd_facts p)) n = Inr priors"
    and b: "add_context nfc (pi_selection_version input) (pi_max_bytes input) (fst (ordered_pins dp input)) (fresh_budget priors) = Inr b"
    and p: "pd_request p = bg_request b" "pd_bytes p = bg_bytes b"
    using prepared_stages [OF assms] by metis
  have "within_limit (pi_max_bytes input) (fresh_budget priors)"
    using select_priors_within [OF priors n] by (simp add: within_limit_def fresh_budget_def)
  then show ?thesis using add_context_within [OF b] p by (simp add: within_limit_def)
qed

section \<open>The context that was expanded\<close>

lemma same_use_set_set: "same_use_set a b \<Longrightarrow> set a = set b"
  unfolding same_use_set_def by (metis js_sort_str_sort set_sort set_uniq)

lemma admit_sources_fst: "fst (admit_sources ss) = filter (\<lambda>s. source_rejection s = None) ss"
  by (induction ss) (auto split: prod.splits option.splits)

lemma supported_use_bar: "is_m5_supported_use u \<Longrightarrow> CHR ''|'' \<notin> set u"
  by (auto simp: is_m5_supported_use_def m5_supported_uses_def)

lemma bar_split: "a @ x # u = b @ x # v \<Longrightarrow> x \<notin> set u \<Longrightarrow> x \<notin> set v \<Longrightarrow> a = b \<and> u = v"
proof (induction a arbitrary: b)
  case Nil
  then show ?case by (cases b) auto
next
  case (Cons y a)
  then show ?case by (cases b) auto
qed

lemma pin_key_inj:
  "pin_key s u = pin_key t v \<Longrightarrow> is_m5_supported_use u \<Longrightarrow> is_m5_supported_use v \<Longrightarrow> s = t \<and> u = v"
  unfolding pin_key_def using bar_split [of s "CHR ''|''" u t v] supported_use_bar [of u] supported_use_bar [of v] by simp

text \<open>What one signal contributes.\<close>

definition pins_of_signal ::
  "(string \<Rightarrow> int option) \<Rightarrow> string \<Rightarrow> string list \<Rightarrow> source_input list \<Rightarrow> signal_input \<Rightarrow> pending_pin list" where
  "pins_of_signal dp anchor granted sources s =
     (case expand_signal dp anchor granted sources s of Inl _ \<Rightarrow> [] | Inr ps \<Rightarrow> ps)"

lemma expand_signals_fst:
  "fst (expand_signals dp anchor granted sources ss) = concat (map (pins_of_signal dp anchor granted sources) ss)"
  by (induction ss) (auto simp: pins_of_signal_def split: prod.splits sum.splits)

lemma pins_of_signal_mem:
  "p \<in> set (pins_of_signal dp anchor granted sources s) \<longleftrightarrow>
     pp_signal p = s \<and> \<not> expired_at dp anchor s \<and> si_category s \<in> set granted \<and>
     index_by so_source_id sources (si_source_id s) = Some (pp_source p) \<and> pp_use p \<in> set (signal_uses s (pp_source p))"
  by (cases p) (auto simp: pins_of_signal_def expand_signal_def split: option.splits)

lemma set_signal_uses:
  "set (signal_uses s source) = {u. u \<in> set (si_allowed_uses s) \<and> u \<in> set (so_consent_uses source) \<and> is_m5_supported_use u}"
  by (auto simp: signal_uses_def)

lemma signal_uses_order: "sorted (signal_uses s source)" "distinct (signal_uses s source)"
  by (simp_all add: signal_uses_def)

lemma pin_ids_of_signal: "distinct (map pin_id (pins_of_signal dp anchor granted sources s))"
proof -
  have "distinct (map pin_id (map (\<lambda>u. \<lparr>pp_signal = s, pp_source = source, pp_use = u\<rparr>) (signal_uses s source)))" for source
    using signal_uses_order(2) [of s source] by (simp add: comp_def pin_id_def distinct_map inj_on_def)
  then show ?thesis by (auto simp: pins_of_signal_def expand_signal_def split: option.splits)
qed

lemma distinct_pin_ids:
  "distinct (map si_signal_id ss) \<Longrightarrow> distinct (map pin_id (concat (map (pins_of_signal dp anchor granted sources) ss)))"
proof (induction ss)
  case (Cons s ss)
  have "pin_id p \<noteq> pin_id q" if "p \<in> set (pins_of_signal dp anchor granted sources s)" "t \<in> set ss"
    "q \<in> set (pins_of_signal dp anchor granted sources t)" for p q t
    using that Cons.prems by (auto simp: pins_of_signal_mem pin_id_def image_iff)
  then have "pin_id ` set (pins_of_signal dp anchor granted sources s) \<inter>
      pin_id ` set (concat (map (pins_of_signal dp anchor granted sources) ss)) = {}" by fastforce
  then show ?case using Cons pin_ids_of_signal [of dp anchor granted sources s] by simp
qed simp

lemma distinct_concat_pins: "distinct (map f xs) \<Longrightarrow> x \<in> set xs \<Longrightarrow> y \<in> set xs \<Longrightarrow> f x = f y \<Longrightarrow> x = y"
  by (metis distinct_map inj_onD)

text \<open>The lookup by key finds the candidate's own pin.\<close>

definition offered_pins ::
  "(string \<Rightarrow> int option) \<Rightarrow> string \<Rightarrow> string list \<Rightarrow> source_input list \<Rightarrow> signal_input list \<Rightarrow> pending_pin list" where
  "offered_pins dp anchor granted sources signals =
     concat (map (pins_of_signal dp anchor granted
       (filter (\<lambda>s. source_rejection s = None) (js_sort (\<lambda>a b. cmp_asc (so_source_id a) (so_source_id b)) sources)))
       (js_sort compare_signals signals))"

lemma find_by_key:
  assumes "distinct (map pin_id pins)" and "\<And>p. p \<in> set pins \<Longrightarrow> is_m5_supported_use (pp_use p)" and "q \<in> set pins"
  shows "js_map_get (map (\<lambda>p. (pin_key (si_signal_id (pp_signal p)) (pp_use p), p)) pins)
      (pin_key (si_signal_id (pp_signal q)) (pp_use q)) = Some q"
proof (rule js_map_get_distinct)
  have "inj_on (\<lambda>p. pin_key (si_signal_id (pp_signal p)) (pp_use p)) (set pins)"
  proof (rule inj_onI)
    fix a b assume ab: "a \<in> set pins" "b \<in> set pins"
      "pin_key (si_signal_id (pp_signal a)) (pp_use a) = pin_key (si_signal_id (pp_signal b)) (pp_use b)"
    then have "pin_id a = pin_id b" using pin_key_inj assms(2) by (metis pin_id_def)
    then show "a = b" using distinct_concat_pins [OF assms(1) ab(1,2)] by simp
  qed
  then show "distinct (map fst (map (\<lambda>p. (pin_key (si_signal_id (pp_signal p)) (pp_use p), p)) pins))"
    using assms(1) by (auto simp: comp_def distinct_map)
qed (use assms(3) in auto)

lemma present_Some: "present (map Some xs) = xs"
  by (simp add: present_def comp_def)

lemma expand_context_pins:
  assumes "distinct (map si_signal_id signals)"
  shows "fst (expand_context dp anchor granted sources signals) =
    filter (\<lambda>p. consented (candidate_of p)) (offered_pins dp anchor granted sources signals)"
proof -
  let ?pins = "offered_pins dp anchor granted sources signals"
  have ids: "distinct (map pin_id ?pins)" unfolding offered_pins_def by (rule distinct_pin_ids) (simp add: assms)
  have uses: "is_m5_supported_use (pp_use p)" if "p \<in> set ?pins" for p
    using that by (auto simp: offered_pins_def pins_of_signal_mem set_signal_uses)
  have found: "map (\<lambda>c. js_map_get (map (\<lambda>p. (pin_key (si_signal_id (pp_signal p)) (pp_use p), p)) ?pins)
       (pin_key (cs_signal_id c) (cs_allowed_use c))) (filter consented (map candidate_of ?pins)) =
      map Some (filter (\<lambda>p. consented (candidate_of p)) ?pins)"
    by (auto simp: filter_map comp_def candidate_of_def find_by_key [OF ids uses])
  have "fst (expand_context dp anchor granted sources signals) =
      present (map (\<lambda>c. js_map_get (map (\<lambda>p. (pin_key (si_signal_id (pp_signal p)) (pp_use p), p)) ?pins)
       (pin_key (cs_signal_id c) (cs_allowed_use c))) (filter consented (map candidate_of ?pins)))"
    by (simp add: expand_context_def offered_pins_def case_prod_unfold flip: admit_sources_fst expand_signals_fst partition_context_eligible)
  then show ?thesis unfolding found present_Some .
qed

lemma offered_pin:
  assumes "p \<in> set (offered_pins dp anchor granted sources signals)"
  shows "pp_signal p \<in> set signals" "pp_source p \<in> set sources" "source_rejection (pp_source p) = None"
    "so_source_id (pp_source p) = si_source_id (pp_signal p)" "\<not> expired_at dp anchor (pp_signal p)"
    "si_category (pp_signal p) \<in> set granted" "pp_use p \<in> set (signal_uses (pp_signal p) (pp_source p))"
  using assms by (auto simp: offered_pins_def pins_of_signal_mem dest!: index_by_Some)

section \<open>The feedback cap\<close>

lemma cap_feedback_subset: "set (fst (cap_feedback pins)) \<subseteq> set pins"
  by (auto simp: cap_feedback_def Let_def)

definition feedback_ids :: "pending_pin list \<Rightarrow> string set" where
  "feedback_ids pins = (\<lambda>p. si_signal_id (pp_signal p)) ` {p \<in> set pins. is_feedback p}"

lemma length_uniq: "length (uniq xs) = card (set xs)"
  by (metis distinct_card distinct_uniq set_uniq)

lemma feedback_signals_length: "length (feedback_signals pins) = card (feedback_ids pins)"
proof -
  have "set (map si_signal_id (map pp_signal (filter is_feedback pins))) = feedback_ids pins"
    by (auto simp: feedback_ids_def)
  then show ?thesis unfolding feedback_signals_def Let_def length_map length_uniq by (rule arg_cong)
qed

lemma cap_feedback_count: "card (feedback_ids (fst (cap_feedback pins))) \<le> max_feedback_records"
proof (cases "length (feedback_signals pins) \<le> max_feedback_records")
  case True
  then show ?thesis by (simp add: cap_feedback_def Let_def feedback_signals_length)
next
  case False
  let ?keep = "map si_signal_id (take max_feedback_records (js_sort compare_signals (feedback_signals pins)))"
  have "feedback_ids (fst (cap_feedback pins)) \<subseteq> set ?keep"
    using False unfolding cap_feedback_def Let_def feedback_ids_def by (simp only: if_False fst_conv) auto
  then have "card (feedback_ids (fst (cap_feedback pins))) \<le> card (set ?keep)" by (intro card_mono) simp_all
  also have "\<dots> \<le> length ?keep" by (rule card_length)
  also have "\<dots> \<le> max_feedback_records" by simp
  finally show ?thesis .
qed

section \<open>The loop over the pins\<close>

text \<open>The references of a list of pins, numbered from \<open>i\<close>.\<close>

fun refs_from :: "(units \<Rightarrow> units) \<Rightarrow> nat \<Rightarrow> pending_pin list \<Rightarrow> context_pin list" where
  "refs_from nfc i [] = []"
| "refs_from nfc i (p # ps) = context_pin_of nfc i p # refs_from nfc (Suc i) ps"

lemma length_refs_from [simp]: "length (refs_from nfc i ps) = length ps"
  by (induction ps arbitrary: i) simp_all

lemma nth_refs_from: "j < length ps \<Longrightarrow> refs_from nfc i ps ! j = context_pin_of nfc (i + j) (ps ! j)"
  by (induction ps arbitrary: i j) (auto simp: nth_Cons split: nat.splits)

text \<open>What two budgets share when they differ in their rejections only.\<close>

definition same_budget :: "'a budget \<Rightarrow> 'a budget \<Rightarrow> bool" where
  "same_budget b c = (bg_request b = bg_request c \<and> bg_bytes b = bg_bytes c \<and> bg_selected b = bg_selected c)"

lemma add_context_full: "add_context nfc version limit ps b = Inr b' \<Longrightarrow> no_room b \<Longrightarrow> same_budget b b'"
proof (induction ps arbitrary: b)
  case (Cons p ps)
  from Cons.prems(1) obtain c where c: "context_step nfc version limit p b = Inr c" "add_context nfc version limit ps c = Inr b'"
    by (auto simp: and_then_Inr)
  obtain r where "c = b\<lparr>bg_rejections := r\<rparr>" using context_step_room [OF Cons.prems(2)] c(1) by (metis sum.inject(2))
  then show ?case using Cons.IH [OF c(2)] Cons.prems(2) by (simp add: same_budget_def no_room_def)
qed (simp add: same_budget_def)

text \<open>The loop adds an initial part of the pins, and on that part alone it ends with the same packet.\<close>

lemma add_context_initial:
  assumes "add_context nfc version limit ps b = Inr b'"
  shows "\<exists>sel rest b''. ps = sel @ rest \<and> bg_selected b' = bg_selected b @ refs_from nfc (length (bg_selected b)) sel \<and>
    add_context nfc version limit sel b = Inr b'' \<and> same_budget b'' b'"
  using assms
proof (induction ps arbitrary: b)
  case Nil
  then show ?case by (auto simp: same_budget_def)
next
  case (Cons p ps)
  from Cons.prems obtain c where c: "context_step nfc version limit p b = Inr c" "add_context nfc version limit ps c = Inr b'"
    by (auto simp: and_then_Inr)
  have stop: ?case if "same_budget b b'"
    using that by (intro exI [of _ "[]"] exI [of _ "p # ps"]) (auto simp: same_budget_def)
  from c(1) show ?case
  proof (cases rule: context_step_Inr)
    case (full r)
    then show ?thesis using stop add_context_full [OF Cons.prems] by blast
  next
    case (over r)
    then have "no_room c" by (simp add: no_room_def)
    then show ?thesis using stop add_context_full [OF c(2)] over by (simp add: same_budget_def)
  next
    case (fits n)
    from Cons.IH [OF c(2)] obtain sel rest b'' where
      IH: "ps = sel @ rest" "bg_selected b' = bg_selected c @ refs_from nfc (length (bg_selected c)) sel"
        "add_context nfc version limit sel c = Inr b''" "same_budget b'' b'" by blast
    have "bg_selected b' = bg_selected b @ refs_from nfc (length (bg_selected b)) (p # sel)"
      using IH(2) fits(4) by (simp add: add_pin_def)
    moreover have "add_context nfc version limit (p # sel) b = Inr b''" using IH(3) c(1) by simp
    ultimately show ?thesis using IH(1,4) by (intro exI [of _ "p # sel"] exI [of _ rest]) auto
  qed
qed

lemma add_context_length:
  "add_context nfc version limit ps b = Inr b' \<Longrightarrow> length (bg_selected b) \<le> max_context_items \<Longrightarrow>
   length (bg_selected b') \<le> max_context_items"
proof (induction ps arbitrary: b)
  case (Cons p ps)
  from Cons.prems(1) obtain c where c: "context_step nfc version limit p b = Inr c" "add_context nfc version limit ps c = Inr b'"
    by (auto simp: and_then_Inr)
  from c(1) have "length (bg_selected c) \<le> max_context_items"
    by (cases rule: context_step_Inr) (use Cons.prems(2) in \<open>auto simp: add_pin_def no_room_def not_le\<close>)
  then show ?case by (rule Cons.IH [OF c(2)])
qed simp

section \<open>Consent\<close>

text \<open>The pins the loop spends the budget on, and the ones it selected.\<close>

lemma ordered_pins_fst:
  "fst (ordered_pins dp input) = order_pins (fst (cap_feedback (fst (expand_context dp (pi_anchor input) (pi_categories input)
     (pi_sources input) (pi_signals input)))))"
  by (simp add: ordered_pins_def case_prod_unfold)

lemma ordered_pin:
  assumes "distinct (map si_signal_id (pi_signals input))" and "p \<in> set (fst (ordered_pins dp input))"
  shows "p \<in> set (offered_pins dp (pi_anchor input) (pi_categories input) (pi_sources input) (pi_signals input))"
    "consented (candidate_of p)"
  using assms(2) cap_feedback_subset unfolding ordered_pins_fst by (fastforce simp: expand_context_pins [OF assms(1)])+

lemma prepared_context:
  assumes "prepare_constrained_reading_input dp nfc input = Inr p"
  obtains sel rest where "fst (ordered_pins dp input) = sel @ rest" "pd_context p = refs_from nfc 0 sel"
proof -
  obtain priors b where
    b: "add_context nfc (pi_selection_version input) (pi_max_bytes input) (fst (ordered_pins dp input)) (fresh_budget priors) = Inr b"
    and p: "pd_context p = bg_selected b"
    using prepared_stages [OF assms] by metis
  from add_context_initial [OF b] p show ?thesis by (auto simp: fresh_budget_def intro: that)
qed

lemma refs_from_mem: "x \<in> set (refs_from nfc i ps) \<Longrightarrow> \<exists>p \<in> set ps. \<exists>j. x = context_pin_of nfc j p"
  by (induction ps arbitrary: i) auto

text \<open>
  C6: every context item of a packet comes from a fresh, unexpired signal of a category
  the grant covers and of a source whose permission is active and whose consent is granted and agrees with it, for a
  use that the signal, both records and the registry allow.
\<close>

theorem selected_context_is_consented:
  assumes "prepare_constrained_reading_input dp nfc input = Inr p"
    and "distinct (map si_signal_id (pi_signals input))" and "x \<in> set (pd_context p)"
  shows "\<exists>s \<in> set (pi_signals input). \<exists>source \<in> set (pi_sources input).
    xp_signal_id x = si_signal_id s \<and> xp_source_id x = si_source_id s \<and> xp_category x = si_category s \<and>
    si_freshness s = ''fresh'' \<and> \<not> expired_at dp (pi_anchor input) s \<and> si_category s \<in> set (pi_categories input) \<and>
    so_source_id source = si_source_id s \<and> so_permission_state source = ''active'' \<and> so_consent_status source = ''granted'' \<and>
    so_consent_source source = si_source_id s \<and> xp_consent_id x = so_consent_id source \<and>
    so_permission_consent source = so_consent_id source \<and>
    xp_use x \<in> set (si_allowed_uses s) \<inter> set (so_consent_uses source) \<inter> set (so_permission_uses source) \<and>
    (\<exists>uses. (si_source_id s, uses) \<in> set ingestible_sources \<and> xp_use x \<in> set uses)"
proof -
  obtain sel rest where sel: "fst (ordered_pins dp input) = sel @ rest" "pd_context p = refs_from nfc 0 sel"
    using prepared_context [OF assms(1)] .
  then obtain q j where q: "q \<in> set sel" "x = context_pin_of nfc j q" using assms(3) refs_from_mem by metis
  then have "q \<in> set (fst (ordered_pins dp input))" using sel(1) by simp
  note pin = ordered_pin [OF assms(2) this]
  note offered = offered_pin [OF pin(1)]
  have agreed: "so_permission_state (pp_source q) = ''active''" "so_consent_status (pp_source q) = ''granted''"
    "so_permission_consent (pp_source q) = so_consent_id (pp_source q)"
    "so_consent_source (pp_source q) = so_source_id (pp_source q)"
    "set (so_permission_uses (pp_source q)) = set (so_consent_uses (pp_source q))"
    using offered(3) same_use_set_set by (auto simp: source_rejection_def split: if_splits)
  show ?thesis
    using offered agreed pin(2)
    by (intro bexI [of _ "pp_signal q"] bexI [of _ "pp_source q"])
      (auto simp: q(2) context_pin_of_def set_signal_uses consented_def candidate_of_def)
qed

text \<open>
  C27: a packet holds at most 999 context items, and its feedback comes from at most twenty signals.
\<close>

theorem context_limits:
  assumes "prepare_constrained_reading_input dp nfc input = Inr p"
  shows "length (pd_context p) \<le> 999 \<and>
    card (xp_signal_id ` {x \<in> set (pd_context p). xp_category x = ''reading_feedback''}) \<le> 20"
proof
  obtain priors b where
    b: "add_context nfc (pi_selection_version input) (pi_max_bytes input) (fst (ordered_pins dp input)) (fresh_budget priors) = Inr b"
    and p: "pd_context p = bg_selected b"
    using prepared_stages [OF assms] by metis
  show "length (pd_context p) \<le> 999"
    using add_context_length [OF b] p by (simp add: fresh_budget_def max_context_items_def)
  obtain sel rest where sel: "fst (ordered_pins dp input) = sel @ rest" "pd_context p = refs_from nfc 0 sel"
    using prepared_context [OF assms] .
  let ?kept = "fst (cap_feedback (fst (expand_context dp (pi_anchor input) (pi_categories input) (pi_sources input) (pi_signals input))))"
  have "set sel \<subseteq> set ?kept" using arg_cong [OF sel(1), of set] by (auto simp: ordered_pins_fst)
  then have "xp_signal_id ` {x \<in> set (pd_context p). xp_category x = ''reading_feedback''} \<subseteq> feedback_ids ?kept"
    unfolding sel(2) by (auto dest!: refs_from_mem simp: context_pin_of_def feedback_ids_def is_feedback_def)
  then have "card (xp_signal_id ` {x \<in> set (pd_context p). xp_category x = ''reading_feedback''}) \<le> card (feedback_ids ?kept)"
    by (intro card_mono) (simp_all add: feedback_ids_def)
  then show "card (xp_signal_id ` {x \<in> set (pd_context p). xp_category x = ''reading_feedback''}) \<le> 20"
    using cap_feedback_count [of "fst (expand_context dp (pi_anchor input) (pi_categories input) (pi_sources input) (pi_signals input))"]
    by (simp add: max_feedback_records_def)
qed

section \<open>Every source is heard first\<close>

definition kept_pins :: "(string \<Rightarrow> int option) \<Rightarrow> packet_input \<Rightarrow> pending_pin list" where
  "kept_pins dp input =
     fst (cap_feedback (fst (expand_context dp (pi_anchor input) (pi_categories input) (pi_sources input) (pi_signals input))))"

lemma ordered_kept: "fst (ordered_pins dp input) = order_pins (kept_pins dp input)"
  by (simp add: ordered_pins_fst kept_pins_def)

lemma cap_feedback_filter: "\<exists>P. fst (cap_feedback pins) = filter P pins"
proof (cases "length (feedback_signals pins) \<le> max_feedback_records")
  case True
  then show ?thesis by (intro exI [of _ "\<lambda>_. True"]) (simp add: cap_feedback_def Let_def)
next
  case False
  then show ?thesis unfolding cap_feedback_def Let_def if_not_P [OF False] fst_conv by blast
qed

lemma kept_pins_ids:
  assumes "distinct (map si_signal_id (pi_signals input))"
  shows "distinct (map pin_id (kept_pins dp input))" "same_signals (kept_pins dp input)"
proof -
  let ?offered = "offered_pins dp (pi_anchor input) (pi_categories input) (pi_sources input) (pi_signals input)"
  have "distinct (map pin_id ?offered)" unfolding offered_pins_def by (rule distinct_pin_ids) (simp add: assms)
  then have "distinct (map pin_id (filter P (filter Q ?offered)))" for P Q by (simp add: distinct_map_filter)
  then show "distinct (map pin_id (kept_pins dp input))"
    unfolding kept_pins_def expand_context_pins [OF assms] using cap_feedback_filter by metis
  have "pp_signal p \<in> set (pi_signals input)" if "p \<in> set (kept_pins dp input)" for p
    using that cap_feedback_subset [of "filter (\<lambda>p. consented (candidate_of p)) ?offered"] offered_pin(1)
    unfolding kept_pins_def expand_context_pins [OF assms] by fastforce
  then show "same_signals (kept_pins dp input)"
    unfolding same_signals_def using distinct_concat_pins [OF assms] by blast
qed

lemma head_pin_newest:
  assumes "p \<in> set (head_pins (pins_of pins k))" and "q \<in> set pins" and "pin_source q = k" and "same_signals pins"
  shows "compare_signals (pp_signal p) (pp_signal q) \<le> 0"
proof -
  have member: "p \<in> set pins" "pin_source p = k" using assms(1) by (auto simp: head_pins_def)
  have full: "pins_of pins k \<noteq> []" using assms(1) by (cases "pins_of pins k") (simp_all only: head_pins_def filter.simps list.set(1) empty_iff list.distinct not_False_eq_True)
  let ?h = "hd (pins_of pins k)"
  have h: "?h \<in> set pins" using full hd_in_set [OF full] by simp
  have "si_signal_id (pp_signal p) = si_signal_id (pp_signal ?h)" using assms(1) by (simp add: head_pins_def newest_signal_def)
  then have "pp_signal p = pp_signal ?h" using assms(4) member(1) h unfolding same_signals_def by blast
  moreover have "compare_pins ?h q \<le> 0"
  proof -
    have "q \<in> set (pins_of pins k)" using assms(2,3) by simp
    moreover have "pin_order.in_order (pins_of pins k)" by (simp add: pins_of_def' pin_order.in_order_sort)
    ultimately show ?thesis using full by (cases "pins_of pins k") auto
  qed
  ultimately show ?thesis by (auto simp: compare_pins_le)
qed

lemma longer_prefix: "xs @ ys = a @ b \<Longrightarrow> x \<in> set a \<Longrightarrow> x \<notin> set xs \<Longrightarrow> set xs \<subseteq> set a"
  by (auto simp: append_eq_append_conv2)

lemma every_source_first:
  assumes "order_pins pins = sel @ rest" and "same_signals pins"
    and "p \<in> set sel" "q \<in> set pins" "pin_source q = pin_source p" "si_observed_at (pp_signal p) < si_observed_at (pp_signal q)"
    and "r \<in> set pins"
  shows "\<exists>y \<in> set sel. pin_source y = pin_source r"
proof -
  let ?heads = "concat (map (\<lambda>k. head_pins (pins_of pins k)) (source_ids pins))"
  have "p \<notin> set ?heads"
  proof
    assume "p \<in> set ?heads"
    then obtain k where k: "p \<in> set (head_pins (pins_of pins k))" by auto
    then have "k = pin_source p" by (auto simp: head_pins_def)
    then have "compare_signals (pp_signal p) (pp_signal q) \<le> 0"
      using head_pin_newest [OF k assms(4) _ assms(2)] assms(5) by simp
    then show False using assms(6) by (simp add: compare_signals_def split: if_splits)
  qed
  then have "set ?heads \<subseteq> set sel"
    by (rule longer_prefix [OF assms(1) [unfolded order_pins_alt] assms(3)])
  moreover obtain y where "y \<in> set (head_pins (pins_of pins (pin_source r)))"
  proof -
    have "r \<in> set (pins_of pins (pin_source r))" using assms(7) by simp
    then have "pins_of pins (pin_source r) \<noteq> []" by (metis empty_iff empty_set)
    then have "head_pins (pins_of pins (pin_source r)) \<noteq> []" by (rule head_pins_nonempty)
    then show ?thesis using that hd_in_set by blast
  qed
  moreover from this have "pin_source y = pin_source r" by (auto simp: head_pins_def)
  moreover have "y \<in> set ?heads" using calculation(2) assms(7) by auto
  ultimately show ?thesis by blast
qed

lemma index_pins: "x \<in> set (refs_from nfc i sel) \<Longrightarrow>
   \<exists>p \<in> set sel. xp_source_id x = si_source_id (pp_signal p) \<and> xp_observed_at x = si_observed_at (pp_signal p)"
  by (auto dest!: refs_from_mem simp: context_pin_of_def)

lemma refs_from_sources: "p \<in> set sel \<Longrightarrow> \<exists>x \<in> set (refs_from nfc i sel). xp_source_id x = si_source_id (pp_signal p)"
  by (induction sel arbitrary: i) (auto simp: context_pin_of_def)

text \<open>
  C8: once a packet holds an item older than another the same source could have, every
  source with an admissible item has one in the packet.
\<close>

theorem no_source_is_crowded_out:
  assumes "prepare_constrained_reading_input dp nfc input = Inr p"
    and "distinct (map si_signal_id (pi_signals input))" and "x \<in> set (pd_context p)"
    and "q \<in> set (fst (ordered_pins dp input))" and "so_source_id (pp_source q) = xp_source_id x"
    and "xp_observed_at x < si_observed_at (pp_signal q)"
    and "r \<in> set (fst (ordered_pins dp input))"
  shows "\<exists>y \<in> set (pd_context p). xp_source_id y = so_source_id (pp_source r)"
proof -
  have own: "pin_source z = si_source_id (pp_signal z)" if "z \<in> set (fst (ordered_pins dp input))" for z
    using offered_pin(4) [OF ordered_pin(1) [OF assms(2) that]] by (simp add: pin_source_def)
  obtain sel rest where sel: "fst (ordered_pins dp input) = sel @ rest" "pd_context p = refs_from nfc 0 sel"
    using prepared_context [OF assms(1)] .
  obtain z where z: "z \<in> set sel" "xp_source_id x = si_source_id (pp_signal z)" "xp_observed_at x = si_observed_at (pp_signal z)"
    using index_pins assms(3) sel(2) by metis
  have kept: "set (fst (ordered_pins dp input)) = set (kept_pins dp input)" by (simp add: ordered_kept)
  have zs: "z \<in> set (fst (ordered_pins dp input))" using z(1) sel(1) by simp
  have same: "pin_source q = pin_source z" using assms(5) z(2) own [OF zs] by (simp add: pin_source_def)
  have newer: "si_observed_at (pp_signal z) < si_observed_at (pp_signal q)" using assms(6) z(3) by simp
  have "\<exists>y \<in> set sel. pin_source y = pin_source r"
    using assms(4,7) unfolding kept
    by (rule every_source_first [OF sel(1) [unfolded ordered_kept] kept_pins_ids(2) [OF assms(2)] z(1) _ same newer])
  then obtain y where y: "y \<in> set sel" "pin_source y = pin_source r" by blast
  then show ?thesis
    using refs_from_sources [OF y(1), of nfc 0] own [of y] sel by (auto simp: pin_source_def)
qed

section \<open>The facts\<close>

interpretation ranked_facts: keyed_comparator compare_ranked "\<lambda>x. (cf_lane (fst x), rank_key (snd x))"
  using ranked.cmp_less ranked.cmp_sym by unfold_locales (auto simp: compare_ranked_def)

lemma scored_pairs:
  "map_throw (\<lambda>f. and_then (g f) (\<lambda>a. Inr (f, h a))) facts = Inr scored \<Longrightarrow> map fst scored = facts"
  by (induction facts arbitrary: scored) (auto simp: and_then_Inr)

lemma rank_facts_Inr:
  assumes "rank_facts dp facts midpoint domain = Inr ordered"
  shows "mset ordered = mset facts" "sorted (map cf_lane ordered)"
proof -
  obtain scored where scored: "map_throw (\<lambda>f. and_then (to_assembly_fact dp midpoint f)
      (\<lambda>a. Inr (f, score_for dp midpoint domain a))) facts = Inr scored" "ordered = map fst (js_sort compare_ranked scored)"
    using assms by (auto simp: rank_facts_def and_then_Inr)
  have "mset ordered = image_mset fst (mset scored)" by (simp only: scored(2) mset_map mset_js_sort)
  then show "mset ordered = mset facts" using scored_pairs [OF scored(1)] by (metis mset_map)
  have "sorted (map (\<lambda>x. (cf_lane (fst x), rank_key (snd x))) (js_sort compare_ranked scored))"
    by (rule ranked_facts.sorted_js_sort)
  then have "sorted (map fst (map (\<lambda>x. (cf_lane (fst x), rank_key (snd x))) (js_sort compare_ranked scored)))"
    by (auto simp: sorted_iff_nth_mono less_eq_prod_def intro: less_imp_le)
  then show "sorted (map cf_lane ordered)" by (simp add: scored(2) comp_def)
qed

lemma packet_facts_Inr:
  "packet_facts dp input u = Inr (ordered, rejections) \<longleftrightarrow>
     (\<exists>midpoint projected. let suppressed = map (\<lambda>f. suppressed_str (ds_class f)) (du_suppressed u);
          verdict = fact_rejection (pi_categories input) suppressed; facts = filter (\<lambda>f. verdict f = None) projected in
        local_day_midpoint dp (dw_start_at (pi_day input)) (dw_end_at (pi_day input)) = Inr midpoint \<and>
        projected_facts dp midpoint input = Inr projected \<and> facts \<noteq> [] \<and>
        rank_facts dp facts midpoint (pi_domain input) = Inr ordered \<and> rejections = present (map verdict projected))"
  by (simp only: packet_facts_def Let_def and_then_Inr throw_if lift_engine_Inr sum.inject prod.inject) blast

text \<open>The loops touch the two lists of the request only.\<close>

lemma add_priors_frame: "add_priors nfc limit ds b = Inr b' \<Longrightarrow> \<exists>x. bg_request b' = (bg_request b)\<lparr>rq_prior := x\<rparr>"
proof (induction ds arbitrary: b)
  case Nil
  then show ?case by (intro exI [of _ "rq_prior (bg_request b)"]) simp
next
  case (Cons d ds)
  let ?request = "(bg_request b)\<lparr>rq_prior := rq_prior (bg_request b) @ [excerpt_of nfc d]\<rparr>"
  obtain n where n: "packet_bytes ?request = Inr n" using Cons.prems by (auto simp: Let_def and_then_Inr)
  show ?case
  proof (cases "n > limit")
    case True
    then show ?thesis using Cons.prems n by (intro exI [of _ "rq_prior (bg_request b)"]) (auto simp: Let_def)
  next
    case False
    then have "add_priors nfc limit ds (b\<lparr>bg_request := ?request, bg_bytes := n, bg_selected := bg_selected b @ [fst d]\<rparr>) = Inr b'"
      using Cons.prems n by (simp add: Let_def)
    from Cons.IH [OF this] show ?thesis by auto
  qed
qed

lemma context_step_frame:
  "context_step nfc version limit p b = Inr b' \<Longrightarrow> \<exists>x. bg_request b' = (bg_request b)\<lparr>rq_context := x\<rparr>"
  by (erule context_step_Inr)
    (auto simp: add_pin_def request_with_def intro: exI [of _ "rq_context (bg_request b)"])

lemma add_context_frame: "add_context nfc version limit ps b = Inr b' \<Longrightarrow> \<exists>x. bg_request b' = (bg_request b)\<lparr>rq_context := x\<rparr>"
proof (induction ps arbitrary: b)
  case Nil
  then show ?case by (intro exI [of _ "rq_context (bg_request b)"]) simp
next
  case (Cons p ps)
  then obtain c where "context_step nfc version limit p b = Inr c" "add_context nfc version limit ps c = Inr b'"
    by (auto simp: and_then_Inr)
  with Cons.IH context_step_frame show ?case by fastforce
qed

lemma select_priors_frame:
  assumes "select_priors dp nfc input request n = Inr b"
  shows "\<exists>x. bg_request b = request\<lparr>rq_prior := x\<rparr>"
  using assms
proof (cases rule: select_priors_Inr)
  case (granted ds)
  then show ?thesis using add_priors_frame by fastforce
next
  case (refused r)
  then show ?thesis by (intro exI [of _ "rq_prior request"]) simp
qed

lemma prepared_request:
  assumes "prepare_constrained_reading_input dp nfc input = Inr p" and "checked_uncertainty input = Inr u"
  shows "\<exists>x y. pd_request p = (initial_request input u (pd_facts p))\<lparr>rq_prior := x, rq_context := y\<rparr>"
proof -
  obtain u' n priors b where run: "checked_uncertainty input = Inr u'"
    "select_priors dp nfc input (initial_request input u' (pd_facts p)) n = Inr priors"
    "add_context nfc (pi_selection_version input) (pi_max_bytes input) (fst (ordered_pins dp input)) (fresh_budget priors) = Inr b"
    "pd_request p = bg_request b"
    using prepared_stages [OF assms(1)] by metis
  show ?thesis
    using select_priors_frame [OF run(2)] add_context_frame [OF run(3)] run(1,4) assms(2)
    by (simp add: fresh_budget_def) metis
qed

text \<open>
  C7: the facts of a packet are exactly the calculated facts of a granted category that the
  uncertainty report does not suppress, in the order of their lanes and all of them in the request, and every other
  calculated fact is named by a rejection.
\<close>

theorem packet_facts_accounted:
  assumes "prepare_constrained_reading_input dp nfc input = Inr p" and "checked_uncertainty input = Inr u"
    and "local_day_midpoint dp (dw_start_at (pi_day input)) (dw_end_at (pi_day input)) = Inr midpoint"
    and "projected_facts dp midpoint input = Inr projected"
    and "suppressed = map (\<lambda>f. suppressed_str (ds_class f)) (du_suppressed u)"
  shows "mset (pd_facts p) =
      filter_mset (\<lambda>f. cf_category f \<in> set (pi_categories input) \<and> suppression_reason_for f suppressed = None) (mset projected) \<and>
    sorted (map cf_lane (pd_facts p)) \<and> rq_facts (pd_request p) = map to_request_fact (pd_facts p) \<and>
    (\<forall>f \<in> set projected. f \<in> set (pd_facts p) \<or>
      (\<exists>r \<in> set (pd_rejections p). rj_kind r = ''fact'' \<and> rj_subject r = cf_id f))"
proof -
  let ?verdict = "fact_rejection (pi_categories input) suppressed"
  obtain rejections others where r: "packet_facts dp input u = Inr (pd_facts p, rejections)" "pd_rejections p = rejections @ others"
    using prepared_stages [OF assms(1)] assms(2) by (metis sum.inject(2))
  have facts: "rank_facts dp (filter (\<lambda>f. ?verdict f = None) projected) midpoint (pi_domain input) = Inr (pd_facts p)"
    "rejections = present (map ?verdict projected)"
    using r(1) assms(3-5) by (auto simp: packet_facts_Inr Let_def)
  have pass: "?verdict f = None \<longleftrightarrow> cf_category f \<in> set (pi_categories input) \<and> suppression_reason_for f suppressed = None" for f
    by (simp add: fact_rejection_def)
  have "(\<exists>r \<in> set (pd_rejections p). rj_kind r = ''fact'' \<and> rj_subject r = cf_id f)"
    if f: "f \<in> set projected" "f \<notin> set (pd_facts p)" for f
  proof -
    have "f \<notin> set (filter (\<lambda>f. ?verdict f = None) projected)" using f(2) rank_facts_Inr(1) [OF facts(1)] by (metis set_mset_mset)
    then obtain row where row: "?verdict f = Some row" using f(1) by auto
    then have "row \<in> set rejections" using f(1) unfolding facts(2) present_def by force
    moreover have "rj_kind row = ''fact''" "rj_subject row = cf_id f"
      using row by (auto simp: fact_rejection_def reject_def split: if_splits)
    ultimately show ?thesis using r(2) by auto
  qed
  moreover have "rq_facts (pd_request p) = map to_request_fact (pd_facts p)"
    using prepared_request [OF assms(1,2)] by (auto simp: initial_request_def Let_def)
  ultimately show ?thesis using rank_facts_Inr [OF facts(1)] by (auto simp: pass)
qed

end
