(* ===== verification/Packet_Replay.thy ===== *)
theory Packet_Replay
  imports Packet_Correct
begin

text \<open>
  How an execution rebuilds the packet of a command: the pins \<open>buildGenerationCommandV2\<close> freezes
  (\<open>apps/api/src/services/generation-command-v2.ts\<close>), what \<open>generate-daily-reading-v5.ts\<close> selects with them from
  the recalculated responses, and the theorem that the rebuilt input yields the packet that was frozen.
\<close>

section \<open>The pins of a command\<close>

record cycle_pin =
  kp_id :: string
  kp_hash :: string
  kp_passes :: "string list"

record reading_pins =
  rp_cycles :: "cycle_pin list"
  rp_sky :: "(string \<times> string) list"
  rp_context :: "context_pin list"
  rp_prior :: "prior_reading list"

text \<open>\<open>derive\<close> stands for the digest of a cycle and the identifiers of its passes.\<close>

definition cycle_pin_of :: "(normalized_cycle \<Rightarrow> string \<times> string list) \<Rightarrow> normalized_cycle \<Rightarrow> cycle_pin" where
  "cycle_pin_of derive c = \<lparr>kp_id = cy_id c, kp_hash = fst (derive c), kp_passes = snd (derive c)\<rparr>"

definition selected_id :: "prepared_input \<Rightarrow> string \<Rightarrow> bool" where
  "selected_id p i = list_ex (\<lambda>f. cf_id f = i) (pd_facts p)"

definition command_pins :: "(normalized_cycle \<Rightarrow> string \<times> string list) \<Rightarrow> packet_input \<Rightarrow> prepared_input \<Rightarrow> reading_pins" where
  "command_pins derive input p =
     \<lparr>rp_cycles = filter (\<lambda>k. selected_id p (kp_id k)) (map (cycle_pin_of derive) (pi_cycles input)),
      rp_sky = map (\<lambda>f. (sk_id f, sk_digest f)) (filter (\<lambda>f. selected_id p (sk_id f)) (pi_sky_facts input)),
      rp_context = pd_context p, rp_prior = pd_prior p\<rparr>"

section \<open>The rebuilt input\<close>

text \<open>The selection loops; \<open>None\<close> is the integrity mismatch.\<close>

fun select_cycles ::
  "(normalized_cycle \<Rightarrow> string \<times> string list) \<Rightarrow> normalized_cycle list \<Rightarrow> cycle_pin list \<Rightarrow> normalized_cycle list option" where
  "select_cycles derive cycles [] = Some []"
| "select_cycles derive cycles (k # ks) =
     (case index_by cy_id cycles (kp_id k) of
        None \<Rightarrow> None
      | Some c \<Rightarrow>
          if fst (derive c) \<noteq> kp_hash k \<or> snd (derive c) \<noteq> kp_passes k then None
          else map_option ((#) c) (select_cycles derive cycles ks))"

fun select_sky :: "sky_fact list \<Rightarrow> (string \<times> string) list \<Rightarrow> sky_fact list option" where
  "select_sky facts [] = Some []"
| "select_sky facts (k # ks) =
     (case index_by sk_id facts (fst k) of
        None \<Rightarrow> None
      | Some f \<Rightarrow> if sk_digest f \<noteq> snd k then None else map_option ((#) f) (select_sky facts ks))"

text \<open>The groups of \<open>frozenContext\<close>: the first pin of a key, with the uses of all its pins.\<close>

definition group_of :: "(context_pin \<Rightarrow> string) \<Rightarrow> context_pin list \<Rightarrow> string \<Rightarrow> context_pin list" where
  "group_of key pins k = filter (\<lambda>x. key x = k) pins"

definition frozen_source :: "context_pin list \<Rightarrow> string \<Rightarrow> source_input" where
  "frozen_source pins k =
     (let x = hd (group_of xp_source_id pins k); uses = uniq (map xp_use (group_of xp_source_id pins k)) in
      \<lparr>so_source_id = xp_source_id x, so_permission_state = ''active'', so_permission_uses = uses,
       so_permission_consent = xp_consent_id x, so_consent_id = xp_consent_id x, so_consent_source = xp_source_id x,
       so_consent_status = ''granted'', so_consent_version = xp_consent_version x, so_consent_uses = uses\<rparr>)"

text \<open>A pin is frozen fresh.\<close>

definition frozen_signal :: "context_pin list \<Rightarrow> string \<Rightarrow> signal_input" where
  "frozen_signal pins k =
     (let x = hd (group_of xp_signal_id pins k) in
      \<lparr>si_signal_id = xp_signal_id x, si_source_id = xp_source_id x, si_category = xp_category x,
       si_allowed_uses = uniq (map xp_use (group_of xp_signal_id pins k)), si_lane = xp_lane x, si_hash = xp_hash x,
       si_freshness = ''fresh'', si_observed_at = xp_observed_at x, si_expires_at = xp_expires_at x,
       si_content = xp_snapshot x\<rparr>)"

definition frozen_context :: "context_pin list \<Rightarrow> source_input list \<times> signal_input list" where
  "frozen_context pins =
     (map (frozen_source pins) (uniq (map xp_source_id pins)), map (frozen_signal pins) (uniq (map xp_signal_id pins)))"

definition frozen_input ::
  "(normalized_cycle \<Rightarrow> string \<times> string list) \<Rightarrow> packet_input \<Rightarrow> reading_pins \<Rightarrow> packet_input option" where
  "frozen_input derive input pins =
     (case select_cycles derive (pi_cycles input) (rp_cycles pins) of
        None \<Rightarrow> None
      | Some cycles \<Rightarrow>
          (case select_sky (pi_sky_facts input) (rp_sky pins) of
             None \<Rightarrow> None
           | Some sky \<Rightarrow>
               (case frozen_context (rp_context pins) of (sources, signals) \<Rightarrow>
                  Some (input\<lparr>pi_cycles := cycles, pi_sky_facts := sky, pi_sources := sources, pi_signals := signals,
                    pi_prior := rp_prior pins\<rparr>))))"

section \<open>The facts\<close>

lemma select_cycles_filter:
  assumes "distinct (map cy_id cycles)"
  shows "select_cycles derive cycles (filter (\<lambda>k. P (kp_id k)) (map (cycle_pin_of derive) cycles)) =
    Some (filter (\<lambda>c. P (cy_id c)) cycles)"
proof -
  have "select_cycles derive cycles (filter (\<lambda>k. P (kp_id k)) (map (cycle_pin_of derive) cs)) =
      Some (filter (\<lambda>c. P (cy_id c)) cs)" if "set cs \<subseteq> set cycles" for cs
    using that by (induction cs) (auto simp: cycle_pin_of_def index_by_distinct [OF assms])
  then show ?thesis by simp
qed

lemma select_sky_filter:
  assumes "distinct (map sk_id facts)"
  shows "select_sky facts (map (\<lambda>f. (sk_id f, sk_digest f)) (filter P facts)) = Some (filter P facts)"
proof -
  have "select_sky facts (map (\<lambda>f. (sk_id f, sk_digest f)) (filter P fs)) = Some (filter P fs)" if "set fs \<subseteq> set facts" for fs
    using that by (induction fs) (auto simp: index_by_distinct [OF assms])
  then show ?thesis by simp
qed

lemma map_throw_filter:
  "map_throw f xs = Inr ys \<Longrightarrow> (\<And>x y. x \<in> set xs \<Longrightarrow> f x = Inr y \<Longrightarrow> P x = Q y) \<Longrightarrow> map_throw f (filter P xs) = Inr (filter Q ys)"
  by (induction xs arbitrary: ys) (auto simp: and_then_Inr)

lemma map_throw_ids:
  "map_throw f xs = Inr ys \<Longrightarrow> (\<And>x y. f x = Inr y \<Longrightarrow> i y = j x) \<Longrightarrow> map i ys = map j xs"
  by (induction xs arbitrary: ys) (auto simp: and_then_Inr)

lemma project_cycle_fact_id: "project_cycle_fact dp m c = Inr f \<Longrightarrow> cf_id f = cy_id c"
  by (auto simp: project_cycle_fact_def and_then_Inr)

lemma project_sky_fact_id: "project_sky_fact dp s = Inr f \<Longrightarrow> cf_id f = sk_id s"
  by (auto simp: project_sky_fact_def and_then_Inr Let_def)

text \<open>Every calculated fact of the input has an identifier of its own.\<close>

definition distinct_facts :: "packet_input \<Rightarrow> bool" where
  "distinct_facts input = distinct (map cy_id (pi_cycles input) @ map sk_id (pi_sky_facts input) @ map nt_id (pi_natal_facts input))"

text \<open>Keeping the selected cycles and daily-sky facts keeps the facts of the packet.\<close>

lemma packet_facts_frozen:
  assumes facts: "packet_facts dp input u = Inr (facts, rejections)" and ids: "distinct_facts input"
    and cycles: "cycles = filter (\<lambda>c. cy_id c \<in> cf_id ` set facts) (pi_cycles input)"
    and sky: "sky = filter (\<lambda>s. sk_id s \<in> cf_id ` set facts) (pi_sky_facts input)"
    and frozen: "pi_day frozen = pi_day input" "pi_categories frozen = pi_categories input" "pi_domain frozen = pi_domain input"
      "pi_natal_facts frozen = pi_natal_facts input" "pi_cycles frozen = cycles" "pi_sky_facts frozen = sky"
  shows "\<exists>others. packet_facts dp frozen u = Inr (facts, others)"
proof -
  define suppressed where "suppressed = map (\<lambda>f. suppressed_str (ds_class f)) (du_suppressed u)"
  define Q where "Q = (\<lambda>f. fact_rejection (pi_categories input) suppressed f = None)"
  obtain midpoint projected where run:
    "local_day_midpoint dp (dw_start_at (pi_day input)) (dw_end_at (pi_day input)) = Inr midpoint"
    "projected_facts dp midpoint input = Inr projected" "filter Q projected \<noteq> []"
    "rank_facts dp (filter Q projected) midpoint (pi_domain input) = Inr facts"
    using facts [unfolded packet_facts_Inr Let_def, folded suppressed_def, folded Q_def] by blast
  obtain cs ss where parts: "map_throw (project_cycle_fact dp midpoint) (pi_cycles input) = Inr cs"
    "map_throw (project_sky_fact dp) (pi_sky_facts input) = Inr ss"
    "projected = cs @ ss @ map project_natal_fact (pi_natal_facts input)"
    using run(2) by (auto simp: projected_facts_def and_then_Inr)
  have members: "set facts = set (filter Q projected)" using rank_facts_Inr(1) [OF run(4)] by (metis set_mset_mset)
  have "map cf_id cs = map cy_id (pi_cycles input)" "map cf_id ss = map sk_id (pi_sky_facts input)"
    "map cf_id (map project_natal_fact (pi_natal_facts input)) = map nt_id (pi_natal_facts input)"
    using map_throw_ids [OF parts(1), of cf_id cy_id] map_throw_ids [OF parts(2), of cf_id sk_id]
    by (auto simp: project_cycle_fact_id project_sky_fact_id project_natal_fact_def)
  then have "map cf_id projected = map cy_id (pi_cycles input) @ map sk_id (pi_sky_facts input) @ map nt_id (pi_natal_facts input)"
    by (simp only: parts(3) map_append)
  then have "distinct (map cf_id projected)" using ids by (simp only: distinct_facts_def)
  then have chosen: "cf_id f \<in> cf_id ` set facts \<longleftrightarrow> Q f" if "f \<in> set projected" for f
    using that distinct_concat_pins [of cf_id projected] by (auto simp: members)
  have mem: "\<exists>y. f x = Inr y \<and> y \<in> set ys" if "map_throw f xs = Inr ys" "x \<in> set xs" for f :: "'x \<Rightarrow> packet_error + 'y" and xs ys x
    using that by (induction xs arbitrary: ys) (auto simp: and_then_Inr)
  have "map_throw (project_cycle_fact dp midpoint) cycles = Inr (filter Q cs)"
    unfolding cycles
  proof (rule map_throw_filter [OF parts(1)])
    fix c y assume c: "c \<in> set (pi_cycles input)" "project_cycle_fact dp midpoint c = Inr y"
    have "y \<in> set cs" using mem [OF parts(1) c(1)] c(2) by auto
    then show "(cy_id c \<in> cf_id ` set facts) = Q y"
      using chosen [of y] project_cycle_fact_id [OF c(2)] by (simp add: parts(3))
  qed
  moreover have "map_throw (project_sky_fact dp) sky = Inr (filter Q ss)"
    unfolding sky
  proof (rule map_throw_filter [OF parts(2)])
    fix c y assume c: "c \<in> set (pi_sky_facts input)" "project_sky_fact dp c = Inr y"
    have "y \<in> set ss" using mem [OF parts(2) c(1)] c(2) by auto
    then show "(sk_id c \<in> cf_id ` set facts) = Q y"
      using chosen [of y] project_sky_fact_id [OF c(2)] by (simp add: parts(3))
  qed
  ultimately have frozen_projected:
    "projected_facts dp midpoint frozen = Inr (filter Q cs @ filter Q ss @ map project_natal_fact (pi_natal_facts input))"
    by (simp add: projected_facts_def frozen)
  let ?new = "filter Q cs @ filter Q ss @ map project_natal_fact (pi_natal_facts input)"
  have same: "filter Q ?new = filter Q projected" by (simp add: parts(3))
  have "packet_facts dp frozen u = Inr (facts, present (map (fact_rejection (pi_categories input) suppressed) ?new))"
    unfolding packet_facts_Inr Let_def frozen suppressed_def [symmetric] Q_def [symmetric]
    by (intro exI [of _ midpoint] exI [of _ ?new] conjI) (simp_all only: run frozen_projected same not_False_eq_True)
  then show ?thesis by blast
qed

section \<open>The order of renamed pins\<close>

lemma fill_rounds_map: "fill_rounds (map (map f) qs) = map f (fill_rounds qs)"
proof (induction qs rule: fill_rounds.induct)
  case (1 qs)
  have "map (take 1) (map (map f) qs) = map (map f) (map (take 1) qs)" "map (drop 1) (map (map f) qs) = map (map f) (map (drop 1) qs)"
    by (simp_all add: take_map drop_map)
  moreover have "fill_rounds (map (map f) (map (drop 1) qs)) = map f (fill_rounds (map (drop 1) qs))"
  proof (cases "list_ex (\<lambda>q. q \<noteq> []) (map (drop 1) qs)")
    case False
    then have "list_all (\<lambda>q. q = []) (map (drop 1) qs)" "list_all (\<lambda>q. q = []) (map (map f) (map (drop 1) qs))"
      by (auto simp: list_ex_iff list_all_iff)
    then show ?thesis by (simp add: fill_rounds_empty)
  qed (use 1 in blast)
  ultimately show ?case unfolding fill_rounds_unfold [of qs] fill_rounds_unfold [of "map (map f) qs"]
    by (simp only: map_append map_concat)
qed

definition keeps_place :: "(pending_pin \<Rightarrow> pending_pin) \<Rightarrow> pending_pin \<Rightarrow> bool" where
  "keeps_place f p = (pin_source (f p) = pin_source p \<and> pin_id (f p) = pin_id p \<and>
     si_observed_at (pp_signal (f p)) = si_observed_at (pp_signal p))"

lemma order_pins_map:
  assumes "\<And>p. p \<in> set pins \<Longrightarrow> keeps_place f p"
  shows "order_pins (map f pins) = map f (order_pins pins)"
proof -
  have same: "compare_pins (f p) (f q) = compare_pins p q" if "p \<in> set pins" "q \<in> set pins" for p q
    using assms [OF that(1)] assms [OF that(2)] by (simp add: keeps_place_def compare_pins_def compare_signals_def pin_id_def Let_def)
  have filters: "filter (\<lambda>p. pin_source p = k) (map f pins) = map f (filter (\<lambda>p. pin_source p = k) pins)" for k
    using assms by (auto simp: filter_map comp_def keeps_place_def intro!: arg_cong [of _ _ "map f"] filter_cong)
  have own: "pins_of (map f pins) k = map f (pins_of pins k)" for k
    unfolding pins_of_def' filters by (rule js_sort_map) (simp add: same)
  have id: "si_signal_id (pp_signal (f p)) = si_signal_id (pp_signal p)" if "p \<in> set (pins_of pins k)" for p k
    using assms [of p] that by (simp add: keeps_place_def pin_id_def)
  have new: "newest_signal (map f (pins_of pins k)) = newest_signal (pins_of pins k)" if "pins_of pins k \<noteq> []" for k
    using id [of "hd (pins_of pins k)" k] that by (simp add: newest_signal_def hd_map hd_in_set del: set_pins_of)
  have heads: "head_pins (map f (pins_of pins k)) = map f (head_pins (pins_of pins k))"
    "tail_pins (map f (pins_of pins k)) = map f (tail_pins (pins_of pins k))" for k
    by (cases "pins_of pins k = []";
        auto simp: head_pins_def tail_pins_def new filter_map comp_def id simp del: set_pins_of
          intro!: arg_cong [of _ _ "map f"] filter_cong)+
  have "map pin_source (map f pins) = map pin_source pins" using assms by (simp add: keeps_place_def)
  then have sources: "source_ids (map f pins) = source_ids pins" by (simp only: source_ids_def)
  show ?thesis unfolding order_pins_alt own heads sources
    by (simp only: fill_rounds_map [symmetric] map_append map_concat map_map comp_def)
qed

section \<open>The frozen context\<close>

text \<open>What the selected pins of a packet have in common with the pins its input offers.\<close>

definition admitted_sources :: "source_input list \<Rightarrow> source_input list" where
  "admitted_sources sources =
     filter (\<lambda>s. source_rejection s = None) (js_sort (\<lambda>a b. cmp_asc (so_source_id a) (so_source_id b)) sources)"

lemma offered_source:
  "p \<in> set (offered_pins dp anchor granted sources signals) \<Longrightarrow>
   index_by so_source_id (admitted_sources sources) (si_source_id (pp_signal p)) = Some (pp_source p)"
  by (auto simp: offered_pins_def pins_of_signal_mem admitted_sources_def)

text \<open>A pin as the execution sees it.\<close>

definition freeze :: "context_pin list \<Rightarrow> pending_pin \<Rightarrow> pending_pin" where
  "freeze refs p = \<lparr>pp_signal = frozen_signal refs (si_signal_id (pp_signal p)), pp_source = frozen_source refs (pin_source p),
     pp_use = pp_use p\<rparr>"

lemma refs_from_map:
  assumes "\<And>i p. g (context_pin_of nfc i p) = h p"
  shows "map g (refs_from nfc i ps) = map h ps"
  using assms by (induction ps arbitrary: i) auto

lemma group_refs:
  assumes "\<And>i p. key (context_pin_of nfc i p) = k p" and "\<And>i p. use (context_pin_of nfc i p) = u p"
  shows "map use (group_of key (refs_from nfc i ps) x) = map u (filter (\<lambda>p. k p = x) ps)"
  using assms by (induction ps arbitrary: i) (auto simp: group_of_def)

lemma group_head:
  assumes "\<And>i p. key (context_pin_of nfc i p) = k p" and "x \<in> k ` set ps"
  shows "\<exists>q \<in> set ps. \<exists>j. k q = x \<and> hd (group_of key (refs_from nfc i ps) x) = context_pin_of nfc j q"
proof -
  obtain q where "q \<in> set ps" "k q = x" using assms(2) by blast
  then have "group_of key (refs_from nfc i ps) x \<noteq> []"
    using group_refs [of key nfc k "\<lambda>_. ()" "\<lambda>_. ()" i ps x, OF assms(1) refl] by (auto simp: filter_empty_conv)
  then have "hd (group_of key (refs_from nfc i ps) x) \<in> set (group_of key (refs_from nfc i ps) x)" by simp
  then have "hd (group_of key (refs_from nfc i ps) x) \<in> set (refs_from nfc i ps)"
    "key (hd (group_of key (refs_from nfc i ps) x)) = x"
    unfolding group_of_def by simp_all
  then show ?thesis using refs_from_mem assms(1) by metis
qed

text \<open>The conditions on the selected pins.\<close>

definition selectable :: "(string \<Rightarrow> int option) \<Rightarrow> packet_input \<Rightarrow> pending_pin list \<Rightarrow> bool" where
  "selectable dp input sel =
     (set sel \<subseteq> set (offered_pins dp (pi_anchor input) (pi_categories input) (pi_sources input) (pi_signals input)) \<and>
      (\<forall>p \<in> set sel. consented (candidate_of p)) \<and> distinct (map pin_id sel) \<and> same_signals sel \<and>
      card (feedback_ids sel) \<le> max_feedback_records)"

lemma selectable_pin:
  assumes "selectable dp input sel" and "p \<in> set sel"
  shows "pin_source p = si_source_id (pp_signal p)" "so_source_id (pp_source p) = si_source_id (pp_signal p)"
    "\<not> expired_at dp (pi_anchor input) (pp_signal p)"
    "si_category (pp_signal p) \<in> set (pi_categories input)" "is_m5_supported_use (pp_use p)" "si_freshness (pp_signal p) = ''fresh''"
    "\<And>q. q \<in> set sel \<Longrightarrow> pin_source q = pin_source p \<Longrightarrow> pp_source q = pp_source p"
    "\<And>q. q \<in> set sel \<Longrightarrow> si_signal_id (pp_signal q) = si_signal_id (pp_signal p) \<Longrightarrow> pp_signal q = pp_signal p"
proof -
  let ?offered = "offered_pins dp (pi_anchor input) (pi_categories input) (pi_sources input) (pi_signals input)"
  have member: "q \<in> set ?offered" if "q \<in> set sel" for q using assms(1) that by (auto simp: selectable_def)
  note p = offered_pin [OF member [OF assms(2)]]
  show "pin_source p = si_source_id (pp_signal p)" "so_source_id (pp_source p) = si_source_id (pp_signal p)"
    using p(4) by (simp_all add: pin_source_def)
  show "\<not> expired_at dp (pi_anchor input) (pp_signal p)" "si_category (pp_signal p) \<in> set (pi_categories input)"
    by (rule p(5), rule p(6))
  show "is_m5_supported_use (pp_use p)" using p(7) by (simp add: set_signal_uses)
  show "si_freshness (pp_signal p) = ''fresh''" using assms by (auto simp: selectable_def consented_def candidate_of_def)
  show "pp_source q = pp_source p" if "q \<in> set sel" "pin_source q = pin_source p" for q
    using offered_source [OF member [OF assms(2)]] offered_source [OF member [OF that(1)]] that(2)
      offered_pin(4) [OF member [OF that(1)]] p(4) by (simp add: pin_source_def)
  show "pp_signal q = pp_signal p" if "q \<in> set sel" "si_signal_id (pp_signal q) = si_signal_id (pp_signal p)" for q
    using assms that unfolding selectable_def same_signals_def by blast
qed

lemma frozen_signal_fields:
  assumes "selectable dp input sel" and "p \<in> set sel" and "refs = refs_from nfc 0 sel"
    and "s = frozen_signal refs (si_signal_id (pp_signal p))"
  shows "si_signal_id s = si_signal_id (pp_signal p)" "si_source_id s = pin_source p" "si_category s = si_category (pp_signal p)"
    "si_lane s = si_lane (pp_signal p)" "si_hash s = si_hash (pp_signal p)" "si_freshness s = ''fresh''"
    "si_observed_at s = si_observed_at (pp_signal p)" "si_expires_at s = si_expires_at (pp_signal p)"
    "si_content s = to_snapshot nfc (si_content (pp_signal p))"
    "si_allowed_uses s = uniq (map pp_use (filter (\<lambda>q. si_signal_id (pp_signal q) = si_signal_id (pp_signal p)) sel))"
proof -
  have key: "\<And>i p. xp_signal_id (context_pin_of nfc i p) = si_signal_id (pp_signal p)" "\<And>i p. xp_use (context_pin_of nfc i p) = pp_use p"
    by (simp_all add: context_pin_of_def)
  obtain q j where q: "q \<in> set sel" "si_signal_id (pp_signal q) = si_signal_id (pp_signal p)"
    "hd (group_of xp_signal_id refs (si_signal_id (pp_signal p))) = context_pin_of nfc j q"
    using group_head [of xp_signal_id nfc "\<lambda>p. si_signal_id (pp_signal p)", OF key(1)] assms(2) unfolding assms(3) by blast
  have "pp_signal q = pp_signal p" by (rule selectable_pin(8) [OF assms(1,2) q(1,2)])
  moreover have "map xp_use (group_of xp_signal_id refs (si_signal_id (pp_signal p))) =
      map pp_use (filter (\<lambda>q. si_signal_id (pp_signal q) = si_signal_id (pp_signal p)) sel)"
    unfolding assms(3) by (rule group_refs [of xp_signal_id nfc "\<lambda>p. si_signal_id (pp_signal p)" xp_use pp_use, OF key])
  ultimately show "si_signal_id s = si_signal_id (pp_signal p)" "si_source_id s = pin_source p" "si_category s = si_category (pp_signal p)"
    "si_lane s = si_lane (pp_signal p)" "si_hash s = si_hash (pp_signal p)" "si_freshness s = ''fresh''"
    "si_observed_at s = si_observed_at (pp_signal p)" "si_expires_at s = si_expires_at (pp_signal p)"
    "si_content s = to_snapshot nfc (si_content (pp_signal p))"
    "si_allowed_uses s = uniq (map pp_use (filter (\<lambda>q. si_signal_id (pp_signal q) = si_signal_id (pp_signal p)) sel))"
    using q(3) selectable_pin(1) [OF assms(1,2)]
    by (simp_all add: assms(4) frozen_signal_def Let_def context_pin_of_def)
qed

lemma frozen_source_fields:
  assumes "selectable dp input sel" and "p \<in> set sel" and "refs = refs_from nfc 0 sel" and "s = frozen_source refs (pin_source p)"
  shows "so_source_id s = pin_source p" "source_rejection s = None" "so_consent_id s = so_consent_id (pp_source p)"
    "so_consent_version s = so_consent_version (pp_source p)"
    "so_consent_uses s = uniq (map pp_use (filter (\<lambda>q. pin_source q = pin_source p) sel))"
proof -
  have own: "si_source_id (pp_signal q) = pin_source q" if "q \<in> set sel" for q using selectable_pin(1) [OF assms(1) that] by simp
  have key: "\<And>i p. xp_source_id (context_pin_of nfc i p) = si_source_id (pp_signal p)" "\<And>i p. xp_use (context_pin_of nfc i p) = pp_use p"
    by (simp_all add: context_pin_of_def)
  have "pin_source p \<in> (\<lambda>p. si_source_id (pp_signal p)) ` set sel" using assms(2) own by force
  then obtain q j where q: "q \<in> set sel" "si_source_id (pp_signal q) = pin_source p"
    "hd (group_of xp_source_id refs (pin_source p)) = context_pin_of nfc j q"
    using group_head [of xp_source_id nfc "\<lambda>p. si_source_id (pp_signal p)", OF key(1)] unfolding assms(3) by blast
  have source: "pp_source q = pp_source p" using selectable_pin(7) [OF assms(1,2) q(1)] own [OF q(1)] q(2) by simp
  have "map xp_use (group_of xp_source_id refs (pin_source p)) = map pp_use (filter (\<lambda>q. si_source_id (pp_signal q) = pin_source p) sel)"
    unfolding assms(3) by (rule group_refs [of xp_source_id nfc "\<lambda>p. si_source_id (pp_signal p)" xp_use pp_use, OF key])
  also have "filter (\<lambda>q. si_source_id (pp_signal q) = pin_source p) sel = filter (\<lambda>q. pin_source q = pin_source p) sel"
    using own by (auto intro: filter_cong)
  finally have uses: "map xp_use (group_of xp_source_id refs (pin_source p)) = map pp_use (filter (\<lambda>q. pin_source q = pin_source p) sel)" .
  show "so_source_id s = pin_source p" "so_consent_id s = so_consent_id (pp_source p)"
    "so_consent_version s = so_consent_version (pp_source p)"
    "so_consent_uses s = uniq (map pp_use (filter (\<lambda>q. pin_source q = pin_source p) sel))"
    using q(2,3) source uses by (simp_all add: assms(4) frozen_source_def Let_def context_pin_of_def)
  show "source_rejection s = None" by (simp add: assms(4) frozen_source_def Let_def source_rejection_def same_use_set_def)
qed

lemma freeze_keeps_place:
  assumes "selectable dp input sel" and "p \<in> set sel" and "refs = refs_from nfc 0 sel"
  shows "keeps_place (freeze refs) p"
  using frozen_signal_fields [OF assms(1,2,3) refl] frozen_source_fields [OF assms(1,2,3) refl]
  by (simp add: keeps_place_def freeze_def pin_id_def pin_source_def)

text \<open>The frozen sources and signals offer exactly the frozen pins.\<close>

lemma frozen_offer:
  assumes sel: "selectable dp input sel" and refs: "refs = refs_from nfc 0 sel" and ctx: "frozen_context refs = (sources, signals)"
  shows "distinct (map si_signal_id signals)"
    and "mset (offered_pins dp (pi_anchor input) (pi_categories input) sources signals) = mset (map (freeze refs) sel)"
proof -
  have keys: "map xp_source_id refs = map pin_source sel" "map xp_signal_id refs = map (\<lambda>p. si_signal_id (pp_signal p)) sel"
    using selectable_pin(1) [OF sel] unfolding refs
    by (subst refs_from_map [of _ nfc "\<lambda>p. si_source_id (pp_signal p)"] refs_from_map [of _ nfc "\<lambda>p. si_signal_id (pp_signal p)"];
        simp add: context_pin_of_def)+
  have shape: "sources = map (frozen_source refs) (uniq (map pin_source sel))"
    "signals = map (frozen_signal refs) (uniq (map (\<lambda>p. si_signal_id (pp_signal p)) sel))"
    using ctx by (auto simp: frozen_context_def keys)
  note signal = frozen_signal_fields [OF sel _ refs refl]
  note source = frozen_source_fields [OF sel _ refs refl]
  have "map si_signal_id signals = uniq (map (\<lambda>p. si_signal_id (pp_signal p)) sel)"
    unfolding shape map_map by (rule map_idI) (auto simp: signal)
  then show distinct_signals: "distinct (map si_signal_id signals)" by simp
  have "map so_source_id sources = uniq (map pin_source sel)"
    unfolding shape map_map by (rule map_idI) (auto simp: source)
  then have distinct_sources: "distinct (map so_source_id sources)" by simp
  have admitted: "set (admitted_sources sources) = set sources" "distinct (map so_source_id (admitted_sources sources))"
    using distinct_sources by (auto simp: admitted_sources_def shape source distinct_map_filter)
  have lookup: "index_by so_source_id (admitted_sources sources) (pin_source p) = Some (frozen_source refs (pin_source p))"
    if p: "p \<in> set sel" for p
    using index_by_distinct [OF admitted(2), of "frozen_source refs (pin_source p)"] p by (simp add: admitted(1) source) (simp add: shape)
  have uses: "set (signal_uses (frozen_signal refs (si_signal_id (pp_signal p))) (frozen_source refs (pin_source p))) =
      pp_use ` {q \<in> set sel. si_signal_id (pp_signal q) = si_signal_id (pp_signal p)}" if p: "p \<in> set sel" for p
  proof -
    have "pin_source q = pin_source p" if "q \<in> set sel" "si_signal_id (pp_signal q) = si_signal_id (pp_signal p)" for q
      using selectable_pin(8) [OF sel p that] selectable_pin(1) [OF sel p] selectable_pin(1) [OF sel that(1)] by simp
    then show ?thesis using selectable_pin(5) [OF sel] by (auto simp: set_signal_uses signal [OF p] source [OF p])
  qed
  let ?offer = "offered_pins dp (pi_anchor input) (pi_categories input) sources signals"
  have offer: "q \<in> set ?offer \<longleftrightarrow> pp_signal q \<in> set signals \<and> \<not> expired_at dp (pi_anchor input) (pp_signal q) \<and>
      si_category (pp_signal q) \<in> set (pi_categories input) \<and>
      index_by so_source_id (admitted_sources sources) (si_source_id (pp_signal q)) = Some (pp_source q) \<and>
      pp_use q \<in> set (signal_uses (pp_signal q) (pp_source q))" for q
    by (auto simp: offered_pins_def pins_of_signal_mem admitted_sources_def)
  have valid: "\<not> expired_at dp (pi_anchor input) (frozen_signal refs (si_signal_id (pp_signal p)))" if "p \<in> set sel" for p
    using selectable_pin(3) [OF sel that] by (simp add: expired_at_def signal [OF that])
  have "set ?offer = set (map (freeze refs) sel)"
  proof (intro set_eqI iffI)
    fix q assume "q \<in> set ?offer"
    note q = this [unfolded offer]
    then obtain p where p: "p \<in> set sel" "pp_signal q = frozen_signal refs (si_signal_id (pp_signal p))" by (auto simp: shape)
    then have from_source: "pp_source q = frozen_source refs (pin_source p)" using q lookup [OF p(1)] by (simp add: signal [OF p(1)])
    then obtain r where r: "r \<in> set sel" "si_signal_id (pp_signal r) = si_signal_id (pp_signal p)" "pp_use q = pp_use r"
      using q uses [OF p(1)] p(2) by auto
    have "pin_source r = pin_source p"
      using selectable_pin(8) [OF sel p(1) r(1,2)] selectable_pin(1) [OF sel p(1)] selectable_pin(1) [OF sel r(1)] by simp
    then have "q = freeze refs r" using p(2) from_source r by (simp add: freeze_def)
    then show "q \<in> set (map (freeze refs) sel)" using r(1) by simp
  next
    fix q assume "q \<in> set (map (freeze refs) sel)"
    then obtain p where p: "p \<in> set sel" "q = freeze refs p" by auto
    have "frozen_signal refs (si_signal_id (pp_signal p)) \<in> set signals" using p(1) by (auto simp: shape)
    then show "q \<in> set ?offer"
      using p(1) valid [OF p(1)] lookup [OF p(1)] uses [OF p(1)] selectable_pin(4) [OF sel p(1)]
      unfolding offer p(2) by (auto simp: freeze_def signal [OF p(1)])
  qed
  moreover have "distinct ?offer"
    using distinct_pin_ids [of "js_sort compare_signals signals"] distinct_signals unfolding offered_pins_def by (auto simp: distinct_map)
  moreover have "map pin_id (map (freeze refs) sel) = map pin_id sel"
    using freeze_keeps_place [OF sel _ refs] by (simp add: keeps_place_def)
  then have "distinct (map (freeze refs) sel)" using sel unfolding selectable_def by (metis distinct_map)
  ultimately show "mset ?offer = mset (map (freeze refs) sel)" using set_eq_iff_mset_eq_distinct by metis
qed

lemma image_of_filter: "g ` {q \<in> f ` A. P q} = (\<lambda>p. g (f p)) ` {p \<in> A. P (f p)}"
  by blast

lemma frozen_order:
  assumes sel: "selectable dp input sel" and refs: "refs = refs_from nfc 0 sel" and ordered: "order_pins sel = sel"
    and frozen: "frozen_context refs = (pi_sources frozen, pi_signals frozen)" "pi_anchor frozen = pi_anchor input"
      "pi_categories frozen = pi_categories input"
  shows "fst (ordered_pins dp frozen) = map (freeze refs) sel"
proof -
  let ?offer = "offered_pins dp (pi_anchor input) (pi_categories input) (pi_sources frozen) (pi_signals frozen)"
  note offer = frozen_offer [OF sel refs frozen(1)]
  have members: "set ?offer = freeze refs ` set sel" using arg_cong [OF offer(2), of set_mset] by simp
  have place: "keeps_place (freeze refs) p" if "p \<in> set sel" for p using freeze_keeps_place [OF sel that refs] .
  have fields: "si_source_id (pp_signal (freeze refs p)) = si_source_id (pp_signal p)" "si_freshness (pp_signal (freeze refs p)) = ''fresh''"
    "pp_use (freeze refs p) = pp_use p" "is_feedback (freeze refs p) = is_feedback p"
    "si_signal_id (pp_signal (freeze refs p)) = si_signal_id (pp_signal p)" if p: "p \<in> set sel" for p
    using frozen_signal_fields [OF sel p refs refl] selectable_pin(1) [OF sel p] by (simp_all add: freeze_def is_feedback_def)
  have "consented (candidate_of (freeze refs p))" if p: "p \<in> set sel" for p
  proof -
    have "consented (candidate_of p)" using sel p by (auto simp: selectable_def)
    then show ?thesis using fields [OF p] by (simp add: consented_def candidate_of_def)
  qed
  then have "filter (\<lambda>q. consented (candidate_of q)) ?offer = ?offer"
    unfolding filter_id_conv members by blast
  then have expanded: "fst (expand_context dp (pi_anchor frozen) (pi_categories frozen) (pi_sources frozen) (pi_signals frozen)) = ?offer"
    unfolding frozen(2,3) expand_context_pins [OF offer(1)] .
  have "feedback_ids ?offer = feedback_ids sel"
  proof -
    have "feedback_ids ?offer = (\<lambda>p. si_signal_id (pp_signal (freeze refs p))) ` {p \<in> set sel. is_feedback (freeze refs p)}"
      unfolding feedback_ids_def members by (rule image_of_filter)
    also have "\<dots> = feedback_ids sel"
      unfolding feedback_ids_def using fields(4,5) by (intro image_cong) auto
    finally show ?thesis .
  qed
  then have "length (feedback_signals ?offer) \<le> max_feedback_records"
    using sel by (simp add: feedback_signals_length selectable_def)
  then have "fst (cap_feedback ?offer) = ?offer" by (simp add: cap_feedback_def Let_def)
  then have "fst (ordered_pins dp frozen) = order_pins ?offer" by (simp add: ordered_pins_fst expanded)
  also have "\<dots> = order_pins (map (freeze refs) sel)"
  proof (rule order_pins_mset [OF offer(2)])
    have "map pin_id (map (freeze refs) sel) = map pin_id sel" using place by (simp add: keeps_place_def)
    then show "distinct (map pin_id (map (freeze refs) sel))" using sel unfolding selectable_def by metis
  qed
  also have "\<dots> = map (freeze refs) sel" using order_pins_map [of sel "freeze refs", OF place] ordered by simp
  finally show ?thesis .
qed

lemma snapshot_idempotent: "prefix_closed nfc \<Longrightarrow> to_snapshot nfc (to_snapshot nfc c) = to_snapshot nfc c"
  by (cases c) (simp_all add: to_snapshot_def normalize_excerpt_idempotent)

lemma frozen_ref:
  assumes "selectable dp input sel" and "p \<in> set sel" and "refs = refs_from nfc 0 sel" and "prefix_closed nfc"
  shows "context_pin_of nfc i (freeze refs p) = context_pin_of nfc i p"
  using frozen_signal_fields [OF assms(1,2,3) refl] frozen_source_fields [OF assms(1,2,3) refl] selectable_pin(1) [OF assms(1,2)]
  by (simp add: context_pin_of_def freeze_def snapshot_idempotent assms(4))

lemma frozen_context_step:
  assumes "selectable dp input sel" and "p \<in> set sel" and "refs = refs_from nfc 0 sel" and "prefix_closed nfc"
  shows "context_step nfc version limit (freeze refs p) b = context_step nfc version limit p b"
proof -
  have same: "si_signal_id (pp_signal (freeze refs p)) = si_signal_id (pp_signal p)" "pp_use (freeze refs p) = pp_use p"
    using frozen_signal_fields(1) [OF assms(1,2,3) refl] by (simp_all add: freeze_def)
  show ?thesis unfolding context_step_def frozen_ref [OF assms] same by (rule refl)
qed

lemma frozen_add_context:
  assumes "selectable dp input sel" and "refs = refs_from nfc 0 sel" and "prefix_closed nfc"
  shows "set ps \<subseteq> set sel \<Longrightarrow> add_context nfc version limit (map (freeze refs) ps) b = add_context nfc version limit ps b"
proof (induction ps arbitrary: b)
  case (Cons p ps)
  have "add_context nfc version limit (map (freeze refs) ps) = add_context nfc version limit ps"
    using Cons by (intro ext) simp
  then show ?case using Cons.prems frozen_context_step [OF assms(1) _ assms(2,3), of p] by simp
qed simp

section \<open>The prior readings\<close>

interpretation newest: total_comparator newest_first
  by unfold_locales (auto simp: newest_first_def cmp_asc_def split: if_splits)

lemma insert_last:
  "(\<And>y. y \<in> set ys \<Longrightarrow> \<not> cmp x y < 0) \<Longrightarrow> js_insert cmp x ys = ys @ [x]"
  by (induction ys) auto

lemma sorted_newest: "newest.in_order xs \<Longrightarrow> js_sort newest_first xs = xs"
proof (induction xs rule: rev_induct)
  case (snoc x xs)
  have "js_sort newest_first (xs @ [x]) = js_insert newest_first x (js_sort newest_first xs)" by (simp add: js_sort_def)
  also have "\<dots> = xs @ [x]"
    using snoc newest.not_less by (simp add: sorted_wrt_append insert_last)
  finally show ?case .
qed (simp add: js_sort_def)

lemma map_throw_id: "(\<And>x. x \<in> set xs \<Longrightarrow> f (g x) = Inr x) \<Longrightarrow> map_throw f (map g xs) = Inr xs"
  by (induction xs) auto

lemma prefix_take:
  assumes "a @ r = take m xs"
  shows "a = take (length a) xs \<and> length a \<le> m"
proof -
  have "length (a @ r) \<le> m" by (simp only: assms length_take min.cobounded2)
  then have small: "length a \<le> m" by simp
  have "a = take (length a) (a @ r)" by simp
  also have "\<dots> = take (length a) xs" unfolding assms take_take using small by (simp only: min.absorb1)
  finally show ?thesis using small by blast
qed

lemma recent_readings_again:
  assumes "recent_readings dp today readings = Inr (sel @ rest)"
  shows "recent_readings dp today (map fst sel) = Inr sel"
proof -
  let ?date = "\<lambda>p. and_then (days_between dp (pr_local_date p) today) (\<lambda>n. Inr (p, n))"
  let ?near = "\<lambda>(p, n). 1 \<le> n \<and> n \<le> int max_prior_readings"
  obtain dated where dated: "map_throw ?date (js_sort newest_first readings) = Inr dated"
    "sel @ rest = take max_prior_readings (filter ?near dated)"
    using assms by (auto simp: recent_readings_def and_then_Inr)
  have images: "map ?date (js_sort newest_first readings) = map Inr dated" using dated(1) by (simp add: map_throw_Inr)
  have each: "?date (fst d) = Inr d" if "d \<in> set dated" for d
  proof -
    have "Inr d \<in> set (map ?date (js_sort newest_first readings))" using that unfolding images by simp
    then obtain x where "Inr d = ?date x" unfolding set_map by (rule imageE)
    from this [symmetric] show ?thesis by (auto simp: and_then_Inr)
  qed
  have "map fst dated = js_sort newest_first readings"
    by (rule scored_pairs [OF dated(1)])
  then have ordered: "newest.in_order (map fst dated)" by (simp add: newest.in_order_sort)
  note part = prefix_take [OF dated(2), THEN conjunct1] prefix_take [OF dated(2), THEN conjunct2]
  have "newest.in_order (map fst (filter ?near dated))"
    using ordered by (simp add: sorted_wrt_map sorted_wrt_filter)
  then have "newest.in_order (map fst sel)" by (subst part(1)) (simp add: sorted_wrt_take flip: take_map)
  then have sorted: "js_sort newest_first (map fst sel) = map fst sel" by (rule sorted_newest)
  have members: "set sel \<subseteq> set (filter ?near dated)" by (subst part(1)) (rule set_take_subset)
  have "map_throw ?date (map fst sel) = Inr sel"
    by (rule map_throw_id) (use members each in auto)
  moreover have "filter ?near sel = sel" using members by (auto simp: filter_id_conv)
  ultimately show ?thesis using part(2) by (simp add: recent_readings_def sorted)
qed

lemma add_priors_initial:
  assumes "add_priors nfc limit ds b = Inr b'"
  shows "\<exists>sel rest b''. ds = sel @ rest \<and> bg_selected b' = bg_selected b @ map fst sel \<and>
    add_priors nfc limit sel b = Inr b'' \<and> same_budget b'' b'"
  using assms
proof (induction ds arbitrary: b)
  case Nil
  then show ?case by (auto simp: same_budget_def)
next
  case (Cons d ds)
  let ?request = "(bg_request b)\<lparr>rq_prior := rq_prior (bg_request b) @ [excerpt_of nfc d]\<rparr>"
  obtain n where n: "packet_bytes ?request = Inr n" using Cons.prems by (auto simp: Let_def and_then_Inr)
  show ?case
  proof (cases "n > limit")
    case True
    then have "same_budget b b'" using Cons.prems n by (auto simp: Let_def same_budget_def)
    then show ?thesis by (intro exI [of _ "[]"] exI [of _ "d # ds"]) (auto simp: same_budget_def)
  next
    case False
    let ?next = "b\<lparr>bg_request := ?request, bg_bytes := n, bg_selected := bg_selected b @ [fst d]\<rparr>"
    have "add_priors nfc limit ds ?next = Inr b'" using Cons.prems n False by (simp add: Let_def)
    from Cons.IH [OF this] obtain sel rest b'' where IH: "ds = sel @ rest" "bg_selected b' = bg_selected ?next @ map fst sel"
      "add_priors nfc limit sel ?next = Inr b''" "same_budget b'' b'" by blast
    have "add_priors nfc limit (d # sel) b = Inr b''" using IH(3) n False by (simp add: Let_def)
    then show ?thesis using IH by (intro exI [of _ "d # sel"] exI [of _ rest]) auto
  qed
qed

section \<open>The rebuilt packet\<close>

lemma selected_pins:
  assumes "distinct (map si_signal_id (pi_signals input))" and "fst (ordered_pins dp input) = sel @ rest"
  shows "selectable dp input sel" "order_pins sel = sel"
proof -
  note kept = kept_pins_ids [OF assms(1), of dp]
  have order: "order_pins (kept_pins dp input) = sel @ rest" using assms(2) by (simp add: ordered_kept)
  show "order_pins sel = sel" by (rule order_pins_initial [OF kept order])
  have part: "set sel \<subseteq> set (kept_pins dp input)" using arg_cong [OF order, of set] by auto
  have "mset (map pin_id (sel @ rest)) = mset (map pin_id (kept_pins dp input))" by (simp flip: order)
  then have "distinct (map pin_id (sel @ rest))" using kept(1) by (metis mset_eq_imp_distinct_iff)
  then have ids: "distinct (map pin_id sel)" by simp
  have "feedback_ids sel \<subseteq> feedback_ids (kept_pins dp input)" using part by (auto simp: feedback_ids_def)
  then have "card (feedback_ids sel) \<le> card (feedback_ids (kept_pins dp input))"
    by (intro card_mono) (simp_all add: feedback_ids_def)
  also have "\<dots> \<le> max_feedback_records" unfolding kept_pins_def by (rule cap_feedback_count)
  finally have cap: "card (feedback_ids sel) \<le> max_feedback_records" .
  have "same_signals sel" using kept(2) part unfolding same_signals_def by blast
  moreover have "p \<in> set (fst (ordered_pins dp input))" if "p \<in> set sel" for p using that assms(2) by simp
  ultimately show "selectable dp input sel"
    using ordered_pin [OF assms(1)] ids cap unfolding selectable_def by blast
qed

lemma frozen_priors:
  assumes "select_priors dp nfc input request n = Inr priors"
    and frozen: "pi_categories frozen = pi_categories input" "pi_local_date frozen = pi_local_date input"
      "pi_max_bytes frozen = pi_max_bytes input" "pi_prior frozen = bg_selected priors"
  shows "\<exists>again. select_priors dp nfc frozen request n = Inr again \<and> same_budget again priors"
  using assms(1)
proof (cases rule: select_priors_Inr)
  case (granted ds)
  from add_priors_initial [OF granted(3)] obtain sel rest again where again: "ds = sel @ rest" "bg_selected priors = map fst sel"
    "add_priors nfc (pi_max_bytes input) sel
       \<lparr>bg_request = request, bg_bytes = n, bg_selected = [], bg_exhausted = False, bg_rejections = []\<rparr> = Inr again"
    "same_budget again priors" by auto
  have "recent_readings dp (pi_local_date input) (map fst sel) = Inr sel"
    using granted(2) unfolding again(1) by (rule recent_readings_again)
  then have "select_priors dp nfc frozen request n = Inr again"
    using granted(1) again(3) by (simp add: select_priors_def Let_def frozen again(2))
  then show ?thesis using again(4) by blast
next
  case (refused r)
  then show ?thesis by (simp add: select_priors_def Let_def frozen same_budget_def)
qed

lemma same_fresh_budget: "same_budget b c \<Longrightarrow> fresh_budget b = fresh_budget c"
  by (simp add: same_budget_def fresh_budget_def)

lemma selected_id_set: "selected_id p i \<longleftrightarrow> i \<in> cf_id ` set (pd_facts p)"
  by (auto simp: selected_id_def list_ex_iff)

lemma frozen_input_Some:
  assumes "distinct_facts input" and "frozen_context (pd_context p) = (sources, signals)"
  shows "frozen_input derive input (command_pins derive input p) = Some (input
    \<lparr>pi_cycles := filter (\<lambda>c. cy_id c \<in> cf_id ` set (pd_facts p)) (pi_cycles input),
     pi_sky_facts := filter (\<lambda>s. sk_id s \<in> cf_id ` set (pd_facts p)) (pi_sky_facts input),
     pi_sources := sources, pi_signals := signals, pi_prior := pd_prior p\<rparr>)"
proof -
  have ids: "distinct (map cy_id (pi_cycles input))" "distinct (map sk_id (pi_sky_facts input))"
    using assms(1) by (simp_all add: distinct_facts_def)
  show ?thesis
    unfolding frozen_input_def command_pins_def reading_pins.simps select_cycles_filter [OF ids(1), of derive "\<lambda>i. i \<in> cf_id ` set (pd_facts p)"] select_sky_filter [OF ids(2)]
      option.case assms(2) prod.case selected_id_set by (rule refl)
qed

text \<open>
  C5: an execution that selects the pinned cycles and daily-sky facts from the same
  calculated responses and takes the context and the prior readings from the command prepares the packet that was
  frozen: the same request, selection, length, identity text and manifest, whatever was left out of the command.
\<close>

theorem execution_rebuilds_the_packet:
  assumes prepared: "prepare_constrained_reading_input dp nfc input = Inr p" and facts: "distinct_facts input"
    and signals: "distinct (map si_signal_id (pi_signals input))" and nfc: "prefix_closed nfc"
  shows "\<exists>frozen others. frozen_input derive input (command_pins derive input p) = Some frozen \<and>
    prepare_constrained_reading_input dp nfc frozen = Inr (p\<lparr>pd_rejections := others\<rparr>)"
proof -
  obtain u rejections n priors b where run: "checked_uncertainty input = Inr u" "packet_facts dp input u = Inr (pd_facts p, rejections)"
    "packet_bytes (initial_request input u (pd_facts p)) = Inr n" "n \<le> pi_max_bytes input"
    "select_priors dp nfc input (initial_request input u (pd_facts p)) n = Inr priors"
    "add_context nfc (pi_selection_version input) (pi_max_bytes input) (fst (ordered_pins dp input)) (fresh_budget priors) = Inr b"
    "identity_canonical input u (pd_facts p) (bg_selected b) (bg_request b) = Inr (pd_identity p)"
    "manifest_canonical input u (pd_facts p) (bg_selected b) (bg_request b) (bg_bytes b) = Inr (pd_manifest p)"
    "pd_context p = bg_selected b" "pd_prior p = bg_selected priors" "pd_request p = bg_request b" "pd_bytes p = bg_bytes b"
    "pd_window p = (dw_start_at (pi_day input), dw_end_at (pi_day input))"
    using prepared_stages [OF prepared] by metis
  from add_context_initial [OF run(6)] obtain sel rest again where sel: "fst (ordered_pins dp input) = sel @ rest"
    "bg_selected b = refs_from nfc 0 sel"
    "add_context nfc (pi_selection_version input) (pi_max_bytes input) sel (fresh_budget priors) = Inr again" "same_budget again b"
    by (auto simp: fresh_budget_def)
  obtain sources signals where frozen_ctx: "frozen_context (pd_context p) = (sources, signals)" by (cases "frozen_context (pd_context p)")
  define frozen where "frozen = input
    \<lparr>pi_cycles := filter (\<lambda>c. cy_id c \<in> cf_id ` set (pd_facts p)) (pi_cycles input),
     pi_sky_facts := filter (\<lambda>s. sk_id s \<in> cf_id ` set (pd_facts p)) (pi_sky_facts input),
     pi_sources := sources, pi_signals := signals, pi_prior := pd_prior p\<rparr>"
  have fields: "pi_sources frozen = sources" "pi_signals frozen = signals" "pi_prior frozen = bg_selected priors"
    "pi_anchor frozen = pi_anchor input" "pi_categories frozen = pi_categories input" "pi_max_bytes frozen = pi_max_bytes input"
    "pi_local_date frozen = pi_local_date input" "pi_selection_version frozen = pi_selection_version input" "pi_day frozen = pi_day input"
    by (simp_all add: frozen_def run(10))
  have "\<exists>others. packet_facts dp frozen u = Inr (pd_facts p, others)"
    by (rule packet_facts_frozen [OF run(2) facts refl refl]) (simp_all add: frozen_def)
  then obtain fact_others where frozen_facts: "packet_facts dp frozen u = Inr (pd_facts p, fact_others)" by blast
  obtain priors' where priors': "select_priors dp nfc frozen (initial_request input u (pd_facts p)) n = Inr priors'"
    "same_budget priors' priors"
    using frozen_priors [OF run(5) fields(5,7,6,3)] by blast
  note selected = selected_pins [OF signals sel(1)]
  have "fst (ordered_pins dp frozen) = map (freeze (pd_context p)) sel"
    by (rule frozen_order [OF selected(1) _ selected(2)]) (simp_all add: frozen_ctx [unfolded run(9) sel(2)] fields run(9) sel(2))
  then have frozen_run: "add_context nfc (pi_selection_version frozen) (pi_max_bytes frozen) (fst (ordered_pins dp frozen))
      (fresh_budget priors') = Inr again"
    using sel(3) frozen_add_context [OF selected(1) _ nfc subset_refl, of "pd_context p"]
    by (simp add: fields same_fresh_budget [OF priors'(2)] run(9) sel(2))
  have kept: "pi_schema_version frozen = pi_schema_version input" "pi_prompt_version frozen = pi_prompt_version input"
    "pi_output_schema frozen = pi_output_schema input" "pi_selection_version frozen = pi_selection_version input"
    "pi_validation_version frozen = pi_validation_version input" "pi_max_bytes frozen = pi_max_bytes input"
    "pi_local_date frozen = pi_local_date input" "pi_timezone frozen = pi_timezone input" "pi_locale frozen = pi_locale input"
    "pi_anchor frozen = pi_anchor input" "pi_revision frozen = pi_revision input" "pi_domain frozen = pi_domain input"
    "pi_categories frozen = pi_categories input" "pi_day frozen = pi_day input" "pi_chart frozen = pi_chart input"
    "pi_cycle_scan frozen = pi_cycle_scan input" "pi_daily_sky frozen = pi_daily_sky input"
    by (simp_all add: frozen_def)
  have texts: "checked_uncertainty frozen = checked_uncertainty input" "initial_request frozen = initial_request input"
    "identity_canonical frozen = identity_canonical input" "manifest_canonical frozen = manifest_canonical input"
    unfolding fun_eq_iff checked_uncertainty_def supported_policy_def initial_request_def identity_canonical_def
      manifest_canonical_def common_members_def kept by simp_all
  let ?others = "fact_others @ bg_rejections priors' @ snd (ordered_pins dp frozen) @ bg_rejections again"
  have "finish_packet dp nfc frozen u (pd_facts p) fact_others = Inr (p\<lparr>pd_rejections := ?others\<rparr>)"
    unfolding finish_Inr texts fields(6,9)
    by (intro exI [of _ n] exI [of _ priors'] exI [of _ again] exI [of _ "pd_identity p"] exI [of _ "pd_manifest p"] conjI)
      (use run priors' frozen_run sel(4) in \<open>simp_all add: fields same_budget_def\<close>)
  then have "prepare_constrained_reading_input dp nfc frozen = Inr (p\<lparr>pd_rejections := ?others\<rparr>)"
    unfolding prepare_Inr texts using run(1) frozen_facts by blast
  then show ?thesis using frozen_input_Some [OF facts frozen_ctx] unfolding frozen_def by blast
qed

end
