(* ===== verification/Packet_Room.thy ===== *)
theory Packet_Room
  imports Packet_Replay
begin

text \<open>
  When a packet is prepared: the JSON the encoder accepts, a bound on the length of its text, and the theorem that an
  accepted input whose full request fits keeps every fact, every recent reading and every admissible context item.
\<close>

section \<open>Numbers without an exponent\<close>

lemma strip_zeros_digits:
  "n < 10 ^ k \<Longrightarrow> 0 < n \<Longrightarrow> 0 < k \<Longrightarrow> strip_zeros n = (s, z) \<Longrightarrow> length (nat_str s) + z \<le> k"
proof -
  assume n: "n < 10 ^ k" "0 < n" "0 < k" and sz: "strip_zeros n = (s, z)"
  have v: "n = s * 10 ^ z" by (rule strip_zeros_value [OF sz])
  have "z < k"
  proof (rule ccontr)
    assume "\<not> z < k"
    then have "(10::nat) ^ k \<le> 10 ^ z" by (simp add: power_increasing)
    moreover have "1 \<le> s" using v n(2) by (cases s) auto
    ultimately have "10 ^ k \<le> s * 10 ^ z" using mult_le_mono [of 1 s "10 ^ k" "10 ^ z"] by simp
    then show False using n(1) v by simp
  qed
  then have split: "(10::nat) ^ k = 10 ^ (k - z) * 10 ^ z" by (simp flip: power_add)
  then have "s * 10 ^ z < 10 ^ (k - z) * 10 ^ z" using n(1) v by simp
  then have "s < 10 ^ (k - z)" by simp
  from nat_str_length [OF this] show ?thesis using \<open>z < k\<close> by (simp add: nat_str_def)
qed

lemma decimal_places_nat: "decimal_places (of_nat n) = Some 0"
proof -
  have "snd (quotient_of (of_nat n)) = 1"
    using quotient_of_int [of "int n"] by simp
  then show ?thesis
    unfolding decimal_places_def upt_conv_Cons [OF zero_less_numeral] by (simp only: find.simps one_dvd if_True)
qed

lemma plain_nat:
  assumes "n < 10 ^ 21"
  shows "plain_number (of_nat n)" and "length (num_str (of_nat n)) \<le> 21"
proof -
  have "plain_number (of_nat n) \<and> length (num_str (of_nat n)) \<le> 21"
  proof (cases "n = 0")
    case True
    then show ?thesis by (simp add: plain_number_def num_str_def)
  next
    case False
    obtain s z where sz: "strip_zeros n = (s, z)" by fastforce
    have fits: "length (nat_str s) + z \<le> 21" by (rule strip_zeros_digits [OF assms _ _ sz]) (use False in simp_all)
    have "num_str (of_nat n) = place_digits (nat_str s) (int (length (nat_str s)) + int z)"
      using False by (simp add: num_str_def positive_str_def decimal_places_nat sz)
    also have "\<dots> = nat_str s @ replicate z (CHR ''0'')"
      using fits by (simp add: place_digits_def Let_def)
    finally have shown: "num_str (of_nat n) = nat_str s @ replicate z (CHR ''0'')" .
    have "list_all is_digit (nat_str s)" using nat_str_digits by (simp add: nat_str_def)
    then show ?thesis using fits by (auto simp: plain_number_def shown list_all_iff is_digit_def)
  qed
  then show "plain_number (of_nat n)" "length (num_str (of_nat n)) \<le> 21" by simp_all
qed

section \<open>Accepted JSON\<close>

definition paired :: "units \<Rightarrow> bool" where
  "paired s = (\<forall>path. \<exists>r. escape_units path s = Inr r)"

lemma paired_units [simp]: "paired (units s)"
  using escape_units_total by (auto simp: paired_def)

fun json_ok :: "jvalue \<Rightarrow> bool" where
  "json_ok JNullValue = True"
| "json_ok (JBoolean b) = True"
| "json_ok (JText s) = paired s"
| "json_ok (JNumber x) = plain_number x"
| "json_ok (JArray vs) = list_all json_ok vs"
| "json_ok (JObject es) = list_all (\<lambda>e. paired (fst e) \<and> json_ok (snd e)) es"
| "json_ok v = False"

lemma canonical_string_paired: "paired s \<Longrightarrow> \<exists>r. canonical_string s path = Inr r"
proof -
  assume "paired s"
  then obtain r where "escape_units path s = Inr r" unfolding paired_def by blast
  then show ?thesis by (simp add: canonical_string_def)
qed

lemma canonical_members:
  assumes "\<And>k v. (k, v) \<in> set es \<Longrightarrow> paired k \<and> canonical v"
  shows "canonical (JObject es)"
proof -
  have "\<exists>ps. map_throw (member_text path) (js_sort by_key
      (map (\<lambda>(k, v). (k, v = JUndefined, canonicalize v (key_path path k))) es)) = Inr ps" for path
  proof (intro map_throw_total ballI)
    fix x assume "x \<in> set (js_sort by_key (map (\<lambda>(k, v). (k, v = JUndefined, canonicalize v (key_path path k))) es))"
    then obtain k v where m: "(k, v) \<in> set es" and x: "x = (k, v = JUndefined, canonicalize v (key_path path k))" by auto
    obtain s where "canonicalize v (key_path path k) = Inr s" using assms [OF m] unfolding canonical_def by blast
    moreover from this have "v \<noteq> JUndefined" by auto
    moreover obtain r where "canonical_string k path = Inr r" using assms [OF m] canonical_string_paired by blast
    ultimately show "\<exists>y. member_text path x = Inr y" by (simp add: x member_text_def)
  qed
  then show ?thesis by (auto simp: canonical_def and_then_Inr)
qed

lemma json_ok_canonical: "json_ok v \<Longrightarrow> canonical v"
proof (induction v)
  case (JText s)
  then show ?case using canonical_string_paired by (auto simp: canonical_def)
next
  case (JArray vs)
  then show ?case by (intro canonical_array) (auto simp: list_all_iff)
next
  case (JObject es)
  show ?case
    by (rule canonical_members) (use JObject in \<open>force simp: list_all_iff snds.simps\<close>)
qed (auto simp: canonical_def canonical_number_def plain_number_def Let_def)

lemma canonical_text_ok: "json_ok v \<Longrightarrow> \<exists>t. canonical_text v = Inr t"
proof -
  assume "json_ok v"
  then obtain t where "canonicalize v [] = Inr t" using json_ok_canonical unfolding canonical_def by blast
  then show ?thesis by (simp add: canonical_text_def jcs_canonicalize_def)
qed

section \<open>The length of the text\<close>

fun json_bound :: "jvalue \<Rightarrow> nat" where
  "json_bound JNullValue = 4"
| "json_bound (JBoolean b) = 5"
| "json_bound (JText s) = 2 + 6 * length s"
| "json_bound (JNumber x) = length (num_str x)"
| "json_bound (JArray vs) = 2 + (\<Sum>v\<leftarrow>vs. 1 + json_bound v)"
| "json_bound (JObject es) = 2 + (\<Sum>e\<leftarrow>es. 4 + 6 * length (fst e) + json_bound (snd e))"
| "json_bound v = 0"

lemma length_units [simp]: "length (units s) = length s"
  by (simp add: units_def)

lemma length_enc: "length (enc c) \<le> 6"
proof (cases "map_of short_escapes c")
  case None
  show ?thesis
  proof (cases "c < 0x20")
    case True
    then have "unat c < 32" by (simp add: word_less_nat_alt)
    then have "length (hex_str (unat c)) \<le> 4" by (rule hex_two)
    then show ?thesis using True None by (simp add: enc_def control_escape_def pad_start_def)
  next
    case False
    then show ?thesis using None by (simp add: enc_def)
  qed
next
  case (Some e)
  then show ?thesis using map_of_SomeD [OF Some] by (auto simp: enc_def short_escapes_def)
qed

lemma escape_length: "escape_units path s = Inr r \<Longrightarrow> length r \<le> 6 * length s"
proof -
  assume "escape_units path s = Inr r"
  then have "r = concat (map enc s)" by (rule escape_units_enc)
  moreover have "length (concat (map enc s)) \<le> 6 * length s"
    by (induction s) (use length_enc in \<open>auto intro: order.trans [OF add_mono]\<close>)
  ultimately show ?thesis by simp
qed

lemma canonical_string_length: "canonical_string s path = Inr r \<Longrightarrow> length r \<le> 2 + 6 * length s"
  using escape_length by (fastforce simp: canonical_string_def and_then_Inr)

lemma joined_length: "length (joined ps) \<le> (\<Sum>p\<leftarrow>ps. 1 + length p)"
  by (induction ps rule: joined.induct) auto

lemma map_throw_length:
  "map_throw f xs = Inr ys \<Longrightarrow> (\<And>x y. x \<in> set xs \<Longrightarrow> f x = Inr y \<Longrightarrow> length y \<le> g x) \<Longrightarrow>
   (\<Sum>y\<leftarrow>ys. 1 + length y) \<le> (\<Sum>x\<leftarrow>xs. 1 + g x)"
proof (induction xs arbitrary: ys)
  case (Cons x xs)
  then obtain y zs where y: "f x = Inr y" "map_throw f xs = Inr zs" "ys = y # zs" by (auto simp: and_then_Inr)
  have "length y \<le> g x" using Cons.prems(2) y(1) by simp
  moreover have "(\<Sum>y\<leftarrow>zs. 1 + length y) \<le> (\<Sum>x\<leftarrow>xs. 1 + g x)" using Cons.IH [OF y(2)] Cons.prems(2) by simp
  ultimately show ?case using y(3) by simp
qed simp

lemma sum_list_same: "mset xs = mset ys \<Longrightarrow> (\<Sum>x\<leftarrow>xs. f x) = (\<Sum>y\<leftarrow>ys. f y)" for f :: "'a \<Rightarrow> nat"
  by (metis mset_map sum_mset_sum_list)

lemma canonical_length: "canonicalize v path = Inr t \<Longrightarrow> length t \<le> json_bound v"
proof (induction v arbitrary: path t)
  case (JText s)
  then show ?case using canonical_string_length by simp
next
  case (JNumber x)
  then show ?case by (auto simp: canonical_number_def Let_def split: if_splits)
next
  case (JArray vs)
  then obtain parts where parts: "map_throw (\<lambda>r. r) (map (\<lambda>(i, v). canonicalize v (index_path path i)) (enumerate 0 vs)) = Inr parts"
    "t = units ''['' @ joined parts @ units '']''" by (auto simp: and_then_Inr)
  have "map_throw (\<lambda>(i, v). canonicalize v (index_path path i)) (enumerate 0 vs) = Inr parts"
    using parts(1) by (simp add: map_throw_Inr)
  then have "(\<Sum>p\<leftarrow>parts. 1 + length p) \<le> (\<Sum>x\<leftarrow>enumerate 0 vs. 1 + json_bound (snd x))"
    by (rule map_throw_length) (auto intro: JArray.IH [OF nth_mem] simp: in_set_enumerate_eq)
  also have "(\<Sum>x\<leftarrow>enumerate 0 vs. 1 + json_bound (snd x)) = (\<Sum>v\<leftarrow>map snd (enumerate 0 vs). 1 + json_bound v)"
    by (simp add: comp_def del: map_snd_enumerate)
  finally show ?case using joined_length [of parts] parts(2) by simp
next
  case (JObject es)
  let ?ms = "map (\<lambda>(k, v). (k, v = JUndefined, canonicalize v (key_path path k))) es"
  let ?g = "\<lambda>m. 3 + 6 * length (fst m) + (case snd (snd m) of Inl _ \<Rightarrow> 0 | Inr s \<Rightarrow> length s)"
  obtain parts where parts: "map_throw (member_text path) (js_sort by_key ?ms) = Inr parts"
    "t = units ''{'' @ joined parts @ units ''}''" using JObject.prems by (auto simp: and_then_Inr)
  have "(\<Sum>p\<leftarrow>parts. 1 + length p) \<le> (\<Sum>m\<leftarrow>js_sort by_key ?ms. 1 + ?g m)"
  proof (rule map_throw_length [OF parts(1)])
    fix m y assume "member_text path m = Inr y"
    then show "length y \<le> ?g m"
      using canonical_string_length by (cases m) (fastforce simp: member_text_def and_then_Inr split: if_splits)
  qed
  also have "\<dots> = (\<Sum>m\<leftarrow>?ms. 1 + ?g m)"
    by (rule sum_list_same) simp
  also have "\<dots> \<le> (\<Sum>e\<leftarrow>es. 4 + 6 * length (fst e) + json_bound (snd e))"
  proof -
    have "1 + ?g (case e of (k, v) \<Rightarrow> (k, v = JUndefined, canonicalize v (key_path path k))) \<le>
        4 + 6 * length (fst e) + json_bound (snd e)" if e: "e \<in> set es" for e
    proof (cases "canonicalize (snd e) (key_path path (fst e))")
      case (Inr s)
      have "length s \<le> json_bound (snd e)"
        using JObject.IH [OF e _ Inr] by (cases e) (simp add: snds.simps)
      then show ?thesis using Inr by (cases e) simp
    qed (cases e; simp)
    then show ?thesis unfolding map_map comp_def by (rule sum_list_mono)
  qed
  finally show ?case using joined_length [of parts] parts(2) by simp
qed auto

lemma utf8_length: "utf8_byte_length t \<le> 3 * length t"
proof (induction t rule: utf8_byte_length.induct)
  case (2 c cs)
  show ?case unfolding utf8_byte_length.simps(2) [of c cs]
    using 2 by (auto split: list.split simp del: utf8_byte_length.simps(2))
qed simp

section \<open>Requests that fit\<close>

definition roomy :: "nat \<Rightarrow> reading_request \<Rightarrow> bool" where
  "roomy limit r = (json_ok (json_request r) \<and> 3 * json_bound (json_request r) \<le> limit)"

lemma roomy_bytes:
  assumes "roomy limit r"
  shows "\<exists>n. packet_bytes r = Inr n \<and> n \<le> limit"
proof -
  have "canonical (json_request r)" using assms by (simp add: roomy_def json_ok_canonical)
  then obtain t where t: "canonicalize (json_request r) [] = Inr t" unfolding canonical_def by blast
  have "utf8_byte_length t \<le> limit"
    using utf8_length [of t] canonical_length [OF t] assms by (simp add: roomy_def)
  then show ?thesis using t by (simp add: packet_bytes_def canonical_text_def jcs_canonicalize_def)
qed

lemma json_object_parts [simp]:
  "json_ok (json_object ms) = list_all (\<lambda>m. json_ok (snd m)) ms"
  "json_bound (json_object ms) = 2 + (\<Sum>m\<leftarrow>ms. 4 + 6 * length (fst m) + json_bound (snd m))"
  by (simp_all add: json_object_def list_all_iff case_prod_unfold comp_def)

lemma json_text_parts [simp]: "json_ok (json_text s)" "json_bound (json_text s) = 2 + 6 * length s"
  by (simp_all add: json_text_def)

lemma json_texts_parts [simp]: "json_ok (json_texts xs)" "json_bound (json_texts xs) = 2 + (\<Sum>x\<leftarrow>xs. Suc (Suc (Suc (6 * length x))))"
  by (simp_all add: json_texts_def list_all_iff comp_def)

text \<open>A part of the prior readings and of the context fits when the whole does.\<close>

lemma roomy_part:
  "roomy limit (r\<lparr>rq_prior := ps @ qs, rq_context := cs @ ds\<rparr>) \<Longrightarrow> roomy limit (r\<lparr>rq_prior := ps, rq_context := cs\<rparr>)"
  by (simp add: roomy_def json_request_def)

lemma roomy_prior: "roomy limit (r\<lparr>rq_prior := ps @ qs\<rparr>) \<Longrightarrow> roomy limit (r\<lparr>rq_prior := ps\<rparr>)"
  by (simp add: roomy_def json_request_def)

lemma roomy_context: "roomy limit (r\<lparr>rq_context := ps @ qs\<rparr>) \<Longrightarrow> roomy limit (r\<lparr>rq_context := ps\<rparr>)"
  by (simp add: roomy_def json_request_def)

lemma add_priors_roomy:
  "roomy limit ((bg_request b)\<lparr>rq_prior := rq_prior (bg_request b) @ map (excerpt_of nfc) ds\<rparr>) \<Longrightarrow>
   \<exists>b'. add_priors nfc limit ds b = Inr b' \<and> bg_selected b' = bg_selected b @ map fst ds \<and>
     bg_request b' = (bg_request b)\<lparr>rq_prior := rq_prior (bg_request b) @ map (excerpt_of nfc) ds\<rparr>"
proof (induction ds arbitrary: b)
  case (Cons d ds)
  let ?request = "(bg_request b)\<lparr>rq_prior := rq_prior (bg_request b) @ [excerpt_of nfc d]\<rparr>"
  have "roomy limit ?request" by (rule roomy_prior [where qs = "map (excerpt_of nfc) ds"]) (use Cons.prems in simp)
  then obtain n where n: "packet_bytes ?request = Inr n" "n \<le> limit" using roomy_bytes by blast
  let ?next = "b\<lparr>bg_request := ?request, bg_bytes := n, bg_selected := bg_selected b @ [fst d]\<rparr>"
  have "add_priors nfc limit (d # ds) b = add_priors nfc limit ds ?next" using n by (simp add: Let_def)
  then show ?case using Cons.IH [of ?next] Cons.prems by simp
qed simp

lemma add_context_roomy:
  "roomy limit ((bg_request b)\<lparr>rq_context := rq_context (bg_request b) @
     map (\<lambda>x. to_request_context x version) (refs_from nfc (length (bg_selected b)) ps)\<rparr>) \<Longrightarrow>
   \<not> bg_exhausted b \<Longrightarrow> length (bg_selected b) + length ps \<le> max_context_items \<Longrightarrow>
   \<exists>b'. add_context nfc version limit ps b = Inr b' \<and>
     bg_selected b' = bg_selected b @ refs_from nfc (length (bg_selected b)) ps \<and>
     bg_request b' = (bg_request b)\<lparr>rq_context := rq_context (bg_request b) @
       map (\<lambda>x. to_request_context x version) (refs_from nfc (length (bg_selected b)) ps)\<rparr>"
proof (induction ps arbitrary: b)
  case (Cons p ps)
  have room: "\<not> no_room b" using Cons.prems(2,3) by (simp add: no_room_def)
  have "roomy limit (request_with nfc version p b)"
    unfolding request_with_def
    by (rule roomy_context [where qs = "map (\<lambda>x. to_request_context x version) (refs_from nfc (Suc (length (bg_selected b))) ps)"])
      (use Cons.prems(1) in simp)
  then obtain n where n: "packet_bytes (request_with nfc version p b) = Inr n" "n \<le> limit" using roomy_bytes by blast
  have "add_context nfc version limit (p # ps) b = add_context nfc version limit ps (add_pin nfc version p n b)"
    using n by (simp add: context_step_try [OF room])
  then show ?case using Cons.IH [of "add_pin nfc version p n b"] Cons.prems by (simp add: add_pin_def request_with_def)
qed simp

text \<open>The request with everything in it.\<close>

definition full_request ::
  "(string \<Rightarrow> int option) \<Rightarrow> (units \<Rightarrow> units) \<Rightarrow> packet_input \<Rightarrow> daily_uncertainty \<Rightarrow> constrained_fact list \<Rightarrow>
   (prior_reading \<times> int) list \<Rightarrow> reading_request" where
  "full_request dp nfc input u facts recent = (initial_request input u facts)
     \<lparr>rq_prior := map (excerpt_of nfc) recent,
      rq_context := map (\<lambda>x. to_request_context x (pi_selection_version input)) (refs_from nfc 0 (fst (ordered_pins dp input)))\<rparr>"

lemma sum_list_length: "length xs \<le> (\<Sum>x\<leftarrow>xs. Suc (f x))"
  by (induction xs) auto

lemma roomy_facts: "roomy limit r \<Longrightarrow> length (rq_facts r) \<le> limit"
  using sum_list_length [of "rq_facts r" "json_bound \<circ> json_request_fact"]
  by (simp add: roomy_def json_request_def comp_def)

lemma room_suffices:
  assumes u: "checked_uncertainty input = Inr u" and facts: "packet_facts dp input u = Inr (facts, rejections)"
    and granted: "''prior_reading_excerpts'' \<in> set (pi_categories input)"
    and recent: "recent_readings dp (pi_local_date input) (pi_prior input) = Inr recent"
    and few: "length (fst (ordered_pins dp input)) \<le> 999" and limit: "pi_max_bytes input < 10 ^ 21"
    and room: "roomy (pi_max_bytes input) (full_request dp nfc input u facts recent)"
    and texts: "json_ok (json_object (common_members input u facts (refs_from nfc 0 (fst (ordered_pins dp input)))
        (full_request dp nfc input u facts recent)))"
  shows "\<exists>p. prepare_constrained_reading_input dp nfc input = Inr p \<and> pd_facts p = facts \<and>
    pd_context p = refs_from nfc 0 (fst (ordered_pins dp input)) \<and> pd_prior p = map fst recent \<and>
    pd_request p = full_request dp nfc input u facts recent"
proof -
  let ?limit = "pi_max_bytes input" and ?pins = "fst (ordered_pins dp input)" and ?r = "initial_request input u facts"
  let ?full = "full_request dp nfc input u facts recent"
  have start: "roomy ?limit ?r"
    using roomy_part [where limit = ?limit and r = ?r and ps = "[]" and cs = "[]"] room by (simp add: full_request_def initial_request_def Let_def)
  have priors_fit: "roomy ?limit (?r\<lparr>rq_prior := map (excerpt_of nfc) recent\<rparr>)"
  proof -
    let ?refs = "map (\<lambda>x. to_request_context x (pi_selection_version input)) (refs_from nfc 0 ?pins)"
    have "roomy ?limit (?r\<lparr>rq_prior := map (excerpt_of nfc) recent, rq_context := [] @ ?refs\<rparr>)"
      using room by (simp add: full_request_def)
    from roomy_context [OF this] show ?thesis by (simp add: initial_request_def Let_def)
  qed
  obtain n where n: "packet_bytes ?r = Inr n" "n \<le> ?limit" using roomy_bytes [OF start] by blast
  obtain priors where priors: "add_priors nfc ?limit recent
      \<lparr>bg_request = ?r, bg_bytes = n, bg_selected = [], bg_exhausted = False, bg_rejections = []\<rparr> = Inr priors"
    "bg_selected priors = map fst recent" "bg_request priors = ?r\<lparr>rq_prior := map (excerpt_of nfc) recent\<rparr>"
    using add_priors_roomy [of ?limit "\<lparr>bg_request = ?r, bg_bytes = n, bg_selected = [], bg_exhausted = False, bg_rejections = []\<rparr>" nfc recent]
      priors_fit by (auto simp: initial_request_def Let_def)
  have selected: "select_priors dp nfc input ?r n = Inr priors"
    using granted recent priors(1) by (simp add: select_priors_def Let_def)
  obtain b where b: "add_context nfc (pi_selection_version input) ?limit ?pins (fresh_budget priors) = Inr b"
    "bg_selected b = refs_from nfc 0 ?pins" "bg_request b = ?full"
    using add_context_roomy [of ?limit "fresh_budget priors" "pi_selection_version input" nfc ?pins] room few
    by (auto simp: fresh_budget_def priors(3) full_request_def initial_request_def Let_def max_context_items_def)
  have "within_limit ?limit (fresh_budget priors)"
    using select_priors_within [OF selected n] by (simp add: within_limit_def fresh_budget_def)
  then have bytes: "bg_bytes b \<le> ?limit" using add_context_within [OF b(1)] by (simp add: within_limit_def)
  have small: "k \<le> ?limit \<Longrightarrow> plain_number (of_nat k)" for k using limit by (intro plain_nat) simp
  have "length facts \<le> ?limit" using roomy_facts [OF start] by (simp add: initial_request_def Let_def)
  moreover have "plain_number (of_nat (length ?pins))" using few by (intro plain_nat) simp
  moreover have "length recent \<le> 7"
    using recent by (auto simp: recent_readings_def and_then_Inr max_prior_readings_def)
  then have "plain_number (of_nat (length recent))" by (intro plain_nat) simp
  ultimately have ok: "json_ok (json_object ((''identity_profile'', json_text identity_profile) # common_members input u facts (refs_from nfc 0 ?pins) ?full))"
    "json_ok (json_object
       ([(''manifest_profile'', json_text manifest_profile), (''context_max_bytes'', json_nat ?limit),
         (''packet_bytes'', json_nat (bg_bytes b)), (''fact_count'', json_nat (length facts)), (''context_count'', json_nat (length (refs_from nfc 0 ?pins))),
         (''prior_reading_count'', json_nat (length (rq_prior ?full))), (''supported_uses'', json_texts m5_supported_uses)] @
        common_members input u facts (refs_from nfc 0 ?pins) ?full))"
    using texts bytes by (simp_all add: json_nat_def small full_request_def del: of_nat_numeral)
  obtain identity where identity: "identity_canonical input u facts (bg_selected b) (bg_request b) = Inr identity"
    using canonical_text_ok [OF ok(1)] unfolding identity_canonical_def b(2,3) by blast
  obtain manifest where manifest: "manifest_canonical input u facts (bg_selected b) (bg_request b) (bg_bytes b) = Inr manifest"
    using canonical_text_ok [OF ok(2)] unfolding manifest_canonical_def b(2,3) by blast
  have "\<exists>p. finish_packet dp nfc input u facts rejections = Inr p \<and> pd_facts p = facts \<and>
      pd_context p = refs_from nfc 0 ?pins \<and> pd_prior p = map fst recent \<and> pd_request p = ?full"
    unfolding finish_Inr using n selected b identity manifest priors(2) by auto
  then show ?thesis unfolding prepare_Inr using u facts by blast
qed


end
