(* ===== verification/Packet_Example.thy ===== *)
theory Packet_Example
  imports Packet_Room Assembly_Example
begin

text \<open>One prepared packet, evaluated step by step: the input the properties of the packet are applied to.\<close>

definition example_source :: "string \<Rightarrow> source_input" where
  "example_source i = \<lparr>so_source_id = i, so_permission_state = ''active'', so_permission_uses = [''tone''],
     so_permission_consent = ''c'', so_consent_id = ''c'', so_consent_source = i, so_consent_status = ''granted'',
     so_consent_version = 1, so_consent_uses = [''tone'']\<rparr>"

definition packet_signal :: "string \<Rightarrow> string \<Rightarrow> string \<Rightarrow> signal_input" where
  "packet_signal i source day = \<lparr>si_signal_id = i, si_source_id = source, si_category = ''ambient'', si_allowed_uses = [''tone''],
     si_lane = ''user'', si_hash = ''h'', si_freshness = ''fresh'', si_observed_at = day, si_expires_at = None,
     si_content = TextContent (units ''rain'')\<rparr>"

definition example_pin :: calculation_pin where
  "example_pin = \<lparr>cp_policy_id = ''p'', cp_policy_version = ''1'', cp_orb_policy_id = None, cp_orb_policy_version = None,
     cp_request_digest = ''a'', cp_response_digest = ''b'', cp_container_digest = ''c'', cp_ephemeris = ''e''\<rparr>"

definition example_natal :: natal_fact where
  "example_natal = \<lparr>nt_id = ''nat'', nt_class = ''natal_position'', nt_body = ''sun'', nt_target = None, nt_aspect = None,
     nt_sign = Some ''leo'', nt_degree = None, nt_house = None\<rparr>"

definition example_sky :: sky_fact where
  "example_sky = \<lparr>sk_id = ''sky'', sk_scope = Personalized, sk_effective_at = ''2026-02-10T12:00:00Z'', sk_label = ''Moon'',
     sk_detail = LunarPhase ''full_moon'' 0 1, sk_digest = ''s''\<rparr>"

definition example_prior :: prior_reading where
  "example_prior = \<lparr>pr_local_date = ''2026-02-09'', pr_headline = units ''H'', pr_lead = units ''L'', pr_reflection = units ''R''\<rparr>"

definition example_packet_input :: packet_input where
  "example_packet_input =
     \<lparr>pi_schema_version = ''0.5.1'', pi_prompt_version = ''1'', pi_output_schema = ''daily-reading-v5'',
      pi_selection_version = ''1.5.0'', pi_validation_version = ''1.2.0'', pi_max_bytes = 65536, pi_local_date = ''2026-02-10'',
      pi_timezone = ''UTC'', pi_locale = ''en'', pi_anchor = ''2026-02-10T08:00:00Z'', pi_revision = 1, pi_domain = None,
      pi_categories = [''birth_accuracy_and_uncertainty'', ''calculated_natal_facts'', ''ambient'', ''prior_reading_excerpts''],
      pi_day = \<lparr>dw_start_at = ''2026-02-09T12:00:00Z'', dw_end_at = ''2026-02-10T12:00:00Z'', dw_anchor_at = ''2026-02-10T00:00:00Z'',
        dw_anchor_resolution = ''local_noon'', dw_tzdb = ''2025b'', dw_policy_version = ''1''\<rparr>,
      pi_chart = \<lparr>pc_fingerprint = ''f'', pc_contract_id = ''c'', pc_contract_version = ''1'', pc_container_digest = ''d'',
        pc_accuracy = ''exact'', pc_uncertainty = \<lparr>ur_accuracy = ''exact'', ur_window = None, ur_suppressed = [], ur_qualified = []\<rparr>\<rparr>,
      pi_cycle_scan = example_pin, pi_cycles = [], pi_daily_sky = example_pin, pi_sky_facts = [example_sky],
      pi_natal_facts = [example_natal],
      pi_sources = [example_source ''AMB-04'', example_source ''USR-06''],
      pi_signals = [packet_signal ''s1'' ''AMB-04'' ''2026-02-09'', packet_signal ''s2'' ''AMB-04'' ''2026-02-10'',
        packet_signal ''s3'' ''USR-06'' ''2026-02-08''],
      pi_prior = [example_prior]\<rparr>"

definition example_uncertainty :: daily_uncertainty where
  "example_uncertainty = \<lparr>du_accuracy = Exact, du_window = None, du_suppressed = [], du_qualified = []\<rparr>"

lemma example_plan: "build_uncertainty_disclosure_plan example_uncertainty = []"
  by (simp add: build_uncertainty_disclosure_plan_def example_uncertainty_def Let_def birth_time_disclosure_def)

lemma example_checked: "checked_uncertainty example_packet_input = Inr example_uncertainty"
proof -
  have "normalize_daily_uncertainty (pc_uncertainty (pi_chart example_packet_input)) = Inr example_uncertainty"
    by (simp add: example_packet_input_def normalize_daily_uncertainty_def example_uncertainty_def read_accuracy_def bad_window_def)
  then show ?thesis
    by (simp add: checked_uncertainty_def example_plan plan_text_def)
      (simp add: example_packet_input_def supported_policy_def daily_schema_version_def selection_policy_version_def
        validation_policy_version_def example_uncertainty_def)
qed

section \<open>Its context\<close>

definition packet_pin :: "string \<Rightarrow> string \<Rightarrow> string \<Rightarrow> pending_pin" where
  "packet_pin i source day = \<lparr>pp_signal = packet_signal i source day, pp_source = example_source source, pp_use = ''tone''\<rparr>"

lemma example_signal_order:
  "js_sort compare_signals (pi_signals example_packet_input) =
     [packet_signal ''s2'' ''AMB-04'' ''2026-02-10'', packet_signal ''s1'' ''AMB-04'' ''2026-02-09'',
      packet_signal ''s3'' ''USR-06'' ''2026-02-08'']"
  by (simp add: example_packet_input_def js_sort_def compare_signals_def packet_signal_def less_eq_char_def)

lemma example_source_order:
  "filter (\<lambda>s. source_rejection s = None) (js_sort (\<lambda>a b. cmp_asc (so_source_id a) (so_source_id b)) (pi_sources example_packet_input)) =
     [example_source ''AMB-04'', example_source ''USR-06'']"
  by (simp add: example_packet_input_def js_sort_def cmp_asc_def example_source_def less_eq_char_def source_rejection_def same_use_set_def)

lemma example_uses: "signal_uses (packet_signal i s d) (example_source k) = [''tone'']"
  by (simp add: signal_uses_def packet_signal_def example_source_def is_m5_supported_use_def m5_supported_uses_def uniq_def)

lemma example_contribution:
  "k \<in> {''AMB-04'', ''USR-06''} \<Longrightarrow>
   pins_of_signal dp anchor (pi_categories example_packet_input) [example_source ''AMB-04'', example_source ''USR-06''] (packet_signal i k d) =
     [packet_pin i k d]"
proof -
  assume k: "k \<in> {''AMB-04'', ''USR-06''}"
  have "index_by so_source_id [example_source ''AMB-04'', example_source ''USR-06''] k = Some (example_source k)"
    using k by (auto simp: index_by_def js_map_get_def example_source_def)
  moreover have "si_source_id (packet_signal i k d) = k" "\<not> expired_at dp anchor (packet_signal i k d)"
    "si_category (packet_signal i k d) \<in> set (pi_categories example_packet_input)"
    by (simp_all add: packet_signal_def expired_at_def example_packet_input_def)
  ultimately show ?thesis
    by (simp add: pins_of_signal_def expand_signal_def example_uses packet_pin_def)
qed

lemma example_consented:
  "consented (candidate_of (packet_pin i ''AMB-04'' d))" "consented (candidate_of (packet_pin i ''USR-06'' d))"
  unfolding consented_def candidate_of_def packet_pin_def packet_signal_def ingestible_sources_def by simp_all

lemma example_signals_distinct: "distinct (map si_signal_id (pi_signals example_packet_input))"
  by (simp add: example_packet_input_def packet_signal_def)

lemma example_expanded:
  "fst (expand_context dp (pi_anchor example_packet_input) (pi_categories example_packet_input)
     (pi_sources example_packet_input) (pi_signals example_packet_input)) =
   [packet_pin ''s2'' ''AMB-04'' ''2026-02-10'', packet_pin ''s1'' ''AMB-04'' ''2026-02-09'', packet_pin ''s3'' ''USR-06'' ''2026-02-08'']"
  unfolding expand_context_pins [OF example_signals_distinct] offered_pins_def example_signal_order example_source_order
  by (simp add: example_contribution example_consented)

lemma example_pins:
  "fst (ordered_pins dp example_packet_input) =
   [packet_pin ''s2'' ''AMB-04'' ''2026-02-10'', packet_pin ''s3'' ''USR-06'' ''2026-02-08'', packet_pin ''s1'' ''AMB-04'' ''2026-02-09'']"
proof -
  let ?pins = "[packet_pin ''s2'' ''AMB-04'' ''2026-02-10'', packet_pin ''s1'' ''AMB-04'' ''2026-02-09'', packet_pin ''s3'' ''USR-06'' ''2026-02-08'']"
  have "feedback_signals ?pins = []"
    by (simp add: feedback_signals_def is_feedback_def packet_pin_def packet_signal_def)
  then have cap: "fst (cap_feedback ?pins) = ?pins" by (simp add: cap_feedback_def)
  have sources: "source_ids ?pins = [''AMB-04'', ''USR-06'']"
    by (simp add: source_ids_def pin_source_def packet_pin_def example_source_def uniq_def less_eq_char_def)
  have own: "pins_of ?pins ''AMB-04'' = [packet_pin ''s2'' ''AMB-04'' ''2026-02-10'', packet_pin ''s1'' ''AMB-04'' ''2026-02-09'']"
    "pins_of ?pins ''USR-06'' = [packet_pin ''s3'' ''USR-06'' ''2026-02-08'']"
    by (simp_all add: pins_of_def' pin_source_def packet_pin_def example_source_def js_sort_def compare_pins_def compare_signals_def
        packet_signal_def less_eq_char_def)
  have "head_pins [packet_pin ''s2'' ''AMB-04'' ''2026-02-10'', packet_pin ''s1'' ''AMB-04'' ''2026-02-09''] = [packet_pin ''s2'' ''AMB-04'' ''2026-02-10'']"
    "tail_pins [packet_pin ''s2'' ''AMB-04'' ''2026-02-10'', packet_pin ''s1'' ''AMB-04'' ''2026-02-09''] = [packet_pin ''s1'' ''AMB-04'' ''2026-02-09'']"
    "head_pins [packet_pin ''s3'' ''USR-06'' ''2026-02-08''] = [packet_pin ''s3'' ''USR-06'' ''2026-02-08'']"
    "tail_pins [packet_pin ''s3'' ''USR-06'' ''2026-02-08''] = []"
    by (simp_all add: head_pins_def tail_pins_def newest_signal_def packet_pin_def packet_signal_def)
  then show ?thesis
    unfolding ordered_pins_fst example_expanded cap order_pins_alt sources by (simp add: own fill_rounds_short)
qed

section \<open>Its facts\<close>

definition example_fact_list :: "constrained_fact list" where
  "example_fact_list = [project_natal_fact example_natal]"

lemma example_days:
  "date_parse ''2026-02-09T00:00:00Z'' = Some 1770595200000" "date_parse ''2026-02-10T00:00:00Z'' = Some 1770681600000"
  by (simp_all add: date_parse_defs)

lemma example_facts: "\<exists>rejections. packet_facts date_parse example_packet_input example_uncertainty = Inr (example_fact_list, rejections)"
proof -
  have midpoint: "local_day_midpoint date_parse (dw_start_at (pi_day example_packet_input)) (dw_end_at (pi_day example_packet_input)) =
      Inr ''2026-02-10T00:00:00Z''"
    by (simp add: local_day_midpoint_def example_packet_input_def example_day_ends example_iso)
  obtain sky where sky: "project_sky_fact date_parse example_sky = Inr sky" "cf_category sky = ''calculated_daily_sky''"
    by (simp add: project_sky_fact_def example_sky_def utc_instant_def example_day_ends fact_category_def Let_def)
  have "projected_facts date_parse ''2026-02-10T00:00:00Z'' example_packet_input = Inr [sky, project_natal_fact example_natal]"
    using sky(1) by (simp add: projected_facts_def example_packet_input_def)
  moreover have "fact_rejection (pi_categories example_packet_input) [] sky \<noteq> None"
    by (simp add: fact_rejection_def sky(2) example_packet_input_def)
  moreover have "fact_rejection (pi_categories example_packet_input) [] (project_natal_fact example_natal) = None"
  proof -
    have bodies: "fa_bodies (cf_attributes (project_natal_fact example_natal)) = [''sun'']" "fa_houses (cf_attributes (project_natal_fact example_natal)) = []"
      "cf_category (project_natal_fact example_natal) = ''calculated_natal_facts''"
      by (simp_all add: project_natal_fact_def example_natal_def as_body_def body_label_def unique_sorted_def present_def uniq_def
          js_sort_def listed_def fact_category_def empty_attributes_def)
    show ?thesis
      by (simp add: fact_rejection_def suppression_reason_for_def bodies)
        (simp add: example_packet_input_def probe_fact_def blank_fact_def fact_suppression_reason_def lower_target_def Let_def)
  qed
  moreover have "rank_facts date_parse example_fact_list ''2026-02-10T00:00:00Z'' (pi_domain example_packet_input) = Inr example_fact_list"
    by (simp add: rank_facts_def example_fact_list_def to_assembly_fact_def project_natal_fact_def js_sort_def)
  ultimately show ?thesis
    unfolding packet_facts_Inr Let_def
    by (intro exI [of _ "present (map (fact_rejection (pi_categories example_packet_input) []) [sky, project_natal_fact example_natal])"]
        exI [of _ "''2026-02-10T00:00:00Z''"] exI [of _ "[sky, project_natal_fact example_natal]"])
      (auto simp: midpoint example_uncertainty_def example_fact_list_def)
qed

lemma example_recent:
  "recent_readings date_parse (pi_local_date example_packet_input) (pi_prior example_packet_input) = Inr [(example_prior, 1)]"
proof -
  have "\<lfloor>3 / 2 :: js_num\<rfloor> = 1" by (rule floor_unique) simp_all
  then have "days_between date_parse ''2026-02-09'' ''2026-02-10'' = Inr 1"
    by (simp add: days_between_def example_days day_ms_def)
  then show ?thesis
    by (simp add: recent_readings_def example_packet_input_def example_prior_def js_sort_def max_prior_readings_def)
qed

section \<open>Its packet\<close>

lemma example_numbers:
  "plain_number 1" "plain_number 4" "plain_number 60" "plain_number 600" "plain_number 240"
  "length (num_str 1) \<le> 21" "length (num_str 4) \<le> 21" "length (num_str 60) \<le> 21" "length (num_str 600) \<le> 21"
  "length (num_str 240) \<le> 21"
  using plain_nat [of 1] plain_nat [of 4] plain_nat [of 60] plain_nat [of 600] plain_nat [of 240] by simp_all

lemma example_natal_fields:
  "to_request_fact (project_natal_fact example_natal) =
     \<lparr>rf_id = ''nat'', rf_class = ''natal_position'', rf_scope = Personalized, rf_lane = 4, rf_label = ''Natal Sun in Leo'',
      rf_attributes = empty_attributes\<lparr>fa_bodies := [''sun''], fa_signs := [''leo'']\<rparr>\<rparr>"
  by (simp add: to_request_fact_def project_natal_fact_def example_natal_def as_body_def body_label_def unique_sorted_def present_def
      uniq_def js_sort_def listed_def empty_attributes_def lane_rank_def natal_label_def truthy_value_def shown_def js_map_get_def
      sign_label_def Let_def)

lemma example_excerpts: "normalize_excerpt (\<lambda>t. t) (units s) = units s" if "length s \<le> 600"
  using that utf8_length [of "units s"] by (simp add: normalize_excerpt_def max_context_text_bytes_def)

lemma example_refs:
  "map (\<lambda>x. to_request_context x v) (refs_from (\<lambda>t. t) 0 (fst (ordered_pins dp example_packet_input))) =
     map (\<lambda>(r, day). \<lparr>rx_ref = r, rx_category = ''ambient'', rx_use = ''tone'', rx_observed_on = day, rx_content = TextContent (units ''rain'')\<rparr>)
       [(''ctx_1'', ''2026-02-10''), (''ctx_2'', ''2026-02-08''), (''ctx_3'', ''2026-02-09'')]"
proof -
  have "nat_str (Suc 0) = ''1''" "nat_str 2 = ''2''" "nat_str 3 = ''3''" by code_simp+
  then show ?thesis
    using example_excerpts [of "''rain''"]
    by (simp add: example_pins to_request_context_def context_pin_of_def packet_pin_def packet_signal_def to_snapshot_def
        projected_snapshot_def date_of_def numeral_2_eq_2 numeral_3_eq_3)
qed

lemma example_unsuppressed: "du_suppressed example_uncertainty = []"
  by (simp add: example_uncertainty_def)

lemma example_full:
  "full_request date_parse (\<lambda>t. t) example_packet_input example_uncertainty example_fact_list [(example_prior, 1)] =
     \<lparr>rq_schema_version = ''0.5.1'', rq_prompt_version = ''1'', rq_selection_version = ''1.5.0'', rq_output_schema = ''daily-reading-v5'',
      rq_local_date = ''2026-02-10'', rq_locale = ''en'', rq_accuracy = ''exact'', rq_suppressed = [], rq_disclosure = [], rq_domain = None,
      rq_facts = [to_request_fact (project_natal_fact example_natal)],
      rq_context = map (\<lambda>(r, day). \<lparr>rx_ref = r, rx_category = ''ambient'', rx_use = ''tone'', rx_observed_on = day,
        rx_content = TextContent (units ''rain'')\<rparr>) [(''ctx_1'', ''2026-02-10''), (''ctx_2'', ''2026-02-08''), (''ctx_3'', ''2026-02-09'')],
      rq_prior = [\<lparr>px_days_ago = 1, px_headline = units ''H'', px_lead = units ''L'', px_reflection = units ''R''\<rparr>],
      rq_composition = build_composition example_fact_list False\<rparr>"
  using example_excerpts [of "''H''"] example_excerpts [of "''L''"] example_excerpts [of "''R''"]
  unfolding full_request_def example_refs
  by (simp add: initial_request_def example_plan Let_def example_packet_input_def example_fact_list_def daily_schema_version_def
      unique_sorted_def example_unsuppressed excerpt_of_def example_prior_def del: units_simps(2))

lemma example_composition:
  "build_composition example_fact_list False = \<lparr>cm_roles = [''supporting_theme''], cm_min = 1, cm_max = 1, cm_headline = 60,
     cm_lead = 600, cm_paragraph = 600, cm_reflection = 240, cm_note_required = False\<rparr>"
  by (simp add: build_composition_def example_fact_list_def project_natal_fact_def empty_attributes_def paragraph_roles_def
      headline_max_chars_def lead_max_chars_def paragraph_max_chars_def reflection_max_chars_def Let_def)

lemma example_roomy:
  "roomy (pi_max_bytes example_packet_input)
     (full_request date_parse (\<lambda>t. t) example_packet_input example_uncertainty example_fact_list [(example_prior, 1)])"
  using example_numbers
  by (simp add: roomy_def example_full example_composition json_request_def json_request_fact_def example_natal_fields json_attributes_def
      empty_attributes_def optional_member_def json_request_context_def json_prior_def json_composition_def json_plan_def nullable_def
      json_nat_def del: units_simps(2))
    (simp add: example_packet_input_def)

lemma example_members:
  "json_ok (json_object (common_members example_packet_input example_uncertainty example_fact_list
     (refs_from (\<lambda>t. t) 0 (fst (ordered_pins dp example_packet_input)))
     (full_request date_parse (\<lambda>t. t) example_packet_input example_uncertainty example_fact_list [(example_prior, 1)])))"
proof -
  have attributes: "cf_attributes (project_natal_fact example_natal) = empty_attributes\<lparr>fa_bodies := [''sun''], fa_signs := [''leo'']\<rparr>"
    "cf_lane (project_natal_fact example_natal) = 4"
    using example_natal_fields by (simp_all add: to_request_fact_def)
  have fact: "json_ok (json_selected_fact (project_natal_fact example_natal))"
    using example_numbers
    by (simp add: json_selected_fact_def attributes json_nat_def json_attributes_def empty_attributes_def optional_member_def nullable_def
        split: option.split)
  have pins: "json_ok (json_context_pin (context_pin_of (\<lambda>t. t) i (packet_pin a b c)))" for i a b c
    using example_numbers by (simp add: json_context_pin_def context_pin_of_def packet_pin_def example_source_def json_nat_def)
  have pin: "json_ok (json_calculation example_pin)"
    by (simp add: json_calculation_def example_pin_def nullable_def)
  have uncertainty: "json_ok (json_daily_uncertainty example_uncertainty)"
    by (simp add: json_daily_uncertainty_def example_uncertainty_def nullable_def)
  have input: "pi_cycle_scan example_packet_input = example_pin" "pi_daily_sky example_packet_input = example_pin"
    "pi_domain example_packet_input = None" "pi_revision example_packet_input = 1"
    by (simp_all add: example_packet_input_def)
  show ?thesis
    using example_numbers unfolding example_full example_composition
    by (simp add: common_members_def Let_def example_fact_list_def fact pins pin uncertainty input
        example_pins json_composition_def json_nat_def json_plan_def json_prior_def nullable_def del: units_simps(2))
qed

text \<open>Every fact, prior reading and context item of the example is in its packet.\<close>

lemma example_packet_exists:
  "\<exists>p. prepare_constrained_reading_input date_parse (\<lambda>t. t) example_packet_input = Inr p \<and> pd_facts p = example_fact_list \<and>
     pd_context p = refs_from (\<lambda>t. t) 0 (fst (ordered_pins date_parse example_packet_input)) \<and> pd_prior p = [example_prior]"
proof -
  obtain rejections where "packet_facts date_parse example_packet_input example_uncertainty = Inr (example_fact_list, rejections)"
    using example_facts by blast
  moreover have "''prior_reading_excerpts'' \<in> set (pi_categories example_packet_input)" "pi_max_bytes example_packet_input < 10 ^ 21"
    by (simp_all add: example_packet_input_def)
  ultimately obtain p where "prepare_constrained_reading_input date_parse (\<lambda>t. t) example_packet_input = Inr p" "pd_facts p = example_fact_list"
    "pd_context p = refs_from (\<lambda>t. t) 0 (fst (ordered_pins date_parse example_packet_input))" "pd_prior p = map fst [(example_prior, 1::int)]"
    using room_suffices [OF example_checked _ _ example_recent _ _ example_roomy example_members] by (auto simp: example_pins)
  then show ?thesis by auto
qed

section \<open>The properties at the example\<close>

abbreviation prepared_example :: "prepared_input \<Rightarrow> bool" where
  "prepared_example p \<equiv> prepare_constrained_reading_input date_parse (\<lambda>t. t) example_packet_input = Inr p"

theorem packet_within_ceiling_witness:
  "\<exists>p. prepared_example p \<and> packet_bytes (pd_request p) = Inr (pd_bytes p) \<and> pd_bytes p \<le> 65536"
proof -
  obtain p where p: "prepared_example p" using example_packet_exists by blast
  have "pi_max_bytes example_packet_input = 65536" by (simp add: example_packet_input_def)
  with packet_within_ceiling [OF p] p show ?thesis by auto
qed

theorem context_limits_witness:
  "\<exists>p. prepared_example p \<and> length (pd_context p) \<le> 999 \<and>
     card (xp_signal_id ` {x \<in> set (pd_context p). xp_category x = ''reading_feedback''}) \<le> 20"
  using example_packet_exists context_limits by blast

theorem selected_context_is_consented_witness:
  "\<exists>p x. prepared_example p \<and> x \<in> set (pd_context p) \<and> xp_signal_id x = ''s3'' \<and>
     (\<exists>source \<in> set (pi_sources example_packet_input). so_source_id source = ''USR-06'' \<and> so_consent_status source = ''granted'' \<and>
        xp_use x \<in> set (so_consent_uses source))"
proof -
  obtain p where p: "prepared_example p" "pd_context p = refs_from (\<lambda>t. t) 0 (fst (ordered_pins date_parse example_packet_input))"
    using example_packet_exists by blast
  let ?x = "context_pin_of (\<lambda>t. t) 1 (packet_pin ''s3'' ''USR-06'' ''2026-02-08'')"
  have x: "?x \<in> set (pd_context p)" "xp_signal_id ?x = ''s3''" "xp_source_id ?x = ''USR-06''"
    by (simp_all add: p(2) example_pins) (simp_all add: context_pin_of_def packet_pin_def packet_signal_def)
  show ?thesis
    using selected_context_is_consented [OF p(1) example_signals_distinct x(1)] x p(1)
    by (intro exI [of _ p] exI [of _ ?x]) auto
qed

theorem no_source_is_crowded_out_witness:
  "\<exists>p. prepared_example p \<and> (\<exists>y \<in> set (pd_context p). xp_source_id y = ''USR-06'')"
proof -
  obtain p where p: "prepared_example p" "pd_context p = refs_from (\<lambda>t. t) 0 (fst (ordered_pins date_parse example_packet_input))"
    using example_packet_exists by blast
  let ?x = "context_pin_of (\<lambda>t. t) 2 (packet_pin ''s1'' ''AMB-04'' ''2026-02-09'')"
  let ?q = "packet_pin ''s2'' ''AMB-04'' ''2026-02-10''" and ?r = "packet_pin ''s3'' ''USR-06'' ''2026-02-08''"
  have x: "?x \<in> set (pd_context p)" by (simp add: p(2) example_pins numeral_2_eq_2)
  have "so_source_id (pp_source ?q) = xp_source_id ?x" "xp_observed_at ?x < si_observed_at (pp_signal ?q)"
    "so_source_id (pp_source ?r) = ''USR-06''"
    by (simp_all add: context_pin_of_def packet_pin_def packet_signal_def example_source_def less_eq_char_def)
  with no_source_is_crowded_out [OF p(1) example_signals_distinct x, of ?q ?r] p(1) show ?thesis
    by (auto simp: example_pins)
qed

theorem packet_facts_accounted_witness:
  "\<exists>p. prepared_example p \<and> rq_facts (pd_request p) = map to_request_fact (pd_facts p) \<and>
     (\<exists>r \<in> set (pd_rejections p). rj_kind r = ''fact'' \<and> rj_subject r = ''sky'')"
proof -
  obtain p where p: "prepared_example p" "pd_facts p = example_fact_list" using example_packet_exists by blast
  obtain sky where sky: "project_sky_fact date_parse example_sky = Inr sky" "cf_id sky = ''sky''"
    by (simp add: project_sky_fact_def example_sky_def utc_instant_def example_day_ends Let_def)
  have projected: "projected_facts date_parse example_midpoint example_packet_input = Inr [sky, project_natal_fact example_natal]"
    using sky(1) by (simp add: projected_facts_def example_packet_input_def)
  have midpoint: "local_day_midpoint date_parse (dw_start_at (pi_day example_packet_input)) (dw_end_at (pi_day example_packet_input)) = Inr example_midpoint"
    by (simp add: local_day_midpoint_def example_packet_input_def example_day_ends example_iso example_midpoint_def)
  have "sky \<notin> set (pd_facts p)"
    using sky(2) by (auto simp: p(2) example_fact_list_def project_natal_fact_def example_natal_def)
  with packet_facts_accounted [OF p(1) example_checked midpoint projected refl] p(1) sky(2) show ?thesis by auto
qed

theorem execution_rebuilds_the_packet_witness:
  "\<exists>p frozen others. prepared_example p \<and>
     frozen_input (\<lambda>c. (cy_id c, [])) example_packet_input (command_pins (\<lambda>c. (cy_id c, [])) example_packet_input p) = Some frozen \<and>
     prepare_constrained_reading_input date_parse (\<lambda>t. t) frozen = Inr (p\<lparr>pd_rejections := others\<rparr>)"
proof -
  obtain p where p: "prepared_example p" using example_packet_exists by blast
  have "distinct_facts example_packet_input"
    by (simp add: distinct_facts_def example_packet_input_def example_sky_def example_natal_def)
  moreover have "prefix_closed (\<lambda>t. t)" by (simp add: prefix_closed_def)
  ultimately show ?thesis using execution_rebuilds_the_packet [OF p _ example_signals_distinct] p by blast
qed


end
