(* ===== verification/Spec2Isabelle.thy ===== *)
theory Spec2Isabelle
  imports Selection Synthetic Projection Pattern_Examples Assembly_Correct Job_Invariants Request_Flow Packet_Example
begin

text \<open>
  A verification development for the PatternLike engines (TypeScript): the Pattern engine
  \<open>packages/pattern-engine\<close>, which decides what an interpretation of a natal chart must cite and
  checks what a planner and a writer made of it, and the reading engine
  \<open>packages/reading-engine\<close>, which decides what may enter a daily reading.
\<close>

end
